(* ===== verification/ESP_Prelude.thy ===== *)
theory ESP_Prelude
  imports
    Main
    "HOL-Library.AList"
    "HOL-Library.Char_ord"
    "HOL-Library.List_Lexorder"
begin

text \<open>
  Shared vocabulary of the development: the standard-library operations the C++ sources use on
  strings, vectors and maps, the conversions between \<open>size_t\<close> and \<open>int\<close>, and the
  generic lemmas on them.

  \<^item> \<open>std::string\<close> is \<open>string\<close> (a list of bytes); positions are \<open>nat\<close> and
    \<open>std::string::npos\<close> is \<open>None\<close>.
  \<^item> \<open>std::map\<close>, \<open>std::unordered_map\<close>, \<open>absl::flat_hash_map\<close> and
    \<open>google::protobuf::Map\<close> are association lists with distinct keys: \<open>find\<close> is
    \<open>map_of\<close>, \<open>operator[] =\<close> is \<open>AList.update\<close>, \<open>insert\<close> and
    \<open>emplace\<close> are \<open>map_insert\<close>, which never overwrites.
  \<^item> \<open>std::set\<close> is a \<open>set\<close>; iterating over it goes through
    \<open>sorted_list_of_set\<close> (bytewise lexicographic order, as \<open>std::less\<close> has it).
\<close>

named_theorems cursor_simps \<open>how the template parser moves its cursor\<close>
named_theorems trie_simps \<open>equations of the path matcher trie\<close>
named_theorems report_simps \<open>equations of the service control request builder\<close>

section \<open>Machine integers\<close>

definition int32 :: "int \<Rightarrow> int" where
  "int32 x = (x + 2 ^ 31) mod 2 ^ 32 - 2 ^ 31"

definition size_t :: "int \<Rightarrow> int" where
  "size_t x = x mod 2 ^ 64"

lemma int32_id [simp]: "- (2 ^ 31) \<le> x \<Longrightarrow> x < 2 ^ 31 \<Longrightarrow> int32 x = x"
  by (simp add: int32_def)

lemma size_t_id [simp]: "0 \<le> x \<Longrightarrow> x < 2 ^ 64 \<Longrightarrow> size_t x = x"
  by (simp add: size_t_def)

lemma int32_size_t:
  assumes "- (2 ^ 31) \<le> x" "x < 2 ^ 31"
  shows "int32 (size_t x) = x"
proof -
  have "(x mod 2 ^ 64 + 2 ^ 31) mod 2 ^ 32 = ((x mod 2 ^ 64) mod 2 ^ 32 + 2 ^ 31) mod 2 ^ 32"
    by (simp add: mod_add_left_eq)
  also have "(x mod 2 ^ 64) mod 2 ^ 32 = x mod (2 ^ 32 :: int)"
    by (rule mod_mod_cancel) (simp add: le_imp_power_dvd)
  finally show ?thesis
    using assms by (simp add: int32_def size_t_def mod_add_left_eq)
qed

section \<open>Strings\<close>

fun find_first_of :: "char \<Rightarrow> string \<Rightarrow> nat option" where
  "find_first_of c [] = None"
| "find_first_of c (x # xs) = (if x = c then Some 0 else map_option Suc (find_first_of c xs))"

fun find_last_of :: "char \<Rightarrow> string \<Rightarrow> nat option" where
  "find_last_of c [] = None"
| "find_last_of c (x # xs) =
     (case find_last_of c xs of Some i \<Rightarrow> Some (Suc i) | None \<Rightarrow> if x = c then Some 0 else None)"

text \<open>\<open>s.substr(0, n)\<close> where \<open>n\<close> may be \<open>npos\<close>.\<close>

definition substr_to :: "string \<Rightarrow> nat option \<Rightarrow> string" where
  "substr_to s n = (case n of None \<Rightarrow> s | Some k \<Rightarrow> take k s)"

text \<open>\<open>absl::StrSplit(s, c)\<close>: always at least one piece.\<close>

fun StrSplit :: "char \<Rightarrow> string \<Rightarrow> string list" where
  "StrSplit c [] = [[]]"
| "StrSplit c (x # xs) =
     (if x = c then [] # StrSplit c xs
      else case StrSplit c xs of [] \<Rightarrow> [[x]] | p # ps \<Rightarrow> (x # p) # ps)"

fun join :: "string \<Rightarrow> string list \<Rightarrow> string" where
  "join d [] = []"
| "join d [x] = x"
| "join d (x # y # ys) = x @ d @ join d (y # ys)"

lemma join_Cons: "ys \<noteq> [] \<Longrightarrow> join d (x # ys) = x @ d @ join d ys"
  by (cases ys) auto

lemma StrSplit_not_Nil [simp]: "StrSplit c s \<noteq> []"
  by (induction s) (auto split: list.splits)

lemma StrSplit_no_sep: "c \<notin> set s \<Longrightarrow> StrSplit c s = [s]"
  by (induction s) (auto split: list.splits)

lemma StrSplit_append_sep:
  "c \<notin> set x \<Longrightarrow> StrSplit c (x @ c # s) = x # StrSplit c s"
  by (induction x) (auto split: list.splits)

lemma StrSplit_join:
  "ps \<noteq> [] \<Longrightarrow> (\<And>p. p \<in> set ps \<Longrightarrow> c \<notin> set p) \<Longrightarrow> StrSplit c (join [c] ps) = ps"
  by (induction "[c]" ps rule: join.induct) (auto simp: StrSplit_no_sep StrSplit_append_sep)

lemma join_StrSplit: "join [c] (StrSplit c s) = s"
proof (induction s)
  case (Cons x xs)
  obtain p ps where "StrSplit c xs = p # ps"
    by (cases "StrSplit c xs") auto
  with Cons show ?case by (cases ps) auto
qed simp

lemma StrSplit_pieces: "p \<in> set (StrSplit c s) \<Longrightarrow> c \<notin> set p"
  by (induction s arbitrary: p) (auto split: if_splits list.splits)

lemma find_snoc:
  "find P (xs @ [y]) = (case find P xs of None \<Rightarrow> if P y then Some y else None | Some x \<Rightarrow> Some x)"
  by (induction xs) auto

lemma find_first_of_None [simp]: "find_first_of c s = None \<longleftrightarrow> c \<notin> set s"
  by (induction s) auto

lemma find_first_of_append:
  "c \<notin> set x \<Longrightarrow> find_first_of c (x @ c # y) = Some (length x)"
  by (induction x) auto

lemma find_last_of_None [simp]: "find_last_of c s = None \<longleftrightarrow> c \<notin> set s"
  by (induction s) (auto split: option.splits)

lemma find_last_of_append:
  "c \<notin> set y \<Longrightarrow> find_last_of c (x @ c # y) = Some (length x)"
  by (induction x) (auto split: option.splits)

lemma find_last_of_SomeD:
  "find_last_of c s = Some i \<Longrightarrow> i < length s \<and> s ! i = c \<and> c \<notin> set (drop (Suc i) s)"
  by (induction s arbitrary: i) (auto split: option.splits if_splits)

section \<open>Maps\<close>

text \<open>
  \<open>insert\<close> of the associative containers: the pair of the resulting container and of the
  value already stored under the key, if any, in which case nothing is written.
\<close>

definition map_insert :: "'k \<Rightarrow> 'v \<Rightarrow> ('k \<times> 'v) list \<Rightarrow> ('k \<times> 'v) list \<times> 'v option" where
  "map_insert k v m = (case map_of m k of None \<Rightarrow> (m @ [(k, v)], None) | Some w \<Rightarrow> (m, Some w))"

lemma map_of_map_insert:
  "map_of (fst (map_insert k v m)) =
     (case map_of m k of None \<Rightarrow> (map_of m)(k \<mapsto> v) | Some w \<Rightarrow> map_of m)"
  by (auto simp: map_insert_def map_add_def split: option.splits)

lemma snd_map_insert [simp]: "snd (map_insert k v m) = map_of m k"
  by (simp add: map_insert_def split: option.splits)

lemma distinct_map_insert:
  "distinct (map fst m) \<Longrightarrow> distinct (map fst (fst (map_insert k v m)))"
  by (auto simp: map_insert_def map_of_eq_None_iff split: option.splits)

lemma map_of_update [simp]: "map_of (AList.update k v m) = (map_of m)(k \<mapsto> v)"
  by (rule ext) (simp add: update_conv)

section \<open>Lists\<close>

lemma takeWhile_append_stop:
  "(\<And>x. x \<in> set xs \<Longrightarrow> P x) \<Longrightarrow> ys = [] \<or> \<not> P (hd ys) \<Longrightarrow>
   takeWhile P (xs @ ys) = xs \<and> dropWhile P (xs @ ys) = ys"
  by (cases ys) (auto simp: takeWhile_append dropWhile_append)

lemma drop_Cons_nth: "drop i xs = y # ys \<Longrightarrow> i < length xs \<and> xs ! i = y \<and> drop (Suc i) xs = ys"
  by (metis Cons_nth_drop_Suc drop_eq_Nil2 linorder_not_less list.distinct(1) list.inject)

end
