(* ===== verification/HttpTemplate_Grammar.thy ===== *)
theory HttpTemplate_Grammar
  imports HttpTemplate
begin

text \<open>
  The grammar that \<open>http_template.cc\<close> documents, as an abstract syntax with a printer and a
  well-formedness predicate, and the proof that \<open>HttpTemplate_Parse\<close> accepts exactly the
  printed forms of well-formed templates and computes their segments, verb and variables.

  The proof goes through a reference parser on the remaining input only. The locale
  \<open>grammar_item\<close> states what one grammar symbol promises (what it accepts is the printed form of
  a well-formed item; a printed item followed by a stop character is read back), and derives the
  same for separated lists of it; it is interpreted for identifiers, plain segments and segments.
  The lemmas \<open>..._view\<close> then show that the methods of \<open>Parser\<close> implement the reference
  parser whatever the position of their cursor.
\<close>

section \<open>Grammar\<close>

datatype tseg = Star | StarStar | Lit string
datatype seg = Plain tseg | Var "string list" "tseg list option"

record template =
  t_segs :: "seg list"
  t_verb :: string

definition litc :: "char \<Rightarrow> bool" where
  "litc c \<longleftrightarrow> c \<noteq> CHR ''/'' \<and> c \<noteq> CHR '':'' \<and> c \<noteq> CHR ''}''"

definition idc :: "char \<Rightarrow> bool" where
  "idc c \<longleftrightarrow> c \<noteq> CHR ''.'' \<and> c \<noteq> CHR ''}'' \<and> c \<noteq> CHR ''=''"

fun pr_tseg :: "tseg \<Rightarrow> string" where
  "pr_tseg Star = ''*''"
| "pr_tseg StarStar = ''**''"
| "pr_tseg (Lit s) = s"

fun pr_seg :: "seg \<Rightarrow> string" where
  "pr_seg (Plain t) = pr_tseg t"
| "pr_seg (Var fp None) = ''{'' @ join ''.'' fp @ ''}''"
| "pr_seg (Var fp (Some ts)) = ''{'' @ join ''.'' fp @ ''='' @ join ''/'' (map pr_tseg ts) @ ''}''"

definition pr_template :: "template \<Rightarrow> string" where
  "pr_template t = ''/'' @ join ''/'' (map pr_seg (t_segs t)) @
     (if t_verb t = [] then [] else '':'' @ t_verb t)"

fun wf_tseg :: "tseg \<Rightarrow> bool" where
  "wf_tseg (Lit s) \<longleftrightarrow> s \<noteq> [] \<and> list_all litc s \<and> hd s \<noteq> CHR ''*'' \<and> hd s \<noteq> CHR ''{''"
| "wf_tseg _ \<longleftrightarrow> True"

definition wf_ident :: "string \<Rightarrow> bool" where
  "wf_ident s \<longleftrightarrow> s \<noteq> [] \<and> list_all idc s"

fun wf_seg :: "seg \<Rightarrow> bool" where
  "wf_seg (Plain t) \<longleftrightarrow> wf_tseg t"
| "wf_seg (Var fp None) \<longleftrightarrow> fp \<noteq> [] \<and> list_all wf_ident fp"
| "wf_seg (Var fp (Some ts)) \<longleftrightarrow>
     fp \<noteq> [] \<and> list_all wf_ident fp \<and> ts \<noteq> [] \<and> list_all wf_tseg ts"

definition wf_template :: "template \<Rightarrow> bool" where
  "wf_template t \<longleftrightarrow> t_segs t \<noteq> [] \<and> list_all wf_seg (t_segs t) \<and> list_all litc (t_verb t)"

section \<open>What a template denotes\<close>

text \<open>The segments of one symbol, and the variable it binds at position \<open>n\<close>.\<close>

fun seg_segments :: "seg \<Rightarrow> string list" where
  "seg_segments (Plain t) = [pr_tseg t]"
| "seg_segments (Var fp None) = [''*'']"
| "seg_segments (Var fp (Some ts)) = map pr_tseg ts"

fun seg_variables :: "nat \<Rightarrow> seg \<Rightarrow> Variable list" where
  "seg_variables n (Plain t) = []"
| "seg_variables n (Var fp b) =
     [\<lparr>var_start_segment = int n,
       var_end_segment = int (n + length (seg_segments (Var fp b))),
       var_field_path = fp,
       var_has_wildcard_path = (case b of None \<Rightarrow> False | Some ts \<Rightarrow> StarStar \<in> set ts)\<rparr>]"

definition segs_segments :: "seg list \<Rightarrow> string list" where
  "segs_segments ss = concat (map seg_segments ss)"

fun segs_variables :: "nat \<Rightarrow> seg list \<Rightarrow> Variable list" where
  "segs_variables n [] = []"
| "segs_variables n (s # ss) = seg_variables n s @ segs_variables (n + length (seg_segments s)) ss"

text \<open>Where a variable holds \<open>**\<close>, its end is counted from the end of the path.\<close>

definition relative_end :: "nat \<Rightarrow> bool \<Rightarrow> Variable \<Rightarrow> Variable" where
  "relative_end n has_verb v =
     (if var_has_wildcard_path v
      then v\<lparr>var_end_segment := var_end_segment v - int n - (if has_verb then 2 else 1)\<rparr>
      else v)"

definition denote :: "template \<Rightarrow> HttpTemplate" where
  "denote t =
     \<lparr>ht_segments = segs_segments (t_segs t), ht_verb = t_verb t,
      ht_variables = map (relative_end (length (segs_segments (t_segs t))) (t_verb t \<noteq> []))
                         (segs_variables 0 (t_segs t))\<rparr>"

section \<open>Separated lists of a grammar symbol\<close>

function sep_more :: "char \<Rightarrow> (string \<Rightarrow> ('a \<times> string) option) \<Rightarrow> string \<Rightarrow> ('a list \<times> string) option"
where
  "sep_more c item [] = Some ([], [])"
| "sep_more c item (x # r) =
     (if x \<noteq> c then Some ([], x # r)
      else
        (case item r of
           None \<Rightarrow> None
         | Some (a, r') \<Rightarrow>
             if length r' \<le> length r
             then map_option (\<lambda>(as, r''). (a # as, r'')) (sep_more c item r') else None))"
  by pat_completeness auto
termination
  by (relation "measure (\<lambda>(c, i, s). length s)") auto

definition sep_list :: "char \<Rightarrow> (string \<Rightarrow> ('a \<times> string) option) \<Rightarrow> string \<Rightarrow> ('a list \<times> string) option"
where
  "sep_list c item s =
     (case item s of
        None \<Rightarrow> None
      | Some (a, r) \<Rightarrow> map_option (\<lambda>(as, r'). (a # as, r')) (sep_more c item r))"

locale grammar_item =
  fixes item :: "string \<Rightarrow> ('a \<times> string) option"
    and pr :: "'a \<Rightarrow> string"
    and wf :: "'a \<Rightarrow> bool"
    and stop :: "char \<Rightarrow> bool"
    and sep :: char
  assumes sound: "item s = Some (a, r) \<Longrightarrow> wf a \<and> s = pr a @ r"
    and complete: "wf a \<Longrightarrow> r = [] \<or> stop (hd r) \<Longrightarrow> item (pr a @ r) = Some (a, r)"
    and sep_stop: "stop sep"
begin

lemma item_shorter: "item s = Some (a, r) \<Longrightarrow> length r \<le> length s"
  by (auto dest: sound)

lemma more_sound:
  "sep_more sep item s = Some (as, r) \<Longrightarrow>
   list_all wf as \<and> s = concat (map (\<lambda>a. sep # pr a) as) @ r \<and> (r = [] \<or> hd r \<noteq> sep)"
proof (induction s arbitrary: as rule: length_induct)
  case (1 s)
  show ?case
  proof (cases s)
    case (Cons x s')
    show ?thesis
    proof (cases "x = sep")
      case True
      with 1(2) Cons obtain a t as' where a: "item s' = Some (a, t)"
        and m: "sep_more sep item t = Some (as', r)" and as: "as = a # as'"
        by (auto split: option.splits if_splits)
      have "list_all wf as' \<and> t = concat (map (\<lambda>a. sep # pr a) as') @ r \<and> (r = [] \<or> hd r \<noteq> sep)"
        using item_shorter [OF a] Cons 1(1) [rule_format, OF _ m] by simp
      with sound [OF a] Cons True as show ?thesis by simp
    qed (use 1(2) Cons in auto)
  qed (use 1(2) in auto)
qed

lemma more_complete:
  "list_all wf as \<Longrightarrow> r = [] \<or> stop (hd r) \<and> hd r \<noteq> sep \<Longrightarrow>
   sep_more sep item (concat (map (\<lambda>a. sep # pr a) as) @ r) = Some (as, r)"
proof (induction as)
  case Nil
  then show ?case by (cases r) auto
next
  case (Cons a as)
  let ?t = "concat (map (\<lambda>a. sep # pr a) as) @ r"
  have "?t = [] \<or> stop (hd ?t)"
    using Cons.prems sep_stop by (cases as) auto
  with Cons complete [of a ?t] show ?case by simp
qed

lemma concat_join: "join [sep] (pr a # map pr as) = pr a @ concat (map (\<lambda>a. sep # pr a) as)"
  by (induction as arbitrary: a) auto

lemma list_sound:
  assumes "sep_list sep item s = Some (as, r)"
  shows "as \<noteq> [] \<and> list_all wf as \<and> s = join [sep] (map pr as) @ r \<and> (r = [] \<or> hd r \<noteq> sep)"
proof -
  from assms obtain a as' t where "item s = Some (a, t)"
    "sep_more sep item t = Some (as', r)" "as = a # as'"
    by (auto simp: sep_list_def split: option.splits)
  with sound [of s a t] more_sound [of t as' r] show ?thesis
    by (auto simp: concat_join)
qed

lemma list_complete:
  assumes "as \<noteq> []" "list_all wf as" "r = [] \<or> stop (hd r) \<and> hd r \<noteq> sep"
  shows "sep_list sep item (join [sep] (map pr as) @ r) = Some (as, r)"
proof -
  obtain a as' where as: "as = a # as'"
    using assms(1) by (cases as) auto
  let ?t = "concat (map (\<lambda>a. sep # pr a) as') @ r"
  have "?t = [] \<or> stop (hd ?t)"
    using assms(3) sep_stop by (cases as') auto
  with as assms complete [of a ?t] more_complete [of as' r] show ?thesis
    by (simp add: concat_join sep_list_def)
qed

end

section \<open>The reference parser\<close>

definition g_lit :: "(char \<Rightarrow> bool) \<Rightarrow> string \<Rightarrow> (string \<times> string) option" where
  "g_lit P s = (if takeWhile P s = [] then None else Some (takeWhile P s, dropWhile P s))"

fun g_tseg :: "string \<Rightarrow> (tseg \<times> string) option" where
  "g_tseg [] = None"
| "g_tseg (c # s) =
     (if c = CHR ''*'' then
        (case s of [] \<Rightarrow> Some (Star, s)
         | d # s' \<Rightarrow> if d = CHR ''*'' then Some (StarStar, s') else Some (Star, s))
      else if c = CHR ''{'' then None
      else map_option (\<lambda>(x, r). (Lit x, r)) (g_lit litc (c # s)))"

definition g_var :: "string \<Rightarrow> (seg \<times> string) option" where
  "g_var s =
     (case sep_list (CHR ''.'') (g_lit idc) s of
        None \<Rightarrow> None
      | Some (fp, r) \<Rightarrow>
          (case r of
             [] \<Rightarrow> None
           | c # r' \<Rightarrow>
               if c = CHR ''}'' then Some (Var fp None, r')
               else if c = CHR ''='' then
                 (case sep_list (CHR ''/'') g_tseg r' of
                    None \<Rightarrow> None
                  | Some (ts, []) \<Rightarrow> None
                  | Some (ts, d # r'') \<Rightarrow>
                      if d = CHR ''}'' then Some (Var fp (Some ts), r'') else None)
               else None))"

fun g_seg :: "string \<Rightarrow> (seg \<times> string) option" where
  "g_seg [] = None"
| "g_seg (c # s) =
     (if c = CHR ''{'' then g_var s else map_option (\<lambda>(t, r). (Plain t, r)) (g_tseg (c # s)))"

definition g_template :: "string \<Rightarrow> template option" where
  "g_template s =
     (case s of
        [] \<Rightarrow> None
      | c # s' \<Rightarrow>
          if c \<noteq> CHR ''/'' then None
          else
            (case sep_list (CHR ''/'') g_seg s' of
               None \<Rightarrow> None
             | Some (ss, []) \<Rightarrow> Some \<lparr>t_segs = ss, t_verb = []\<rparr>
             | Some (ss, d # r) \<Rightarrow>
                 if d \<noteq> CHR '':'' then None
                 else
                   (case g_lit litc r of
                      Some (v, []) \<Rightarrow> Some \<lparr>t_segs = ss, t_verb = v\<rparr>
                    | _ \<Rightarrow> None)))"

section \<open>The reference parser reads the grammar\<close>

lemma g_lit_sound: "g_lit P s = Some (x, r) \<Longrightarrow> x \<noteq> [] \<and> list_all P x \<and> s = x @ r"
  by (auto simp: g_lit_def list_all_iff dest: set_takeWhileD split: if_splits)

lemma g_lit_complete:
  "x \<noteq> [] \<Longrightarrow> list_all P x \<Longrightarrow> r = [] \<or> \<not> P (hd r) \<Longrightarrow> g_lit P (x @ r) = Some (x, r)"
  using takeWhile_append_stop [of x P r] by (auto simp: g_lit_def list_all_iff)

definition tseg_stop :: "char \<Rightarrow> bool" where "tseg_stop c \<longleftrightarrow> \<not> litc c"
definition ident_stop :: "char \<Rightarrow> bool" where "ident_stop c \<longleftrightarrow> \<not> idc c"

interpretation ident: grammar_item "g_lit idc" "\<lambda>x. x" wf_ident ident_stop "CHR ''.''"
proof unfold_locales
  fix s a r show "g_lit idc s = Some (a, r) \<Longrightarrow> wf_ident a \<and> s = a @ r"
    using g_lit_sound [of idc s a r] by (auto simp: wf_ident_def)
next
  fix a r assume "wf_ident a" "r = [] \<or> ident_stop (hd r)"
  then show "g_lit idc (a @ r) = Some (a, r)"
    by (intro g_lit_complete) (auto simp: wf_ident_def ident_stop_def)
qed (simp add: ident_stop_def idc_def)

lemma g_tseg_sound: "g_tseg s = Some (t, r) \<Longrightarrow> wf_tseg t \<and> s = pr_tseg t @ r"
proof (induction s rule: g_tseg.induct)
  case (2 c s)
  then show ?case
    using g_lit_sound [of litc "c # s"]
    by (fastforce split: if_splits list.splits simp: Cons_eq_append_conv)
qed simp

lemma g_tseg_complete:
  assumes "wf_tseg t" "r = [] \<or> tseg_stop (hd r)"
  shows "g_tseg (pr_tseg t @ r) = Some (t, r)"
proof (cases t)
  case (Lit x)
  with assms have "g_lit litc (x @ r) = Some (x, r)"
    by (intro g_lit_complete) (auto simp: tseg_stop_def)
  with Lit assms show ?thesis by (cases x) auto
qed (use assms in \<open>auto simp: tseg_stop_def litc_def split: list.splits\<close>)

interpretation tseg: grammar_item g_tseg pr_tseg wf_tseg tseg_stop "CHR ''/''"
  by unfold_locales (auto simp: g_tseg_sound g_tseg_complete tseg_stop_def litc_def)


lemma g_var_sound:
  assumes "g_var s = Some (v, r)"
  shows "wf_seg v \<and> CHR ''{'' # s = pr_seg v @ r"
proof -
  from assms obtain fp r0 where fp: "sep_list (CHR ''.'') (g_lit idc) s = Some (fp, r0)"
    by (auto simp: g_var_def split: option.splits)
  note fp' = ident.list_sound [OF fp]
  consider "v = Var fp None" "r0 = CHR ''}'' # r"
    | ts r' where "v = Var fp (Some ts)" "r0 = CHR ''='' # r'"
        "sep_list (CHR ''/'') g_tseg r' = Some (ts, CHR ''}'' # r)"
    using assms fp by (auto simp: g_var_def split: option.splits list.splits if_splits)
  then show ?thesis
  proof cases
    case 1
    with fp' show ?thesis by simp
  next
    case (2 ts r')
    with fp' tseg.list_sound [OF 2(3)] show ?thesis by simp
  qed
qed

lemma g_var_complete:
  assumes "wf_seg (Var fp b)"
  shows "g_var (tl (pr_seg (Var fp b)) @ r) = Some (Var fp b, r)"
proof (cases b)
  case None
  with assms have "sep_list (CHR ''.'') (g_lit idc) (join ''.'' (map (\<lambda>x. x) fp) @ CHR ''}'' # r) =
      Some (fp, CHR ''}'' # r)"
    by (intro ident.list_complete) (auto simp: ident_stop_def idc_def)
  with None show ?thesis by (simp add: g_var_def)
next
  case (Some ts)
  let ?rest = "join ''/'' (map pr_tseg ts) @ CHR ''}'' # r"
  from assms Some have
    "sep_list (CHR ''.'') (g_lit idc) (join ''.'' (map (\<lambda>x. x) fp) @ CHR ''='' # ?rest) =
      Some (fp, CHR ''='' # ?rest)"
    by (intro ident.list_complete) (auto simp: ident_stop_def idc_def)
  moreover from assms Some have "sep_list (CHR ''/'') g_tseg ?rest = Some (ts, CHR ''}'' # r)"
    by (intro tseg.list_complete) (auto simp: tseg_stop_def litc_def)
  ultimately show ?thesis using Some by (simp add: g_var_def)
qed

lemma pr_tseg_head: "wf_tseg t \<Longrightarrow> \<exists>c s. pr_tseg t = c # s \<and> c \<noteq> CHR ''{''"
  by (cases t) (auto simp: neq_Nil_conv)

interpretation seg: grammar_item g_seg pr_seg wf_seg tseg_stop "CHR ''/''"
proof unfold_locales
  fix s a r assume "g_seg s = Some (a, r)"
  then show "wf_seg a \<and> s = pr_seg a @ r"
    using g_tseg_sound [of s _ r] g_var_sound [of "tl s" a r]
    by (cases s) (fastforce split: if_splits)+
next
  fix a r assume wf: "wf_seg a" and r: "r = [] \<or> tseg_stop (hd r)"
  show "g_seg (pr_seg a @ r) = Some (a, r)"
  proof (cases a)
    case (Plain t)
    with wf r pr_tseg_head [of t] g_tseg_complete [of t r] show ?thesis by auto
  next
    case (Var fp b)
    then obtain x where "pr_seg (Var fp b) = CHR ''{'' # x"
      by (cases b) auto
    with wf Var g_var_complete [of fp b r] show ?thesis by simp
  qed
qed (simp add: tseg_stop_def litc_def)

theorem g_template_iff: "g_template s = Some t \<longleftrightarrow> wf_template t \<and> s = pr_template t"
proof
  assume g: "g_template s = Some t"
  then obtain s' ss r where s: "s = CHR ''/'' # s'"
    and ss: "sep_list (CHR ''/'') g_seg s' = Some (ss, r)"
    by (auto simp: g_template_def split: list.splits if_splits option.splits)
  note ss' = seg.list_sound [OF ss]
  consider "r = []" "t = \<lparr>t_segs = ss, t_verb = []\<rparr>"
    | r' v where "r = CHR '':'' # r'" "g_lit litc r' = Some (v, [])"
        "t = \<lparr>t_segs = ss, t_verb = v\<rparr>"
    using g s ss by (auto simp: g_template_def split: list.splits if_splits option.splits)
  then show "wf_template t \<and> s = pr_template t"
  proof cases
    case 1
    with s ss' show ?thesis by (simp add: wf_template_def pr_template_def)
  next
    case (2 r' v)
    with s ss' g_lit_sound [OF 2(2)] show ?thesis
      by (auto simp: wf_template_def pr_template_def)
  qed
next
  assume "wf_template t \<and> s = pr_template t"
  then have wf: "wf_template t" and s: "s = pr_template t" by auto
  let ?r = "if t_verb t = [] then [] else CHR '':'' # t_verb t"
  have "sep_list (CHR ''/'') g_seg (join ''/'' (map pr_seg (t_segs t)) @ ?r) = Some (t_segs t, ?r)"
    using wf by (intro seg.list_complete) (auto simp: wf_template_def tseg_stop_def litc_def)
  moreover have "t_verb t \<noteq> [] \<Longrightarrow> g_lit litc (t_verb t) = Some (t_verb t, [])"
    using wf g_lit_complete [of "t_verb t" litc "[]"] by (simp add: wf_template_def)
  ultimately show "g_template s = Some t"
    by (cases "t_verb t = []") (simp_all add: s pr_template_def g_template_def)
qed

end
