(* ===== verification/HttpTemplate_Correct.thy ===== *)
theory HttpTemplate_Correct
  imports HttpTemplate_Grammar
begin

text \<open>
  The methods of \<open>Parser\<close> against the reference parser of \<open>HttpTemplate_Grammar\<close>: each
  lemma \<open>X_view\<close> says what method \<open>X\<close> does to the \<open>view\<close> of the parser, the parser
  seen without its cursor (its input is what is left to read). The fuel bounds are part of the
  statements, so the final theorems are about the parser as \<open>HttpTemplate_Parse\<close> runs it.
\<close>

section \<open>The cursor\<close>

definition rest :: "Parser \<Rightarrow> string" where
  "rest p = drop (ps_tb p) (ps_input p)"

definition view :: "Parser \<Rightarrow> Parser" where
  "view p = p\<lparr>ps_input := rest p, ps_tb := 0, ps_te := 0\<rparr>"

text \<open>At most one character has been looked at and not consumed.\<close>

definition cursor_ok :: "Parser \<Rightarrow> bool" where
  "cursor_ok p \<longleftrightarrow>
     (ps_te p = ps_tb p \<or> ps_te p = Suc (ps_tb p)) \<and> ps_te p \<le> length (ps_input p)"

definition synced :: "Parser \<Rightarrow> bool" where
  "synced p \<longleftrightarrow> ps_te p = ps_tb p \<and> ps_te p \<le> length (ps_input p)"

definition pending :: "Parser \<Rightarrow> bool" where
  "pending p \<longleftrightarrow> ps_te p = Suc (ps_tb p) \<and> ps_te p \<le> length (ps_input p)"

lemma cursor_cases: "cursor_ok p \<longleftrightarrow> synced p \<or> pending p"
  by (auto simp: cursor_ok_def synced_def pending_def)

lemma synced_ok [simp]: "synced p \<Longrightarrow> cursor_ok p"
  by (simp add: cursor_cases)

lemma pending_ok [simp]: "pending p \<Longrightarrow> cursor_ok p"
  by (simp add: cursor_cases)

lemma pending_rest: "pending p \<Longrightarrow> rest p = current_char p # drop (Suc (ps_tb p)) (ps_input p)"
  by (simp add: pending_def rest_def current_char_def Cons_nth_drop_Suc)

lemma view_simps [simp]:
  "ps_input (view p) = rest p" "ps_in_variable (view p) = ps_in_variable p"
  "ps_segments (view p) = ps_segments p" "ps_verb (view p) = ps_verb p"
  "ps_variables (view p) = ps_variables p"
  by (simp_all add: view_def)

lemma view_updates [simp]:
  "view (p\<lparr>ps_segments := a\<rparr>) = (view p)\<lparr>ps_segments := a\<rparr>"
  "view (p\<lparr>ps_variables := vs\<rparr>) = (view p)\<lparr>ps_variables := vs\<rparr>"
  "view (p\<lparr>ps_in_variable := b\<rparr>) = (view p)\<lparr>ps_in_variable := b\<rparr>"
  "view (p\<lparr>ps_verb := v\<rparr>) = (view p)\<lparr>ps_verb := v\<rparr>"
  "cursor_ok (p\<lparr>ps_segments := a\<rparr>) = cursor_ok p"
  "cursor_ok (p\<lparr>ps_variables := vs\<rparr>) = cursor_ok p"
  "cursor_ok (p\<lparr>ps_in_variable := b\<rparr>) = cursor_ok p"
  "cursor_ok (p\<lparr>ps_verb := v\<rparr>) = cursor_ok p"
  "synced (p\<lparr>ps_variables := vs\<rparr>) = synced p"
  "synced (p\<lparr>ps_in_variable := b\<rparr>) = synced p"
  by (simp_all add: view_def rest_def cursor_ok_def synced_def)

lemma view_input [simp]:
  "view p\<lparr>ps_input := rest p\<rparr> = view p"
  "view p\<lparr>ps_variables := vs, ps_input := rest p\<rparr> = view p\<lparr>ps_variables := vs\<rparr>"
  by (cases p, simp add: view_def)+

lemma view_eqD:
  assumes "view q = view p\<lparr>ps_input := r\<rparr>"
  shows "rest q = r" "ps_in_variable q = ps_in_variable p" "ps_segments q = ps_segments p"
    "ps_verb q = ps_verb p" "ps_variables q = ps_variables p"
proof -
  show "rest q = r" using arg_cong [OF assms, of ps_input] by simp
  show "ps_in_variable q = ps_in_variable p" using arg_cong [OF assms, of ps_in_variable] by simp
  show "ps_segments q = ps_segments p" using arg_cong [OF assms, of ps_segments] by simp
  show "ps_verb q = ps_verb p" using arg_cong [OF assms, of ps_verb] by simp
  show "ps_variables q = ps_variables p" using arg_cong [OF assms, of ps_variables] by simp
qed

lemma view_rest: "view q = view p \<Longrightarrow> rest q = rest p"
  by (metis view_simps(1))

lemma NextChar_view:
  assumes "synced p"
  shows "if rest p = [] then NextChar p = (False, p)
         else \<exists>q. NextChar p = (True, q) \<and> pending q \<and> view q = view p"
  using assms by (auto simp: synced_def NextChar_def pending_def rest_def view_def)

lemma EnsureCurrent_view:
  assumes "cursor_ok p"
  shows "if rest p = [] then EnsureCurrent p = (False, p)
         else \<exists>q. EnsureCurrent p = (True, q) \<and> pending q \<and> view q = view p \<and>
                   current_char q = hd (rest p)"
proof -
  have *: "pending q \<Longrightarrow> view q = view p \<Longrightarrow> current_char q = hd (rest p)" for q
    using pending_rest [of q] view_rest [of q p] by simp
  from assms consider "synced p" | "pending p" by (auto simp: cursor_cases)
  then show ?thesis
  proof cases
    case 1
    then show ?thesis
      using NextChar_view [OF 1] * by (auto simp: EnsureCurrent_def synced_def)
  next
    case 2
    then show ?thesis
      using pending_rest [OF 2] * [OF 2] by (auto simp: EnsureCurrent_def pending_def)
  qed
qed

lemma Consume_pending:
  assumes "pending p"
  shows "if current_char p = c
         then \<exists>q. Consume c p = (True, q) \<and> synced q \<and> view q = view p\<lparr>ps_input := tl (rest p)\<rparr>
         else Consume c p = (False, p)"
  using assms by (auto simp: Consume_def pending_def synced_def view_def rest_def drop_Suc tl_drop)

lemma Consume_view:
  assumes "cursor_ok p"
  shows "if rest p \<noteq> [] \<and> hd (rest p) = c
         then \<exists>q. Consume c p = (True, q) \<and> synced q \<and> view q = view p\<lparr>ps_input := tl (rest p)\<rparr>
         else \<exists>q. Consume c p = (False, q) \<and> cursor_ok q \<and> view q = view p"
proof -
  have eq: "Consume c p = (case EnsureCurrent p of (ok, q) \<Rightarrow>
      if \<not> ok then (False, q) else Consume c q)"
    using assms by (auto simp: Consume_def EnsureCurrent_def NextChar_def Let_def cursor_ok_def)
  show ?thesis
  proof (cases "rest p = []")
    case True
    then show ?thesis using assms EnsureCurrent_view [OF assms] by (auto simp: eq)
  next
    case False
    then obtain q where q: "EnsureCurrent p = (True, q)" "pending q" "view q = view p"
      "current_char q = hd (rest p)"
      using EnsureCurrent_view [OF assms] by auto
    with view_rest [OF q(3)] False Consume_pending [OF q(2), of c] show ?thesis
      by (auto simp: eq split: if_splits)
  qed
qed

section \<open>Literals and identifiers\<close>

lemma ParseLiteral_loop_view:
  "pending p \<Longrightarrow>
   \<exists>q. ParseLiteral_loop p lit result =
         (result \<or> takeWhile litc (rest p) \<noteq> [], lit @ takeWhile litc (rest p), q) \<and>
       cursor_ok q \<and> view q = view p\<lparr>ps_input := dropWhile litc (rest p)\<rparr>"
proof (induction p lit result rule: ParseLiteral_loop.induct)
  case (1 p lit result)
  let ?c = "current_char p"
  obtain xs where rp: "rest p = ?c # xs"
    using pending_rest [OF 1(2)] by blast
  show ?case
  proof (cases "litc ?c")
    case False
    then have "takeWhile litc (rest p) = []" "dropWhile litc (rest p) = rest p"
      by (simp_all add: rp)
    then show ?thesis
      using False 1(2) by (simp add: ParseLiteral_loop.simps [of p] litc_def [of ?c] Let_def)
  next
    case True
    obtain q where q: "Consume ?c p = (True, q)" "synced q"
      "view q = view p\<lparr>ps_input := tl (rest p)\<rparr>"
      using Consume_pending [OF 1(2), of ?c] by auto
    note rq = view_eqD(1) [OF q(3)]
    have w: "takeWhile litc (rest p) = ?c # takeWhile litc (rest q)"
      "dropWhile litc (rest p) = dropWhile litc (rest q)"
      using True rq by (simp_all add: rp)
    have step: "ParseLiteral_loop p lit result =
      (case NextChar q of (False, p) \<Rightarrow> (True, lit @ [?c], p)
        | (True, p) \<Rightarrow> ParseLiteral_loop p (lit @ [?c]) True)"
      using True q(1) by (simp add: ParseLiteral_loop.simps [of p] litc_def [of ?c] Let_def)
    show ?thesis
    proof (cases "rest q = []")
      case True
      then show ?thesis
        using NextChar_view [OF q(2)] q rq by (simp add: step rp) (use \<open>litc ?c\<close> in simp)
    next
      case False
      then obtain q' where q': "NextChar q = (True, q')" "pending q'" "view q' = view q"
        using NextChar_view [OF q(2)] by auto
      have "\<exists>q''. ParseLiteral_loop q' (lit @ [?c]) True =
          (True, (lit @ [?c]) @ takeWhile litc (rest q'), q'') \<and>
          cursor_ok q'' \<and> view q'' = view q'\<lparr>ps_input := dropWhile litc (rest q')\<rparr>"
        using 1(1) [OF refl _ refl refl, of True q'] \<open>litc ?c\<close> q q'
        by (auto simp: litc_def [of ?c])
      then show ?thesis
        using q' q(3) w view_rest [OF q'(3)] by (simp add: step)
    qed
  qed
qed

lemma ParseLiteral_view:
  assumes "cursor_ok p"
  shows "\<exists>q. ParseLiteral p lit = (takeWhile litc (rest p) \<noteq> [], lit @ takeWhile litc (rest p), q) \<and>
             cursor_ok q \<and> view q = view p\<lparr>ps_input := dropWhile litc (rest p)\<rparr>"
proof (cases "rest p = []")
  case True
  with EnsureCurrent_view [OF assms] assms show ?thesis
    using view_input(1) [of p] by (simp add: ParseLiteral_def)
next
  case False
  then obtain q where "EnsureCurrent p = (True, q)" "pending q" "view q = view p"
    using EnsureCurrent_view [OF assms] by auto
  with ParseLiteral_loop_view [of q lit False] view_rest [of q p] show ?thesis
    by (auto simp: ParseLiteral_def)
qed

text \<open>The field path of the variable being parsed.\<close>

definition add_idents :: "string list \<Rightarrow> Parser \<Rightarrow> Parser" where
  "add_idents is p =
     CurrentVariable_update (\<lambda>v. v\<lparr>var_field_path := var_field_path v @ is\<rparr>) p"

lemma CurrentVariable_update_comp:
  "ps_variables p \<noteq> [] \<Longrightarrow>
   CurrentVariable_update f (CurrentVariable_update g p) = CurrentVariable_update (f \<circ> g) p"
  by (simp add: CurrentVariable_update_def)

lemma ParseIdentifier_loop_view:
  "synced p \<Longrightarrow> ps_in_variable p \<Longrightarrow> ps_variables p \<noteq> [] \<Longrightarrow>
   (let x = takeWhile idc (rest p) in
    if result \<or> x \<noteq> [] then
      \<exists>q. ParseIdentifier_loop p idf result = (True, q) \<and> cursor_ok q \<and>
          view q = add_idents [idf @ x] (view p)\<lparr>ps_input := dropWhile idc (rest p)\<rparr>
    else \<exists>q. ParseIdentifier_loop p idf result = (False, q))"
proof (induction p idf result rule: ParseIdentifier_loop.induct)
  case (1 p idf result)
  show ?case
  proof (cases "rest p = []")
    case True
    with NextChar_view [OF 1(2)] 1(2-4) view_input(2) [of p] show ?thesis
      by (simp add: ParseIdentifier_loop.simps [of p] AddFieldIdentifier_def add_idents_def
          CurrentVariable_update_def)
  next
    case False
    then obtain q where q: "NextChar p = (True, q)" "pending q" "view q = view p"
      using NextChar_view [OF 1(2)] by auto
    note rq = view_rest [OF q(3)]
    let ?c = "current_char q"
    obtain xs where rp: "rest p = ?c # xs"
      using pending_rest [OF q(2)] rq by simp
    have vars: "ps_in_variable q" "ps_variables q = ps_variables p"
      using arg_cong [OF q(3), of ps_in_variable] arg_cong [OF q(3), of ps_variables] 1(3) by auto
    show ?thesis
    proof (cases "idc ?c")
      case False
      then have "takeWhile idc (rest p) = []" "dropWhile idc (rest p) = rest p"
        by (simp_all add: rp)
      then show ?thesis
        using False q vars 1(4)
        by (simp add: ParseIdentifier_loop.simps [of p] idc_def [of ?c] Let_def AddFieldIdentifier_def
            add_idents_def CurrentVariable_update_def)
    next
      case True
      obtain p' where p': "Consume ?c q = (True, p')" "synced p'"
        "view p' = view q\<lparr>ps_input := tl (rest q)\<rparr>"
        using Consume_pending [OF q(2), of ?c] by auto
      note f = view_eqD [OF p'(3)]
      have w: "takeWhile idc (rest p) = ?c # takeWhile idc (rest p')"
        "dropWhile idc (rest p) = dropWhile idc (rest p')"
        using True f(1) by (simp_all add: rp rq)
      have step: "ParseIdentifier_loop p idf result = ParseIdentifier_loop p' (idf @ [?c]) True"
        using True q(1) p'(1) by (simp add: ParseIdentifier_loop.simps [of p] idc_def [of ?c] Let_def)
      have "\<exists>q''. ParseIdentifier_loop p' (idf @ [?c]) True = (True, q'') \<and> cursor_ok q'' \<and>
          view q'' = add_idents [(idf @ [?c]) @ takeWhile idc (rest p')] (view p')
                       \<lparr>ps_input := dropWhile idc (rest p')\<rparr>"
        using 1(1) [OF q(1) [symmetric] refl refl] True q(1) p' f vars 1(4)
        by (simp add: idc_def [of ?c] Let_def)
      then show ?thesis
        using w step q(3) p'(3)
        by (auto simp: Let_def add_idents_def CurrentVariable_update_def)
    qed
  qed
qed

section \<open>Results of the parsing methods\<close>

text \<open>
  \<open>yields r W\<close>: the method returned without running out of fuel, with \<open>false\<close> where the
  reference parser fails (\<open>W = None\<close>) and otherwise with \<open>true\<close> and the view \<open>W\<close> says.
\<close>

definition yields :: "(bool \<times> Parser) option \<Rightarrow> Parser option \<Rightarrow> bool" where
  "yields res W \<longleftrightarrow>
     (case W of
        None \<Rightarrow> \<exists>q. res = Some (False, q)
      | Some V \<Rightarrow> \<exists>q. res = Some (True, q) \<and> cursor_ok q \<and> view q = V)"

lemma yields_None [simp]: "yields res None \<longleftrightarrow> (\<exists>q. res = Some (False, q))"
  by (simp add: yields_def)

lemma yields_Some [simp]:
  "yields res (Some V) \<longleftrightarrow> (\<exists>q. res = Some (True, q) \<and> cursor_ok q \<and> view q = V)"
  by (simp add: yields_def)

lemma add_idents_simps [simp]:
  "ps_in_variable (add_idents xs p) = ps_in_variable p"
  "ps_segments (add_idents xs p) = ps_segments p"
  "ps_variables (add_idents xs p) \<noteq> []"
  "ps_verb (add_idents xs p) = ps_verb p"
  by (simp_all add: add_idents_def CurrentVariable_update_def)

lemma add_idents_comp:
  "add_idents ys (add_idents xs V) = add_idents (xs @ ys) V"
  by (cases V) (simp add: add_idents_def CurrentVariable_update_def)

lemma add_idents_input:
  "add_idents xs (V\<lparr>ps_input := r\<rparr>)\<lparr>ps_input := r'\<rparr> = add_idents xs V\<lparr>ps_input := r'\<rparr>"
  by (cases V) (simp add: add_idents_def CurrentVariable_update_def)

lemma add_idents_Nil: "ps_variables V \<noteq> [] \<Longrightarrow> add_idents [] V = V"
  by (cases V) (simp add: add_idents_def CurrentVariable_update_def)

lemma ParseIdentifier_view:
  assumes "synced p" "ps_in_variable p" "ps_variables p \<noteq> []"
  shows "yields (Some (ParseIdentifier p))
    (map_option (\<lambda>(x, r). add_idents [x] (view p)\<lparr>ps_input := r\<rparr>) (g_lit idc (rest p)))"
  using ParseIdentifier_loop_view [OF assms, of False "[]"]
  by (simp add: ParseIdentifier_def g_lit_def Let_def split: if_splits)

lemma ParseFieldPath_loop_view:
  "cursor_ok p \<Longrightarrow> ps_in_variable p \<Longrightarrow> ps_variables p \<noteq> [] \<Longrightarrow> length (rest p) < n \<Longrightarrow>
   yields (ParseFieldPath_loop n p)
     (map_option (\<lambda>(xs, r). add_idents xs (view p)\<lparr>ps_input := r\<rparr>)
        (sep_more (CHR ''.'') (g_lit idc) (rest p)))"
proof (induction n arbitrary: p)
  case (Suc n)
  show ?case
  proof (cases "rest p \<noteq> [] \<and> hd (rest p) = CHR ''.''")
    case False
    then have "sep_more (CHR ''.'') (g_lit idc) (rest p) = Some ([], rest p)"
      by (cases "rest p") auto
    moreover obtain q where "Consume (CHR ''.'') p = (False, q)" "cursor_ok q" "view q = view p"
      using Consume_view [OF Suc.prems(1), of "CHR ''.''"] False by auto
    ultimately show ?thesis
      using add_idents_Nil [of "view p"] Suc.prems by simp
  next
    case True
    then obtain s where s: "rest p = CHR ''.'' # s" by (cases "rest p") auto
    obtain q where q: "Consume (CHR ''.'') p = (True, q)" "synced q"
      "view q = view p\<lparr>ps_input := s\<rparr>"
      using Consume_view [OF Suc.prems(1), of "CHR ''.''"] s by auto
    note f = view_eqD [OF q(3)]
    have id: "yields (Some (ParseIdentifier q))
        (map_option (\<lambda>(x, r). add_idents [x] (view q)\<lparr>ps_input := r\<rparr>) (g_lit idc s))"
      using ParseIdentifier_view [OF q(2)] f Suc.prems by simp
    show ?thesis
    proof (cases "g_lit idc s")
      case None
      with id s q(1) show ?thesis by auto
    next
      case (Some y)
      then obtain x r where xr: "g_lit idc s = Some (x, r)" by (cases y) auto
      with id obtain q' where q': "ParseIdentifier q = (True, q')" "cursor_ok q'"
        "view q' = add_idents [x] (view q)\<lparr>ps_input := r\<rparr>"
        by auto
      have f': "rest q' = r" "ps_in_variable q'" "ps_variables q' \<noteq> []"
        using arg_cong [OF q'(3), of ps_input] arg_cong [OF q'(3), of ps_in_variable]
          arg_cong [OF q'(3), of ps_variables] f Suc.prems
        by (simp_all add: add_idents_def CurrentVariable_update_def)
      have len: "length r \<le> length s" using ident.item_shorter [OF xr] .
      with Suc.prems s have "length (rest q') < n" using f' by simp
      with Suc.IH [OF q'(2) f'(2,3)] s q q' xr len f'(1) show ?thesis
        by (cases "sep_more (CHR ''.'') (g_lit idc) r")
          (auto simp: add_idents_comp add_idents_input split: prod.splits)
    qed
  qed
qed simp

lemma rest_le_input: "length (rest p) \<le> length (ps_input p)"
  by (simp add: rest_def)

lemma ParseFieldPath_view:
  assumes "synced p" "ps_in_variable p" "ps_variables p \<noteq> []"
  shows "yields (ParseFieldPath p)
    (map_option (\<lambda>(xs, r). add_idents xs (view p)\<lparr>ps_input := r\<rparr>)
       (sep_list (CHR ''.'') (g_lit idc) (rest p)))"
proof (cases "g_lit idc (rest p)")
  case None
  with ParseIdentifier_view [OF assms] show ?thesis
    by (auto simp: ParseFieldPath_def sep_list_def)
next
  case (Some y)
  then obtain x r where xr: "g_lit idc (rest p) = Some (x, r)" by (cases y) auto
  with ParseIdentifier_view [OF assms] obtain q where q: "ParseIdentifier p = (True, q)"
    "cursor_ok q" "view q = add_idents [x] (view p)\<lparr>ps_input := r\<rparr>"
    by auto
  have f: "rest q = r" "ps_in_variable q" "ps_variables q \<noteq> []"
    using arg_cong [OF q(3), of ps_input] arg_cong [OF q(3), of ps_in_variable]
      arg_cong [OF q(3), of ps_variables] assms
    by (simp_all add: add_idents_def CurrentVariable_update_def)
  have "length (rest q) < Suc (length (ps_input q))"
    using rest_le_input [of q] by simp
  from ParseFieldPath_loop_view [OF q(2) f(2,3) this] q xr f(1) show ?thesis
    by (cases "sep_more (CHR ''.'') (g_lit idc) r")
      (auto simp: ParseFieldPath_def sep_list_def add_idents_comp add_idents_input split: prod.splits)
qed

section \<open>Segments\<close>

definition push_tseg :: "tseg \<Rightarrow> Parser \<Rightarrow> Parser" where
  "push_tseg t V =
     (if t = StarStar \<and> ps_in_variable V
      then CurrentVariable_update (\<lambda>v. v\<lparr>var_has_wildcard_path := True\<rparr>)
             (push_segment (pr_tseg t) V)
      else push_segment (pr_tseg t) V)"

lemma push_tseg_simps [simp]:
  "ps_in_variable (push_tseg t V) = ps_in_variable V"
  "ps_segments (push_tseg t V) = ps_segments V @ [pr_tseg t]"
  "ps_verb (push_tseg t V) = ps_verb V"
  "ps_input (push_tseg t V) = ps_input V"
  by (simp_all add: push_tseg_def push_segment_def CurrentVariable_update_def)

lemma push_tseg_variables: "ps_variables V \<noteq> [] \<Longrightarrow> ps_variables (push_tseg t V) \<noteq> []"
  by (simp add: push_tseg_def push_segment_def CurrentVariable_update_def)

lemma push_segment_view [simp]:
  "view (push_segment x p) = push_segment x (view p)"
  "push_segment x (V\<lparr>ps_input := r\<rparr>) = push_segment x V\<lparr>ps_input := r\<rparr>"
  "cursor_ok (push_segment x p) = cursor_ok p"
  by (cases V, simp_all add: push_segment_def)

lemma push_tseg_input: "push_tseg t (V\<lparr>ps_input := r\<rparr>) = push_tseg t V\<lparr>ps_input := r\<rparr>"
  by (cases V) (simp add: push_tseg_def push_segment_def CurrentVariable_update_def)

lemma fold_push_tseg:
  "ps_in_variable V \<Longrightarrow> ps_variables V = vs @ [x] \<Longrightarrow>
   fold push_tseg ts V =
     V\<lparr>ps_segments := ps_segments V @ map pr_tseg ts,
       ps_variables := vs @ [x\<lparr>var_has_wildcard_path :=
                                var_has_wildcard_path x \<or> StarStar \<in> set ts\<rparr>]\<rparr>"
proof (induction ts arbitrary: V x)
  case Nil
  then show ?case by (cases V) simp
next
  case (Cons t ts)
  then show ?case
    by (cases V) (auto simp: push_tseg_def push_segment_def CurrentVariable_update_def)
qed

lemma CurrentVariable_update_view [simp]:
  "view (CurrentVariable_update f p) = CurrentVariable_update f (view p)"
  "CurrentVariable_update f (V\<lparr>ps_input := r\<rparr>) = CurrentVariable_update f V\<lparr>ps_input := r\<rparr>"
  "cursor_ok (CurrentVariable_update f p) = cursor_ok p"
  "synced (CurrentVariable_update f p) = synced p"
  by (cases V, simp_all add: CurrentVariable_update_def)

lemma ParseLiteralSegment_view:
  assumes "cursor_ok p"
  shows "yields (Some (ParseLiteralSegment p))
    (map_option (\<lambda>(x, r). push_segment x (view p)\<lparr>ps_input := r\<rparr>) (g_lit litc (rest p)))"
  using ParseLiteral_view [OF assms, of "[]"]
  by (auto simp: ParseLiteralSegment_def g_lit_def)

lemma ParseSegment_plain:
  assumes ok: "cursor_ok p" and n: "0 < n" and hd: "rest p = [] \<or> hd (rest p) \<noteq> CHR ''{''"
    and v: "ps_in_variable p \<Longrightarrow> ps_variables p \<noteq> []"
  shows "yields (ParseSegment n p)
    (map_option (\<lambda>(t, r). push_tseg t (view p)\<lparr>ps_input := r\<rparr>) (g_tseg (rest p)))"
proof -
  obtain m where n: "n = Suc m" using n by (cases n) auto
  show ?thesis
  proof (cases "rest p")
    case Nil
    with EnsureCurrent_view [OF ok] n show ?thesis by auto
  next
    case (Cons c s)
    obtain q where q: "EnsureCurrent p = (True, q)" "pending q" "view q = view p"
      "current_char q = c"
      using EnsureCurrent_view [OF ok] Cons by auto
    note rq = view_rest [OF q(3)]
    show ?thesis
    proof (cases "c = CHR ''*''")
      case False
      then have "ParseSegment n p = Some (ParseLiteralSegment q)"
        using q hd Cons n by simp
      with ParseLiteralSegment_view [of q] False Cons hd q rq show ?thesis
        by (cases "g_lit litc (c # s)") (auto simp: push_tseg_def)
    next
      case True
      obtain q1 where q1: "Consume (CHR ''*'') q = (True, q1)" "synced q1"
        "view q1 = view q\<lparr>ps_input := s\<rparr>"
        using Consume_pending [OF q(2), of c] q(4) True rq Cons by auto
      note f1 = view_eqD [OF q1(3)]
      show ?thesis
      proof (cases "s \<noteq> [] \<and> hd s = CHR ''*''")
        case True
        then obtain s' where s: "s = CHR ''*'' # s'" by (cases s) auto
        obtain q2 where q2: "Consume (CHR ''*'') q1 = (True, q2)" "synced q2"
          "view q2 = view p\<lparr>ps_input := s'\<rparr>"
          using Consume_view [OF synced_ok [OF q1(2)], of "CHR ''*''"] f1 s q(3) q1(3) by auto
        note f2 = view_eqD [OF q2(3)]
        have "ParseSegment n p = (if ps_in_variable p
            then Some (MarkVariableHasWildCardPath (push_segment ''**'' q2))
            else Some (True, push_segment ''**'' q2))"
          using \<open>c = CHR ''*''\<close> q q1 q2 n f2 by (simp add: Let_def push_segment_def)
        moreover have "g_tseg (rest p) = Some (StarStar, s')"
          using Cons \<open>c = CHR ''*''\<close> s by simp
        ultimately show ?thesis
          using v q2 f2 by (auto simp: push_tseg_def MarkVariableHasWildCardPath_def)
            (simp_all add: push_segment_def)
      next
        case False
        obtain q2 where q2: "Consume (CHR ''*'') q1 = (False, q2)" "cursor_ok q2"
          "view q2 = view p\<lparr>ps_input := s\<rparr>"
          using Consume_view [OF synced_ok [OF q1(2)], of "CHR ''*''"] f1 False q(3) q1(3) by auto
        have "g_tseg (rest p) = Some (Star, s)"
          using False Cons \<open>c = CHR ''*''\<close> by (cases s) auto
        then show ?thesis
          using \<open>c = CHR ''*''\<close> q q1 q2 n by (simp add: Let_def push_tseg_def)
      qed
    qed
  qed
qed

lemma ParseSegment_in_variable:
  assumes "cursor_ok p" "2 \<le> n" "ps_in_variable p" "ps_variables p \<noteq> []"
  shows "yields (ParseSegment n p)
    (map_option (\<lambda>(t, r). push_tseg t (view p)\<lparr>ps_input := r\<rparr>) (g_tseg (rest p)))"
proof (cases "rest p = [] \<or> hd (rest p) \<noteq> CHR ''{''")
  case True
  with ParseSegment_plain assms show ?thesis by simp
next
  case False
  then obtain s where s: "rest p = CHR ''{'' # s" by (cases "rest p") auto
  obtain m where n: "n = Suc (Suc m)"
    using assms(2) by (metis add_2_eq_Suc le_Suc_ex)
  obtain q where q: "EnsureCurrent p = (True, q)" "pending q" "view q = view p"
    "current_char q = CHR ''{''"
    using EnsureCurrent_view [OF assms(1)] s by auto
  obtain q1 where q1: "Consume (CHR ''{'') q = (True, q1)"
    "view q1 = view q\<lparr>ps_input := s\<rparr>"
    using Consume_pending [OF q(2), of "CHR ''{''"] q view_rest [OF q(3)] s by auto
  have "ps_in_variable q1"
    using view_eqD(2) [OF q1(2)] arg_cong [OF q(3), of ps_in_variable] assms by simp
  then show ?thesis
    using q q1 s n by (simp add: StartVariable_def)
qed

section \<open>Lists of segments\<close>

text \<open>
  What \<open>ParseSegments\<close> needs from \<open>ParseSegment\<close>: while the view satisfies \<open>I\<close> and
  the fuel exceeds the remaining input by \<open>k\<close>, one call reads what the symbol \<open>g\<close> reads and
  applies \<open>push\<close> to the view. The contract holds inside a variable (plain segments only) and
  at the top level.
\<close>

locale segment_reader =
  fixes I :: "Parser \<Rightarrow> bool"
    and g :: "string \<Rightarrow> ('a \<times> string) option"
    and push :: "'a \<Rightarrow> Parser \<Rightarrow> Parser"
    and k :: nat
  assumes step: "cursor_ok p \<Longrightarrow> I (view p) \<Longrightarrow> length (rest p) + k \<le> n \<Longrightarrow>
      yields (ParseSegment n p)
        (map_option (\<lambda>(a, r). push a (view p)\<lparr>ps_input := r\<rparr>) (g (rest p)))"
    and I_push: "I V \<Longrightarrow> g (ps_input V) = Some (a, r) \<Longrightarrow> I (push a V\<lparr>ps_input := r\<rparr>)"
    and I_tl: "I V \<Longrightarrow> ps_input V = c # s \<Longrightarrow> I (V\<lparr>ps_input := s\<rparr>)"
    and shorter: "g s = Some (a, r) \<Longrightarrow> length r \<le> length s"
    and push_input: "push a (V\<lparr>ps_input := r\<rparr>) = push a V\<lparr>ps_input := r\<rparr>"
begin

lemma fold_push_input: "fold push as (V\<lparr>ps_input := r\<rparr>) = fold push as V\<lparr>ps_input := r\<rparr>"
  by (induction as arbitrary: V) (simp_all add: push_input)

lemma loop_view:
  "cursor_ok p \<Longrightarrow> I (view p) \<Longrightarrow> length (rest p) + k < n \<Longrightarrow>
   yields (ParseSegments_loop n p)
     (map_option (\<lambda>(as, r). fold push as (view p)\<lparr>ps_input := r\<rparr>)
        (sep_more (CHR ''/'') g (rest p)))"
proof (induction n arbitrary: p)
  case (Suc n)
  show ?case
  proof (cases "rest p \<noteq> [] \<and> hd (rest p) = CHR ''/''")
    case False
    then have "sep_more (CHR ''/'') g (rest p) = Some ([], rest p)"
      by (cases "rest p") auto
    moreover obtain q where "Consume (CHR ''/'') p = (False, q)" "cursor_ok q" "view q = view p"
      using Consume_view [OF Suc.prems(1), of "CHR ''/''"] False by auto
    ultimately show ?thesis by simp
  next
    case True
    then obtain s where s: "rest p = CHR ''/'' # s" by (cases "rest p") auto
    obtain q where q: "Consume (CHR ''/'') p = (True, q)" "synced q"
      "view q = view p\<lparr>ps_input := s\<rparr>"
      using Consume_view [OF Suc.prems(1), of "CHR ''/''"] s by auto
    have Iq: "I (view q)" using I_tl [OF Suc.prems(2)] s q(3) by simp
    have rq: "rest q = s" using view_eqD(1) [OF q(3)] .
    have st: "yields (ParseSegment n q)
        (map_option (\<lambda>(a, r). push a (view q)\<lparr>ps_input := r\<rparr>) (g s))"
      using step [OF synced_ok [OF q(2)] Iq, of n] Suc.prems s rq by simp
    show ?thesis
    proof (cases "g s")
      case None
      with st s q(1) show ?thesis by auto
    next
      case (Some y)
      then obtain a r where ar: "g s = Some (a, r)" by (cases y) auto
      with st obtain q' where q': "ParseSegment n q = Some (True, q')" "cursor_ok q'"
        "view q' = push a (view p)\<lparr>ps_input := r\<rparr>"
        by (auto simp: q(3) push_input)
      have "I (view q')"
        using I_push [OF Iq] ar rq q' q(3) by (simp add: push_input)
      moreover have "length r \<le> length s" using shorter [OF ar] .
      moreover have "rest q' = r" using arg_cong [OF q'(3), of ps_input] by simp
      ultimately show ?thesis
        using Suc.IH [OF q'(2)] Suc.prems s q q' ar
        by (cases "sep_more (CHR ''/'') g r") (auto simp: fold_push_input split: prod.splits)
    qed
  qed
qed simp

lemma segments_view:
  assumes "cursor_ok p" "I (view p)" "Suc (length (rest p) + k) < n"
  shows "yields (ParseSegments n p)
     (map_option (\<lambda>(as, r). fold push as (view p)\<lparr>ps_input := r\<rparr>)
        (sep_list (CHR ''/'') g (rest p)))"
proof -
  obtain m where n: "n = Suc m" using assms(3) by (cases n) auto
  have st: "yields (ParseSegment m p)
      (map_option (\<lambda>(a, r). push a (view p)\<lparr>ps_input := r\<rparr>) (g (rest p)))"
    using step [OF assms(1,2), of m] assms(3) n by simp
  show ?thesis
  proof (cases "g (rest p)")
    case None
    with st n show ?thesis by (auto simp: sep_list_def)
  next
    case (Some y)
    then obtain a r where ar: "g (rest p) = Some (a, r)" by (cases y) auto
    with st obtain q where q: "ParseSegment m p = Some (True, q)" "cursor_ok q"
      "view q = push a (view p)\<lparr>ps_input := r\<rparr>"
      by auto
    have "I (view q)" using I_push [OF assms(2)] ar q by simp
    moreover have "rest q = r" using arg_cong [OF q(3), of ps_input] by simp
    ultimately show ?thesis
      using loop_view [OF q(2), of m] shorter [OF ar] q ar assms(3) n
      by (cases "sep_more (CHR ''/'') g r")
        (auto simp: sep_list_def fold_push_input split: prod.splits)
  qed
qed

end

definition inside_variable :: "Parser \<Rightarrow> bool" where
  "inside_variable V \<longleftrightarrow> ps_in_variable V \<and> ps_variables V \<noteq> []"

interpretation inner: segment_reader inside_variable g_tseg push_tseg 2
proof unfold_locales
  fix p n assume "cursor_ok p" "inside_variable (view p)" "length (rest p) + 2 \<le> n"
  then show "yields (ParseSegment n p)
      (map_option (\<lambda>(a, r). push_tseg a (view p)\<lparr>ps_input := r\<rparr>) (g_tseg (rest p)))"
    using ParseSegment_in_variable [of p n] by (simp add: inside_variable_def)
next
  fix V a r show "inside_variable V \<Longrightarrow> g_tseg (ps_input V) = Some (a, r) \<Longrightarrow>
      inside_variable (push_tseg a V\<lparr>ps_input := r\<rparr>)"
    using push_tseg_variables [of V a] by (simp add: inside_variable_def)
qed (auto simp: inside_variable_def push_tseg_input intro: tseg.item_shorter)

section \<open>Variables\<close>

lemma view_explicit:
  "view p = \<lparr>ps_input = rest p, ps_tb = 0, ps_te = 0, ps_in_variable = ps_in_variable p,
             ps_segments = ps_segments p, ps_verb = ps_verb p, ps_variables = ps_variables p\<rparr>"
  by (cases p) (simp add: view_def)

definition add_seg :: "seg \<Rightarrow> Parser \<Rightarrow> Parser" where
  "add_seg v V =
     V\<lparr>ps_segments := ps_segments V @ seg_segments v,
       ps_variables := ps_variables V @ seg_variables (length (ps_segments V)) v\<rparr>"

definition fits :: "Parser \<Rightarrow> bool" where
  "fits V \<longleftrightarrow> length (ps_segments V) + length (ps_input V) < 2 ^ 31"

text \<open>The state of the parser between the braces of a variable that started at \<open>V\<close>.\<close>

definition opened :: "Parser \<Rightarrow> string list \<Rightarrow> string list \<Rightarrow> bool \<Rightarrow> string \<Rightarrow> Parser" where
  "opened V fp body w r =
     V\<lparr>ps_input := r, ps_in_variable := True, ps_segments := ps_segments V @ body,
       ps_variables := ps_variables V @
         [\<lparr>var_start_segment = int (length (ps_segments V)), var_end_segment = 0,
           var_field_path = fp, var_has_wildcard_path = w\<rparr>]\<rparr>"

lemma StartVariable_view:
  assumes "synced q" "\<not> ps_in_variable q" "view q = V\<lparr>ps_input := s\<rparr>" "fits V"
  shows "\<exists>q'. StartVariable q = (True, q') \<and> synced q' \<and> view q' = opened V [] [] False s"
proof -
  have "int32 (int (length (ps_segments q))) = int (length (ps_segments q))"
    using assms(3,4) by (cases V) (simp add: view_explicit fits_def)
  with assms show ?thesis
    by (cases V) (auto simp: StartVariable_def opened_def view_explicit rest_def)
qed

lemma opened_idents: "add_idents fp (opened V [] [] False s)\<lparr>ps_input := r\<rparr> = opened V fp [] False r"
  by (cases V) (simp add: add_idents_def CurrentVariable_update_def opened_def)

lemma opened_star: "push_segment ''*'' (opened V fp [] False r) = opened V fp [''*''] False r"
  by (cases V) (simp add: push_segment_def opened_def)

lemma opened_segments:
  "fold push_tseg ts (opened V fp [] False r)\<lparr>ps_input := r'\<rparr> =
   opened V fp (map pr_tseg ts) (StarStar \<in> set ts) r'"
  using fold_push_tseg [of "opened V fp [] False r" "ps_variables V" _ ts]
  by (cases V) (simp add: opened_def)

lemma opened_input: "opened V fp b w r\<lparr>ps_input := r'\<rparr> = opened V fp b w r'"
  by (cases V) (simp add: opened_def)

definition closed :: "Parser \<Rightarrow> string list \<Rightarrow> string list \<Rightarrow> bool \<Rightarrow> string \<Rightarrow> Parser" where
  "closed V fp body w r =
     V\<lparr>ps_input := r, ps_segments := ps_segments V @ body,
       ps_variables := ps_variables V @
         [\<lparr>var_start_segment = int (length (ps_segments V)),
           var_end_segment = int (length (ps_segments V) + length body),
           var_field_path = fp, var_has_wildcard_path = w\<rparr>]\<rparr>"

lemma closed_add_seg:
  "closed V fp [''*''] False r = add_seg (Var fp None) V\<lparr>ps_input := r\<rparr>"
  "closed V fp (map pr_tseg ts) (StarStar \<in> set ts) r = add_seg (Var fp (Some ts)) V\<lparr>ps_input := r\<rparr>"
  by (cases V, simp add: closed_def add_seg_def)+

lemma close_view:
  assumes "cursor_ok q" "view q = opened V fp body w r" "\<not> ps_in_variable V"
    "fp \<noteq> []" "body \<noteq> []" "length (ps_segments V) + length body < 2 ^ 31"
  shows "yields (case EndVariable q of (False, p) \<Rightarrow> Some (False, p)
                 | (True, p) \<Rightarrow> Some (Consume (CHR ''}'') p))
           (case r of [] \<Rightarrow> None | c # r' \<Rightarrow>
              if c = CHR ''}'' then Some (closed V fp body w r') else None)"
proof -
  obtain inp tb te iv segs verb vars where V: "V = \<lparr>ps_input = inp, ps_tb = tb, ps_te = te,
      ps_in_variable = iv, ps_segments = segs, ps_verb = verb, ps_variables = vars\<rparr>"
    by (cases V)
  have [simp]: "int32 (int (length segs) + int (length body)) = int (length segs) + int (length body)"
    using assms(6) V by simp
  from assms V obtain q' where q': "EndVariable q = (True, q')" "cursor_ok q'" "rest q' = r"
    "view q' = closed V fp body w r"
    by (auto simp: EndVariable_def ValidateVariable_def CurrentVariable_update_def Let_def
        view_explicit opened_def closed_def rest_def)
  from Consume_view [OF q'(2), of "CHR ''}''"] show ?thesis
    using q' by (auto simp: V closed_def split: list.splits)
qed

lemma join_items_length:
  "(\<And>a. a \<in> set as \<Longrightarrow> pr a \<noteq> []) \<Longrightarrow> length as \<le> length (join d (map pr as))"
proof (induction as)
  case (Cons a as)
  then have "length as \<le> length (join d (map pr as))" "0 < length (pr a)" by auto
  then show ?case by (cases as) (simp_all add: Suc_leI add_mono [of "Suc 0", simplified])
qed simp

lemma wf_tseg_nonempty: "wf_tseg t \<Longrightarrow> pr_tseg t \<noteq> []"
  by (cases t) auto

lemma seg_segments_length: "wf_seg v \<Longrightarrow> length (seg_segments v) \<le> length (pr_seg v)"
proof (induction v rule: seg_segments.induct)
  case (1 t)
  then show ?case using wf_tseg_nonempty [of t] by (cases "pr_tseg t") auto
next
  case (3 fp ts)
  then have "length ts \<le> length (join ''/'' (map pr_tseg ts))"
    by (intro join_items_length) (auto simp: list_all_iff wf_tseg_nonempty)
  then show ?case by simp
qed simp

lemma ParseVariable_view:
  assumes ok: "cursor_ok p" and out: "\<not> ps_in_variable p" and s: "rest p = CHR ''{'' # s"
    and fit: "fits (view p)" and n: "length s + 5 \<le> n"
  shows "yields (ParseVariable n p)
    (map_option (\<lambda>(v, r). add_seg v (view p)\<lparr>ps_input := r\<rparr>) (g_var s))"
proof -
  obtain m where m: "n = Suc m" using n by (cases n) auto
  obtain q1 where q1: "Consume (CHR ''{'') p = (True, q1)" "synced q1"
    "view q1 = view p\<lparr>ps_input := s\<rparr>"
    using Consume_view [OF ok, of "CHR ''{''"] s by auto
  obtain q2 where q2: "StartVariable q1 = (True, q2)" "synced q2"
    "view q2 = opened (view p) [] [] False s"
    using StartVariable_view [OF q1(2) _ q1(3) fit] view_eqD(2) [OF q1(3)] out by auto
  have f2: "rest q2 = s" "ps_in_variable q2" "ps_variables q2 \<noteq> []"
    using arg_cong [OF q2(3), of ps_input] arg_cong [OF q2(3), of ps_in_variable]
      arg_cong [OF q2(3), of ps_variables] by (auto simp: opened_def)
  have fp: "yields (ParseFieldPath q2)
      (map_option (\<lambda>(xs, r). opened (view p) xs [] False r)
         (sep_list (CHR ''.'') (g_lit idc) s))"
    using ParseFieldPath_view [OF q2(2) f2(2,3)] f2(1) q2(3) by (simp add: opened_idents)
  show ?thesis
  proof (cases "sep_list (CHR ''.'') (g_lit idc) s")
    case None
    with fp m q1 q2 show ?thesis by (auto simp: g_var_def)
  next
    case (Some y)
    then obtain xs r where xr: "sep_list (CHR ''.'') (g_lit idc) s = Some (xs, r)"
      by (cases y) auto
    with fp obtain q3 where q3: "ParseFieldPath q2 = Some (True, q3)" "cursor_ok q3"
      "view q3 = opened (view p) xs [] False r" by auto
    note sound = ident.list_sound [OF xr]
    have r3: "rest q3 = r" using arg_cong [OF q3(3), of ps_input] by (simp add: opened_def)
    have len: "length (ps_segments p) + Suc (length s) < 2 ^ 31"
      using fit s by (simp add: fits_def)
    note unfold = m q1(1) q2(1) q3(1)
    show ?thesis
    proof (cases "r \<noteq> [] \<and> hd r = CHR ''=''")
      case False
      obtain q4 where q4: "Consume (CHR ''='') q3 = (False, q4)" "cursor_ok q4"
        "view q4 = view q3"
        using Consume_view [OF q3(2), of "CHR ''=''"] False r3 by auto
      have "length (ps_segments (view p)) + length [''*''] < 2 ^ 31"
        using len by simp
      from close_view [OF _ _ _ _ _ this, of "push_segment ''*'' q4" xs False r]
      have "yields (ParseVariable n p)
         (case r of [] \<Rightarrow> None | c # r' \<Rightarrow> if c = CHR ''}'' then
            Some (add_seg (Var xs None) (view p)\<lparr>ps_input := r'\<rparr>) else None)"
        unfolding closed_add_seg(1) [symmetric]
        using unfold q4 q3(3) out sound by (simp add: opened_star)
      moreover have "g_var s = (case r of [] \<Rightarrow> None | c # r' \<Rightarrow> if c = CHR ''}'' then
            Some (Var xs None, r') else None)"
        using xr False by (auto simp: g_var_def split: list.splits)
      ultimately show ?thesis by (auto split: list.splits if_splits)
    next
      case True
      then obtain r' where r': "r = CHR ''='' # r'" by (cases r) auto
      obtain q4 where q4: "Consume (CHR ''='') q3 = (True, q4)" "synced q4"
        "view q4 = opened (view p) xs [] False r'"
        using Consume_view [OF q3(2), of "CHR ''=''"] r' r3 q3(3) by (auto simp: opened_input)
      have r4: "rest q4 = r'" using arg_cong [OF q4(3), of ps_input] by (simp add: opened_def)
      have inside: "inside_variable (view q4)"
        by (simp add: q4(3) inside_variable_def opened_def)
      have "length r' < length s" using sound r' by simp
      then have sg: "yields (ParseSegments m q4)
          (map_option (\<lambda>(ts, r). opened (view p) xs (map pr_tseg ts) (StarStar \<in> set ts) r)
             (sep_list (CHR ''/'') g_tseg r'))"
        using inner.segments_view [OF _ inside, of m] q4(2,3) r4 n m
        by (simp add: opened_segments)
      show ?thesis
      proof (cases "sep_list (CHR ''/'') g_tseg r'")
        case None
        with sg xr r' unfold q4(1) show ?thesis by (auto simp: g_var_def)
      next
        case (Some z)
        then obtain ts r'' where ts: "sep_list (CHR ''/'') g_tseg r' = Some (ts, r'')"
          by (cases z) auto
        with sg obtain q5 where q5: "ParseSegments m q4 = Some (True, q5)" "cursor_ok q5"
          "view q5 = opened (view p) xs (map pr_tseg ts) (StarStar \<in> set ts) r''" by auto
        note st = tseg.list_sound [OF ts]
        have "length ts \<le> length (join ''/'' (map pr_tseg ts))"
          using st by (intro join_items_length) (auto simp: list_all_iff wf_tseg_nonempty)
        with st len sound r' have
          "length (ps_segments (view p)) + length (map pr_tseg ts) < 2 ^ 31" by simp
        from close_view [OF q5(2,3) _ _ _ this]
        have "yields (ParseVariable n p)
           (case r'' of [] \<Rightarrow> None | c # r' \<Rightarrow> if c = CHR ''}'' then
              Some (add_seg (Var xs (Some ts)) (view p)\<lparr>ps_input := r'\<rparr>) else None)"
          unfolding closed_add_seg(2) [symmetric]
          using unfold q4(1) q5(1) out sound st by simp
        moreover have "g_var s = (case r'' of [] \<Rightarrow> None | c # r' \<Rightarrow> if c = CHR ''}'' then
              Some (Var xs (Some ts), r') else None)"
          using xr r' ts by (auto simp: g_var_def split: list.splits)
        ultimately show ?thesis by (auto split: list.splits if_splits)
      qed
    qed
  qed
qed

section \<open>The whole parser\<close>

definition outside_variable :: "Parser \<Rightarrow> bool" where
  "outside_variable V \<longleftrightarrow> \<not> ps_in_variable V \<and> fits V"

lemma add_seg_Plain: "\<not> ps_in_variable V \<Longrightarrow> add_seg (Plain t) V = push_tseg t V"
  by (cases V) (simp add: add_seg_def push_tseg_def push_segment_def)

lemma ParseSegment_outside:
  assumes ok: "cursor_ok p" and out: "outside_variable (view p)" and n: "length (rest p) + 5 \<le> n"
  shows "yields (ParseSegment n p)
    (map_option (\<lambda>(v, r). add_seg v (view p)\<lparr>ps_input := r\<rparr>) (g_seg (rest p)))"
proof (cases "rest p = [] \<or> hd (rest p) \<noteq> CHR ''{''")
  case True
  have "yields (ParseSegment n p)
      (map_option (\<lambda>(t, r). push_tseg t (view p)\<lparr>ps_input := r\<rparr>) (g_tseg (rest p)))"
    using ParseSegment_plain [OF ok _ True] n out by (simp add: outside_variable_def)
  moreover have "g_seg (rest p) = map_option (\<lambda>(t, r). (Plain t, r)) (g_tseg (rest p))"
    using True by (cases "rest p") auto
  ultimately show ?thesis
    using out by (cases "g_tseg (rest p)") (auto simp: outside_variable_def add_seg_Plain)
next
  case False
  then obtain s where s: "rest p = CHR ''{'' # s" by (cases "rest p") auto
  obtain m where m: "n = Suc m" using n by (cases n) auto
  obtain q where q: "EnsureCurrent p = (True, q)" "pending q" "view q = view p"
    "current_char q = CHR ''{''"
    using EnsureCurrent_view [OF ok] s by auto
  have iv: "\<not> ps_in_variable q"
    using arg_cong [OF q(3), of ps_in_variable] out by (simp add: outside_variable_def)
  have "ParseSegment n p = ParseVariable m q" using q m by simp
  moreover have "yields (ParseVariable m q)
      (map_option (\<lambda>(v, r). add_seg v (view q)\<lparr>ps_input := r\<rparr>) (g_var s))"
    using q(2,3) iv view_rest [OF q(3)] s out n m
    by (intro ParseVariable_view) (auto simp: outside_variable_def)
  ultimately show ?thesis using q(3) s by simp
qed

interpretation outer: segment_reader outside_variable g_seg add_seg 5
proof unfold_locales
  fix V a r assume I: "outside_variable V" and g: "g_seg (ps_input V) = Some (a, r)"
  from seg.sound [OF g] have "length (seg_segments a) + length r \<le> length (ps_input V)"
    using seg_segments_length [of a] by simp
  with I show "outside_variable (add_seg a V\<lparr>ps_input := r\<rparr>)"
    by (simp add: outside_variable_def fits_def add_seg_def)
next
  fix V a r show "add_seg a (V\<lparr>ps_input := r\<rparr>) = add_seg a V\<lparr>ps_input := r\<rparr>"
    by (cases V) (simp add: add_seg_def)
qed (auto simp: ParseSegment_outside outside_variable_def fits_def intro: seg.item_shorter)

lemma fold_add_seg:
  "fold add_seg ss V =
     V\<lparr>ps_segments := ps_segments V @ segs_segments ss,
       ps_variables := ps_variables V @ segs_variables (length (ps_segments V)) ss\<rparr>"
proof (induction ss arbitrary: V)
  case Nil
  show ?case by (cases V) (simp add: segs_segments_def)
next
  case (Cons x ss)
  show ?case by (cases V) (simp add: Cons add_seg_def [of x] segs_segments_def)
qed

lemma ParseVerb_view:
  assumes "cursor_ok p" "rest p = CHR '':'' # s" "ps_verb p = []"
  shows "yields (Some (ParseVerb p))
    (map_option (\<lambda>(v, r). view p\<lparr>ps_verb := v, ps_input := r\<rparr>) (g_lit litc s))"
proof -
  obtain q where q: "Consume (CHR '':'') p = (True, q)" "synced q"
    "view q = view p\<lparr>ps_input := s\<rparr>"
    using Consume_view [OF assms(1), of "CHR '':''"] assms(2) by auto
  note f = view_eqD [OF q(3)]
  obtain q' where q': "ParseLiteral q [] = (takeWhile litc s \<noteq> [], takeWhile litc s, q')"
    "cursor_ok q'" "view q' = view p\<lparr>ps_input := dropWhile litc s\<rparr>"
    using ParseLiteral_view [OF synced_ok [OF q(2)], of "[]"] f(1) q(3) by auto
  have "view p\<lparr>ps_input := a, ps_verb := b\<rparr> = view p\<lparr>ps_verb := b, ps_input := a\<rparr>" for a b
    by (cases "view p") simp
  with q q' f(4) assms(3) show ?thesis
    by (auto simp: ParseVerb_def g_lit_def)
qed

definition parsed :: "template \<Rightarrow> Parser" where
  "parsed t =
     \<lparr>ps_input = [], ps_tb = 0, ps_te = 0, ps_in_variable = False,
      ps_segments = segs_segments (t_segs t), ps_verb = t_verb t,
      ps_variables = segs_variables 0 (t_segs t)\<rparr>"

lemma ParseTemplate_view:
  assumes "length s < 2 ^ 31"
  shows "\<exists>ok q. ParseTemplate (Parser_fuel s) (new_Parser s) = Some (ok, q) \<and>
    (case g_template s of
       None \<Rightarrow> \<not> ok \<or> \<not> ConsumedAllInput q
     | Some t \<Rightarrow> ok \<and> ConsumedAllInput q \<and> view q = parsed t)"
proof -
  let ?p = "new_Parser s"
  have p: "cursor_ok ?p" "rest ?p = s" "view ?p = ?p"
    by (simp_all add: new_Parser_def cursor_ok_def rest_def view_def)
  have all: "cursor_ok q \<Longrightarrow> ConsumedAllInput q \<longleftrightarrow> rest q = []" for q
    by (auto simp: ConsumedAllInput_def rest_def cursor_ok_def)
  show ?thesis
  proof (cases "s \<noteq> [] \<and> hd s = CHR ''/''")
    case False
    then have "g_template s = None" by (cases s) (auto simp: g_template_def)
    then show ?thesis
      using Consume_view [OF p(1), of "CHR ''/''"] False p by (auto simp: ParseTemplate_def)
  next
    case True
    then obtain s' where s': "s = CHR ''/'' # s'" by (cases s) auto
    obtain q1 where q1: "Consume (CHR ''/'') ?p = (True, q1)" "synced q1"
      "view q1 = ?p\<lparr>ps_input := s'\<rparr>"
      using Consume_view [OF p(1), of "CHR ''/''"] True p s' by auto
    have r1: "rest q1 = s'" using arg_cong [OF q1(3), of ps_input] by simp
    have out: "outside_variable (view q1)"
      using assms s' by (simp add: q1(3) outside_variable_def fits_def new_Parser_def)
    have sg: "yields (ParseSegments (Parser_fuel s) q1)
      (map_option (\<lambda>(ss, r). parsed \<lparr>t_segs = ss, t_verb = []\<rparr>\<lparr>ps_input := r\<rparr>)
         (sep_list (CHR ''/'') g_seg s'))"
      using outer.segments_view [OF _ out, of "Parser_fuel s"] q1(2) r1 s'
      by (simp add: q1(3) Parser_fuel_def fold_add_seg new_Parser_def parsed_def)
    show ?thesis
    proof (cases "sep_list (CHR ''/'') g_seg s'")
      case None
      with sg q1(1) s' show ?thesis by (auto simp: g_template_def ParseTemplate_def)
    next
      case (Some z)
      then obtain ss r where ss: "sep_list (CHR ''/'') g_seg s' = Some (ss, r)" by (cases z) auto
      with sg obtain q2 where q2: "ParseSegments (Parser_fuel s) q1 = Some (True, q2)"
        "cursor_ok q2" "view q2 = parsed \<lparr>t_segs = ss, t_verb = []\<rparr>\<lparr>ps_input := r\<rparr>"
        by auto
      have r2: "rest q2 = r" "ps_verb q2 = []"
        using arg_cong [OF q2(3), of ps_input] arg_cong [OF q2(3), of ps_verb]
        by (simp_all add: parsed_def)
      note E = EnsureCurrent_view [OF q2(2)]
      consider "r = []" | c r' where "r = c # r'" "c \<noteq> CHR '':''" | r' where "r = CHR '':'' # r'"
        by (cases r) auto
      then show ?thesis
      proof cases
        case 1
        with E q1(1) q2 s' ss r2 all [of q2] show ?thesis
          by (auto simp: g_template_def ParseTemplate_def parsed_def)
      next
        case (2 c r')
        with E r2 obtain q3 where q3: "EnsureCurrent q2 = (True, q3)" "pending q3"
          "view q3 = view q2" "current_char q3 = c" by auto
        with 2 q1(1) q2 s' ss r2 all [of q3] view_rest [OF q3(3)] show ?thesis
          by (auto simp: g_template_def ParseTemplate_def)
      next
        case (3 r')
        with E r2 obtain q3 where q3: "EnsureCurrent q2 = (True, q3)" "pending q3"
          "view q3 = view q2" "current_char q3 = CHR '':''" by auto
        have "ps_verb q3 = []" using arg_cong [OF q3(3), of ps_verb] r2 by simp
        with ParseVerb_view [of q3 r'] q3 r2 3 view_rest [OF q3(3)]
        have v: "yields (Some (ParseVerb q3))
            (map_option (\<lambda>(v, r). parsed \<lparr>t_segs = ss, t_verb = v\<rparr>\<lparr>ps_input := r\<rparr>) (g_lit litc r'))"
          by (simp add: q2(3) parsed_def)
        have T: "ParseTemplate (Parser_fuel s) ?p = Some (ParseVerb q3)"
          using q1(1) q2(1) q3 by (simp add: ParseTemplate_def)
        show ?thesis
        proof (cases "g_lit litc r'")
          case None
          with v T s' ss 3 show ?thesis by (auto simp: g_template_def)
        next
          case (Some w)
          then obtain x r'' where x: "g_lit litc r' = Some (x, r'')" by (cases w) auto
          with v obtain q4 where q4: "ParseVerb q3 = (True, q4)" "cursor_ok q4"
            "view q4 = parsed \<lparr>t_segs = ss, t_verb = x\<rparr>\<lparr>ps_input := r''\<rparr>" by auto
          have "rest q4 = r''" using arg_cong [OF q4(3), of ps_input] by simp
          with all [OF q4(2)] q4 T s' ss 3 x show ?thesis
            by (cases r'') (auto simp: g_template_def parsed_def)
        qed
      qed
    qed
  qed
qed

section \<open>Variables and segments of a denoted template\<close>

lemma segs_segments_length:
  assumes "wf_template t"
  shows "length (segs_segments (t_segs t)) < length (pr_template t)"
proof -
  have "list_all wf_seg ss \<Longrightarrow>
      length (segs_segments ss) \<le> length (join ''/'' (map pr_seg ss))" for ss
  proof (induction ss)
    case (Cons v ss)
    then show ?case
      using seg_segments_length [of v] by (cases ss) (auto simp: segs_segments_def)
  qed (simp add: segs_segments_def)
  with assms show ?thesis
    by (auto simp: wf_template_def pr_template_def le_imp_less_Suc trans_le_add1)
qed

lemma wf_seg_segments: "wf_seg v \<Longrightarrow> seg_segments v \<noteq> []"
  by (induction v rule: wf_seg.induct) auto

lemma segs_variables_range:
  "list_all wf_seg ss \<Longrightarrow> v \<in> set (segs_variables n ss) \<Longrightarrow>
   int n \<le> var_start_segment v \<and> var_start_segment v < var_end_segment v \<and>
   var_end_segment v \<le> int (n + length (segs_segments ss)) \<and> var_field_path v \<noteq> []"
proof (induction ss arbitrary: n)
  case (Cons a ss)
  then consider "v \<in> set (seg_variables n a)"
    | "v \<in> set (segs_variables (n + length (seg_segments a)) ss)" by auto
  then show ?case
  proof cases
    case 1
    then obtain fp b where a: "a = Var fp b" by (cases a) auto
    with Cons.prems have "fp \<noteq> []" by (cases b) auto
    with 1 a Cons.prems wf_seg_segments [of a] show ?thesis by (auto simp: segs_segments_def)
  next
    case 2
    with Cons show ?thesis by (fastforce simp: segs_segments_def)
  qed
qed simp

lemma PostProcessVariables_parsed:
  assumes "wf_template t" "length (pr_template t) < 2 ^ 31"
    and q: "ps_segments q = segs_segments (t_segs t)" "ps_verb q = t_verb t"
  shows "map (PostProcessVariable q) (segs_variables 0 (t_segs t)) = ht_variables (denote t)"
proof -
  have len: "length (segs_segments (t_segs t)) < 2 ^ 31"
    using segs_segments_length [OF assms(1)] assms(2) by simp
  have "PostProcessVariable q v =
      relative_end (length (segs_segments (t_segs t))) (t_verb t \<noteq> []) v"
    if v: "v \<in> set (segs_variables 0 (t_segs t))" for v
  proof -
    note r = segs_variables_range [OF _ v]
    have "int32 (size_t (var_end_segment v - int (length (segs_segments (t_segs t))) - 1)) =
        var_end_segment v - int (length (segs_segments (t_segs t))) - 1"
      using r assms(1) len by (intro int32_size_t) (auto simp: wf_template_def)
    then show ?thesis
      by (simp add: PostProcessVariable_def relative_end_def Let_def q)
  qed
  then show ?thesis by (simp add: denote_def)
qed

lemma wf_template_not_root: "wf_template t \<Longrightarrow> pr_template t \<noteq> ''/''"
  using segs_segments_length [of t] wf_seg_segments
  by (cases "t_segs t") (auto simp: wf_template_def segs_segments_def)

section \<open>Correctness of HttpTemplate::Parse\<close>

text \<open>Both directions of the correctness statement, and totality, in one equation.\<close>

lemma HttpTemplate_Parse_eq:
  assumes len: "length s < 2 ^ 31" and root: "s \<noteq> ''/''"
  shows "HttpTemplate_Parse s =
    Some (case g_template s of
            None \<Rightarrow> None
          | Some t \<Rightarrow> if ValidateParts_loop False (segs_segments (t_segs t))
                      then Some (denote t) else None)"
proof -
  have inp: "ps_input (new_Parser s) = s" by (simp add: new_Parser_def)
  obtain ok q where q: "ParseTemplate (Parser_fuel s) (new_Parser s) = Some (ok, q)"
    "case g_template s of None \<Rightarrow> \<not> ok \<or> \<not> ConsumedAllInput q
     | Some t \<Rightarrow> ok \<and> ConsumedAllInput q \<and> view q = parsed t"
    using ParseTemplate_view [OF len] by blast
  show ?thesis
  proof (cases "g_template s")
    case None
    with q root inp show ?thesis
      by (auto simp: HttpTemplate_Parse_def Parser_Parse_def)
  next
    case (Some t)
    then have wf: "wf_template t" and s: "s = pr_template t"
      by (simp_all add: g_template_iff)
    from Some q have v: "ok" "ConsumedAllInput q" "view q = parsed t" by auto
    have f: "ps_segments q = segs_segments (t_segs t)" "ps_verb q = t_verb t"
      "ps_variables q = segs_variables 0 (t_segs t)"
      using arg_cong [OF v(3), of ps_segments] arg_cong [OF v(3), of ps_verb]
        arg_cong [OF v(3), of ps_variables] by (simp_all add: parsed_def)
    have "HttpTemplate_Parse s = Some
        (if ValidateParts_loop False (ps_segments q)
         then Some \<lparr>ht_segments = ps_segments q, ht_verb = ps_verb q,
                    ht_variables = map (PostProcessVariable q) (ps_variables q)\<rparr> else None)"
      using q(1) v root inp
      by (simp add: HttpTemplate_Parse_def Parser_Parse_def PostProcessVariables_def ValidateParts_def)
    also have "map (PostProcessVariable q) (ps_variables q) = ht_variables (denote t)"
      using PostProcessVariables_parsed [OF wf _ f(1,2)] s len f(3) by simp
    finally show ?thesis using f Some by (simp add: denote_def)
  qed
qed

lemma HttpTemplate_Parse_denote:
  assumes "HttpTemplate_Parse s = Some (Some ht)" "length s < 2 ^ 31"
  obtains "ht = \<lparr>ht_segments = [], ht_verb = [], ht_variables = []\<rparr>"
  | t where "wf_template t" "s = pr_template t" "ht = denote t"
      "ValidateParts_loop False (segs_segments (t_segs t))"
proof (cases "s = ''/''")
  case True
  with assms(1) that(1) show ?thesis by (simp add: HttpTemplate_Parse_def)
next
  case False
  with assms obtain t where "g_template s = Some t"
    "ValidateParts_loop False (segs_segments (t_segs t))" "ht = denote t"
    by (auto simp: HttpTemplate_Parse_eq split: option.splits if_splits)
  with that(2) [of t] show ?thesis by (simp add: g_template_iff)
qed

lemma ValidateParts_loop_found:
  "ValidateParts_loop True ss \<longleftrightarrow>
   (\<forall>s\<in>set ss. s \<noteq> kSingleParameterKey \<and> s \<noteq> kWildCardPathPartKey \<and> s \<noteq> kWildCardPathKey)"
  by (induction ss) auto

lemma ValidateParts_loop_wild:
  "ValidateParts_loop False (xs @ kWildCardPathKey # ys) \<Longrightarrow> kWildCardPathKey \<notin> set xs \<Longrightarrow>
   ValidateParts_loop True ys"
  by (induction xs) (auto split: if_splits)



text \<open>
  C10: the parser terminates on every input: the fuel it is started with never runs out, so it
  returns a template or the null pointer.
\<close>

theorem HttpTemplate_Parse_total:
  assumes "length s < 2 ^ 31"
  shows "HttpTemplate_Parse s \<noteq> None"
  using HttpTemplate_Parse_eq [OF assms] by (cases "s = ''/''") (auto simp: HttpTemplate_Parse_def)

theorem HttpTemplate_Parse_total_witness:
  "length ''/{a.b=c/*'' < 2 ^ 31 \<and> HttpTemplate_Parse ''/{a.b=c/*'' \<noteq> None"
proof -
  have l: "length ''/{a.b=c/*'' < (2 ^ 31 :: nat)" by simp
  show ?thesis using HttpTemplate_Parse_total [OF l] l by blast
qed



end
