(* ===== verification/PathMatcherNode.thy ===== *)
theory PathMatcherNode
  imports HttpTemplate "HOL-Library.Sublist"
begin

text \<open>
  The trie of \<open>api_proxy/path_matcher/path_matcher_node.{h,cc}\<close>.

  A node is its result map, its children and its wildcard flag. The payload pointer
  \<open>void* data\<close> is an option of an arbitrary type (\<open>None\<close> is the null pointer). The out
  parameter \<open>result\<close> of the lookups is an argument and a result; iterator ranges are the list
  of the remaining parts.

  The specification is independent of the trie: a node is a finite map \<open>entry\<close> from template
  and HTTP method to payload, \<open>matches\<close> says when a template matches a request path, and
  \<open>wins\<close> which of two matching templates wins. The locale \<open>path_index\<close> states this
  contract for the code that uses the trie, and is interpreted on it.
\<close>

section \<open>Data\<close>

record 'd PathMatcherLookupResult =
  lr_data :: "'d option"
  lr_is_multiple :: bool

datatype 'd PathMatcherNode =
  Node (result_map: "(string \<times> 'd PathMatcherLookupResult) list")
       (children: "(string \<times> 'd PathMatcherNode) list")
       (wildcard: bool)

definition new_PathMatcherLookupResult :: "'d PathMatcherLookupResult" where
  "new_PathMatcherLookupResult = \<lparr>lr_data = None, lr_is_multiple = False\<rparr>"

definition new_PathMatcherNode :: "'d PathMatcherNode" where
  "new_PathMatcherNode = Node [] [] False"

definition HttpMethod_WILD_CARD :: string where
  "HttpMethod_WILD_CARD = ''*''"

section \<open>Collections\<close>

definition InsertOrReturnExisting ::
    "('k \<times> 'v) list \<Rightarrow> 'k \<Rightarrow> 'v \<Rightarrow> ('k \<times> 'v) list \<times> 'v option" where
  "InsertOrReturnExisting collection key data = map_insert key data collection"

text \<open>The container with the key present, and the node now stored under it.\<close>

definition LookupOrInsertNew ::
    "(string \<times> 'd PathMatcherNode) list \<Rightarrow> string
     \<Rightarrow> (string \<times> 'd PathMatcherNode) list \<times> 'd PathMatcherNode" where
  "LookupOrInsertNew collection key =
     (case map_insert key new_PathMatcherNode collection of
        (c, None) \<Rightarrow> (c, new_PathMatcherNode)
      | (c, Some old) \<Rightarrow> (c, old))"

definition Find2KeysOrNull :: "('k \<times> 'v) list \<Rightarrow> 'k \<Rightarrow> 'k \<Rightarrow> 'v option" where
  "Find2KeysOrNull collection key1 key2 =
     (case map_of collection key1 of
        None \<Rightarrow> map_of collection key2
      | Some v \<Rightarrow> Some v)"

section \<open>PathInfo\<close>

type_synonym PathInfo = "string list"

definition AppendLiteralNode :: "string \<Rightarrow> PathInfo \<Rightarrow> PathInfo" where
  "AppendLiteralNode name path = path @ [name]"

definition AppendSingleParameterNode :: "PathInfo \<Rightarrow> PathInfo" where
  "AppendSingleParameterNode path = path @ [kSingleParameterKey]"

section \<open>Operations\<close>

fun Clone :: "'d PathMatcherNode \<Rightarrow> 'd PathMatcherNode" where
  "Clone (Node rm ch w) = Node rm (map (\<lambda>(k, c). (k, Clone c)) ch) w"

fun set_wildcard :: "bool \<Rightarrow> 'd PathMatcherNode \<Rightarrow> 'd PathMatcherNode" where
  "set_wildcard b (Node rm ch w) = Node rm ch b"

definition GetResultForHttpMethod ::
    "'d PathMatcherNode \<Rightarrow> string \<Rightarrow> 'd PathMatcherLookupResult
     \<Rightarrow> bool \<times> 'd PathMatcherLookupResult" where
  "GetResultForHttpMethod n key result =
     (case Find2KeysOrNull (result_map n) key HttpMethod_WILD_CARD of
        None \<Rightarrow> (False, result)
      | Some found \<Rightarrow> (True, found))"

text \<open>
  The three keys are tried in order until one succeeds; a range handed to
  \<open>LookupPathFromChild\<close> is never empty.
\<close>

fun LookupPath ::
    "string list \<Rightarrow> string \<Rightarrow> 'd PathMatcherNode \<Rightarrow> 'd PathMatcherLookupResult
     \<Rightarrow> 'd PathMatcherLookupResult"
  and LookupPathFromChild ::
    "string \<Rightarrow> string list \<Rightarrow> string \<Rightarrow> 'd PathMatcherNode \<Rightarrow> 'd PathMatcherLookupResult
     \<Rightarrow> bool \<times> 'd PathMatcherLookupResult" where
  "LookupPath [] m n result =
     (case GetResultForHttpMethod n m result of
        (True, result) \<Rightarrow> result
      | (False, result) \<Rightarrow>
          (case map_of (children n) kWildCardPathKey of
             None \<Rightarrow> result
           | Some child \<Rightarrow> snd (GetResultForHttpMethod child m result)))"
| "LookupPath (p # ps) m n result =
     (case LookupPathFromChild p (p # ps) m n result of
        (True, result) \<Rightarrow> result
      | (False, result) \<Rightarrow>
          if wildcard n then LookupPath ps m n result
          else
            (case LookupPathFromChild kSingleParameterKey (p # ps) m n result of
               (True, result) \<Rightarrow> result
             | (False, result) \<Rightarrow>
            (case LookupPathFromChild kWildCardPathPartKey (p # ps) m n result of
               (True, result) \<Rightarrow> result
             | (False, result) \<Rightarrow>
                 snd (LookupPathFromChild kWildCardPathKey (p # ps) m n result))))"
| "LookupPathFromChild key [] m n result = (False, result)"
| "LookupPathFromChild key (p # ps) m n result =
     (case map_of (children n) key of
        None \<Rightarrow> (False, result)
      | Some child \<Rightarrow>
          (let result = LookupPath ps m child result in (lr_data result \<noteq> None, result)))"

fun InsertTemplate ::
    "string list \<Rightarrow> string \<Rightarrow> 'd option \<Rightarrow> bool \<Rightarrow> 'd PathMatcherNode
     \<Rightarrow> bool \<times> 'd PathMatcherNode" where
  "InsertTemplate [] m data mark_duplicates (Node rm ch w) =
     (case InsertOrReturnExisting rm m \<lparr>lr_data = data, lr_is_multiple = False\<rparr> of
        (rm, None) \<Rightarrow> (True, Node rm ch w)
      | (rm, Some existing) \<Rightarrow>
          (False,
           Node (if mark_duplicates then AList.update m (existing\<lparr>lr_is_multiple := True\<rparr>) rm
                 else rm) ch w))"
| "InsertTemplate (p # ps) m data mark_duplicates (Node rm ch w) =
     (let (ch, child) = LookupOrInsertNew ch p;
          child = (if p = kWildCardPathKey then set_wildcard True child else child);
          (r, child) = InsertTemplate ps m data mark_duplicates child
      in (r, Node rm (AList.update p child ch) w))"

definition InsertPath ::
    "PathInfo \<Rightarrow> string \<Rightarrow> 'd option \<Rightarrow> bool \<Rightarrow> 'd PathMatcherNode
     \<Rightarrow> bool \<times> 'd PathMatcherNode" where
  "InsertPath info m data mark_duplicates n = InsertTemplate info m data mark_duplicates n"

section \<open>Specification\<close>

text \<open>A trie as a finite map: what is stored for a template and a method.\<close>

fun entry :: "'d PathMatcherNode \<Rightarrow> string list \<Rightarrow> string \<Rightarrow> 'd PathMatcherLookupResult option" where
  "entry n [] m = map_of (result_map n) m"
| "entry n (k # ks) m =
     (case map_of (children n) k of None \<Rightarrow> None | Some c \<Rightarrow> entry c ks m)"

text \<open>What a request with method \<open>m\<close> finds under a template: its own method, or any.\<close>

definition serves :: "'d PathMatcherNode \<Rightarrow> string list \<Rightarrow> string \<Rightarrow> 'd PathMatcherLookupResult option" where
  "serves n ks m = (case entry n ks m of None \<Rightarrow> entry n ks HttpMethod_WILD_CARD | Some r \<Rightarrow> Some r)"

text \<open>
  When a template matches a path: a constant matches itself, \<open>*\<close> one part, \<open>**\<close> one part
  or more, and a final \<open>**\<close> also none.
\<close>

fun matches :: "string list \<Rightarrow> string list \<Rightarrow> bool" where
  "matches [] ps \<longleftrightarrow> ps = []"
| "matches (k # ks) [] \<longleftrightarrow> k = kWildCardPathKey \<and> ks = []"
| "matches (k # ks) (p # ps) \<longleftrightarrow>
     (k = p \<or> k = kSingleParameterKey \<or> k = kWildCardPathPartKey) \<and> matches ks ps \<or>
     k = kWildCardPathKey \<and> (matches ks ps \<or> matches (k # ks) ps)"

text \<open>
  Which of two different templates wins for a path: at the first key where they differ, the
  request part itself, then \<open>*\<close>, then \<open>**\<close>; behind a common \<open>**\<close>, the longer tail.
\<close>

definition rank :: "string \<Rightarrow> string \<Rightarrow> nat" where
  "rank p k = (if k = p then 0 else if k = kSingleParameterKey then 1
               else if k = kWildCardPathPartKey then 2 else 3)"

fun wins :: "string list \<Rightarrow> string list \<Rightarrow> string list \<Rightarrow> bool" where
  "wins [] ks ks' \<longleftrightarrow> ks = [] \<or> ks = ks'"
| "wins (p # ps) (k # ks) (k' # ks') \<longleftrightarrow>
     (if k = k' then (if k = kWildCardPathKey then length ks' \<le> length ks else wins ps ks ks')
      else rank p k < rank p k')"
| "wins (p # ps) _ _ \<longleftrightarrow> False"

definition is_const :: "string \<Rightarrow> bool" where
  "is_const k \<longleftrightarrow> k \<noteq> kSingleParameterKey \<and> k \<noteq> kWildCardPathPartKey \<and> k \<noteq> kWildCardPathKey"

text \<open>
  The shape of the tries that \<open>InsertTemplate\<close> builds from validated templates: the flag of a
  child says whether its key is \<open>**\<close>, below such a child all keys are constants, and every
  stored payload is a real pointer.
\<close>

fun const_node :: "'d PathMatcherNode \<Rightarrow> bool" where
  "const_node (Node rm ch w) \<longleftrightarrow>
     (\<forall>x\<in>set rm. lr_data (snd x) \<noteq> None) \<and>
     (\<forall>x\<in>set ch. is_const (fst x) \<and> \<not> wildcard (snd x) \<and> const_node (snd x))"

fun wf_node :: "'d PathMatcherNode \<Rightarrow> bool" where
  "wf_node (Node rm ch w) \<longleftrightarrow>
     (\<forall>x\<in>set rm. lr_data (snd x) \<noteq> None) \<and>
     (\<forall>x\<in>set ch. wildcard (snd x) = (fst x = kWildCardPathKey) \<and>
        (if fst x = kWildCardPathKey then const_node (snd x) else wf_node (snd x)))"

text \<open>Templates with only constants after \<open>**\<close>.\<close>

fun valid_path :: "string list \<Rightarrow> bool" where
  "valid_path [] \<longleftrightarrow> True"
| "valid_path (k # ks) \<longleftrightarrow> (if k = kWildCardPathKey then list_all is_const ks else valid_path ks)"

section \<open>The trie as a map\<close>

lemma entry_new [simp]: "entry new_PathMatcherNode ks m = None"
  by (cases ks) (simp_all add: new_PathMatcherNode_def)

lemma wf_new [simp]: "wf_node new_PathMatcherNode" "const_node new_PathMatcherNode"
    "\<not> wildcard new_PathMatcherNode"
  by (simp_all add: new_PathMatcherNode_def)

lemma children_new [simp]: "children new_PathMatcherNode = []"
  by (simp add: new_PathMatcherNode_def)

lemma set_wildcard_sel [simp]:
  "result_map (set_wildcard b n) = result_map n" "children (set_wildcard b n) = children n"
  "wildcard (set_wildcard b n) = b" "entry (set_wildcard b n) ks m = entry n ks m"
  by (cases n; cases ks; simp)+

lemma const_set_wildcard [simp]: "const_node (set_wildcard b n) = const_node n"
  by (cases n) simp

lemma LookupOrInsertNew_eq:
  "LookupOrInsertNew ch k =
     (case map_of ch k of None \<Rightarrow> (ch @ [(k, new_PathMatcherNode)], new_PathMatcherNode)
                        | Some c \<Rightarrow> (ch, c))"
  by (simp add: LookupOrInsertNew_def map_insert_def split: option.splits)

definition child_or_new :: "'d PathMatcherNode \<Rightarrow> string \<Rightarrow> 'd PathMatcherNode" where
  "child_or_new n k =
     (let c = (case map_of (children n) k of None \<Rightarrow> new_PathMatcherNode | Some c \<Rightarrow> c)
      in if k = kWildCardPathKey then set_wildcard True c else c)"

lemma update_absent: "map_of m k = None \<Longrightarrow> AList.update k v (m @ [(k, w)]) = AList.update k v m"
  by (induction m) (auto split: if_splits)

lemma InsertTemplate_Cons:
  "InsertTemplate (p # ps) m d dup n =
     (let (r, c) = InsertTemplate ps m d dup (child_or_new n p)
      in (r, Node (result_map n) (AList.update p c (children n)) (wildcard n)))"
  by (cases n)
    (auto simp: LookupOrInsertNew_eq child_or_new_def Let_def update_absent
        split: option.splits prod.splits)

lemma entry_child_or_new:
  "entry (child_or_new n k) ks m = entry n (k # ks) m"
  by (simp add: child_or_new_def Let_def split: option.splits)

lemma InsertTemplate_Nil:
  "InsertTemplate [] m d dup n =
     (case map_of (result_map n) m of
        None \<Rightarrow> (True, Node (result_map n @ [(m, \<lparr>lr_data = d, lr_is_multiple = False\<rparr>)])
                         (children n) (wildcard n))
      | Some r \<Rightarrow>
          (False, Node (if dup then AList.update m (r\<lparr>lr_is_multiple := True\<rparr>) (result_map n)
                        else result_map n) (children n) (wildcard n)))"
  by (cases n) (simp add: InsertOrReturnExisting_def map_insert_def split: option.splits)

lemmas InsertTemplate_eqs = InsertTemplate_Nil InsertTemplate_Cons

lemma InsertTemplate_fst: "fst (InsertTemplate ks m d dup n) \<longleftrightarrow> entry n ks m = None"
  by (induction ks arbitrary: n)
    (simp_all add: InsertTemplate_eqs entry_child_or_new split_def Let_def
        del: entry.simps(2) split: option.splits)

lemma entry_InsertTemplate:
  "entry (snd (InsertTemplate ks m d dup n)) ks' m' =
     (if ks' = ks \<and> m' = m then
        (case entry n ks m of
           None \<Rightarrow> Some \<lparr>lr_data = d, lr_is_multiple = False\<rparr>
         | Some r \<Rightarrow> Some (if dup then r\<lparr>lr_is_multiple := True\<rparr> else r))
      else entry n ks' m')"
proof (induction ks arbitrary: n ks')
  case Nil
  show ?case
    by (cases ks') (auto simp: InsertTemplate_Nil map_add_def split: option.splits)
next
  case (Cons p ps)
  show ?case
    using Cons [of "child_or_new n p"]
    by (cases ks')
      (auto simp: InsertTemplate_Cons entry_child_or_new split: option.splits prod.splits)
qed

section \<open>The shape of the trie\<close>

lemma const_valid_path: "list_all is_const ks \<Longrightarrow> valid_path ks"
  by (induction ks) (auto simp: is_const_def)

lemma const_node_wf: "const_node n \<Longrightarrow> \<not> wildcard n \<Longrightarrow> wf_node n"
  by (induction n) (auto simp: is_const_def)

lemma set_update_cases:
  "x \<in> set (AList.update k v m) \<Longrightarrow> x = (k, v) \<or> x \<in> set m"
  by (induction m) (auto split: if_splits)

lemma InsertTemplate_wildcard [simp]: "wildcard (snd (InsertTemplate ks m d dup n)) = wildcard n"
  by (cases ks) (simp_all add: InsertTemplate_eqs split: option.splits prod.splits)

lemma snd_InsertTemplate_Cons:
  "snd (InsertTemplate (p # ps) m d dup n) =
     Node (result_map n)
       (AList.update p (snd (InsertTemplate ps m d dup (child_or_new n p))) (children n)) (wildcard n)"
  by (simp add: InsertTemplate_Cons split: prod.splits)

lemma stored_results:
  assumes "\<forall>x\<in>set (result_map n). lr_data (snd x) \<noteq> None" "d \<noteq> None"
    and "x \<in> set (result_map (snd (InsertTemplate [] m d dup n)))"
  shows "lr_data (snd x) \<noteq> None"
  using assms
  by (auto simp: InsertTemplate_Nil split: option.splits if_splits
      dest!: set_update_cases map_of_SomeD)

lemma InsertTemplate_Nil_children [simp]:
  "children (snd (InsertTemplate [] m d dup n)) = children n"
  by (simp add: InsertTemplate_Nil split: option.splits)

lemma const_node_iff:
  "const_node n \<longleftrightarrow> (\<forall>x\<in>set (result_map n). lr_data (snd x) \<noteq> None) \<and>
     (\<forall>x\<in>set (children n). is_const (fst x) \<and> \<not> wildcard (snd x) \<and> const_node (snd x))"
  by (cases n) simp

lemma wf_node_iff:
  "wf_node n \<longleftrightarrow> (\<forall>x\<in>set (result_map n). lr_data (snd x) \<noteq> None) \<and>
     (\<forall>x\<in>set (children n). wildcard (snd x) = (fst x = kWildCardPathKey) \<and>
        (if fst x = kWildCardPathKey then const_node (snd x) else wf_node (snd x)))"
  by (cases n) simp

lemma child_or_new_const:
  "const_node n \<Longrightarrow> is_const k \<Longrightarrow>
   const_node (child_or_new n k) \<and> \<not> wildcard (child_or_new n k)"
  by (cases n) (auto simp: child_or_new_def is_const_def dest!: map_of_SomeD split: option.splits)

lemma child_or_new_wf:
  "wf_node n \<Longrightarrow>
   wildcard (child_or_new n k) = (k = kWildCardPathKey) \<and>
   (if k = kWildCardPathKey then const_node (child_or_new n k) else wf_node (child_or_new n k))"
  by (cases n) (auto simp: child_or_new_def Let_def dest!: map_of_SomeD split: option.splits)

lemma InsertTemplate_const:
  "const_node n \<Longrightarrow> list_all is_const ks \<Longrightarrow> d \<noteq> None \<Longrightarrow>
   const_node (snd (InsertTemplate ks m d dup n))"
proof (induction ks arbitrary: n)
  case Nil
  have "lr_data (snd x) \<noteq> None" if "x \<in> set (result_map (snd (InsertTemplate [] m d dup n)))" for x
    using stored_results [OF _ Nil.prems(3) that] Nil.prems(1) by (simp add: const_node_iff [of n])
  then show ?case
    using Nil.prems(1) by (intro const_node_iff [THEN iffD2]) (simp add: const_node_iff [of n])
next
  case (Cons p ps)
  then show ?case
    using Cons.IH [of "child_or_new n p"] child_or_new_const [of n p]
    by (auto simp: snd_InsertTemplate_Cons const_node_iff [of n] dest!: set_update_cases)
qed

lemma InsertTemplate_wf:
  "wf_node n \<Longrightarrow> valid_path ks \<Longrightarrow> d \<noteq> None \<Longrightarrow> wf_node (snd (InsertTemplate ks m d dup n))"
proof (induction ks arbitrary: n)
  case Nil
  have "lr_data (snd x) \<noteq> None" if "x \<in> set (result_map (snd (InsertTemplate [] m d dup n)))" for x
    using stored_results [OF _ Nil.prems(3) that] Nil.prems(1) by (simp add: wf_node_iff [of n])
  then show ?case
    using Nil.prems(1) by (intro wf_node_iff [THEN iffD2]) (simp add: wf_node_iff [of n])
next
  case (Cons p ps)
  then show ?case
    using Cons.IH [of "child_or_new n p"] child_or_new_wf [OF Cons.prems(1), of p]
      InsertTemplate_const [of "child_or_new n p" ps d m dup]
    by (auto simp: snd_InsertTemplate_Cons wf_node_iff [of n] dest!: set_update_cases
        split: if_splits)
qed

section \<open>Lookups\<close>

lemma matches_const: "list_all is_const ks \<Longrightarrow> matches ks ps \<longleftrightarrow> ks = ps"
  by (induction ks ps rule: matches.induct) (auto simp: is_const_def)

lemma matches_wild_const:
  "list_all is_const ks \<Longrightarrow>
   matches (kWildCardPathKey # ks) (p # ps) \<longleftrightarrow> suffix ks ps"
proof (induction ps arbitrary: p)
  case Nil
  then show ?case by (auto simp: matches_const)
next
  case (Cons q ps)
  then show ?case
    by (simp add: matches_const suffix_Cons) blast
qed

lemma serves_Cons:
  "serves n (k # ks) m = (case map_of (children n) k of None \<Rightarrow> None | Some c \<Rightarrow> serves c ks m)"
  by (simp add: serves_def split: option.splits)

lemma serves_data:
  "wf_node n \<or> const_node n \<Longrightarrow> serves n ks m = Some x \<Longrightarrow> lr_data x \<noteq> None"
proof (induction ks arbitrary: n)
  case Nil
  then show ?case
    by (cases n) (auto simp: serves_def dest!: map_of_SomeD split: option.splits)
next
  case (Cons k ks)
  then obtain c where c: "map_of (children n) k = Some c" "serves c ks m = Some x"
    by (auto simp: serves_Cons split: option.splits)
  with Cons.prems(1) have "wf_node c \<or> const_node c"
    by (cases n) (auto dest!: map_of_SomeD split: if_splits)
  with Cons.IH c show ?case by blast
qed

lemma serves_const: "const_node n \<Longrightarrow> serves n ks m \<noteq> None \<Longrightarrow> list_all is_const ks"
proof (induction ks arbitrary: n)
  case (Cons k ks)
  then obtain c where c: "map_of (children n) k = Some c" "serves c ks m \<noteq> None"
    by (auto simp: serves_Cons split: option.splits)
  with Cons show ?case by (cases n) (auto dest!: map_of_SomeD)
qed simp

lemma GetResultForHttpMethod_serves:
  "GetResultForHttpMethod n m r =
     (case serves n [] m of None \<Rightarrow> (False, r) | Some x \<Rightarrow> (True, x))"
  by (simp add: GetResultForHttpMethod_def Find2KeysOrNull_def serves_def split: option.splits)

lemma const_no_wild:
  "const_node n \<Longrightarrow> \<not> is_const k \<Longrightarrow> map_of (children n) k = None"
  by (cases n) (auto simp: map_of_eq_None_iff)

lemma wild_not_const [simp]:
  "\<not> is_const kSingleParameterKey" "\<not> is_const kWildCardPathPartKey" "\<not> is_const kWildCardPathKey"
  by (simp_all add: is_const_def)

lemma const_child:
  "const_node n \<Longrightarrow> map_of (children n) k = Some c \<Longrightarrow> is_const k \<and> \<not> wildcard c \<and> const_node c"
  by (cases n) (auto dest!: map_of_SomeD)

text \<open>Below \<open>**\<close>, a node that is not itself \<open>**\<close> finds exactly the remaining parts.\<close>

lemma LookupPath_const:
  "const_node n \<Longrightarrow> \<not> wildcard n \<Longrightarrow> lr_data r = None \<Longrightarrow>
   LookupPath ps m n r = (case serves n ps m of None \<Rightarrow> r | Some x \<Rightarrow> x)"
proof (induction ps arbitrary: n)
  case Nil
  then show ?case
    by (simp add: GetResultForHttpMethod_serves const_no_wild split: option.splits)
next
  case (Cons p ps)
  show ?case
  proof (cases "map_of (children n) p")
    case None
    with Cons.prems show ?thesis by (simp add: const_no_wild serves_Cons)
  next
    case (Some c)
    with const_child [OF Cons.prems(1) Some] Cons.IH [of c] Cons.prems serves_data [of c ps m]
    show ?thesis by (cases "serves c ps m") (simp_all add: const_no_wild serves_Cons)
  qed
qed

lemma LookupPathFromChild_const:
  assumes "const_node n" "lr_data r = None"
  shows "LookupPathFromChild k (p # ps) m n r =
    (case serves n (k # ps) m of None \<Rightarrow> (False, r) | Some x \<Rightarrow> (True, x))"
proof (cases "map_of (children n) k")
  case (Some c)
  with const_child [OF assms(1) Some] assms(2) serves_data [of c ps m] LookupPath_const [of c r ps m]
  show ?thesis by (cases "serves c ps m") (simp_all add: serves_Cons)
qed (simp add: serves_Cons)

text \<open>
  What a lookup answers, against the set of templates \<open>T\<close> it may use: nothing, and then no
  template of \<open>T\<close> serves the request, or the payload of one that wins over all others.
\<close>

definition answers ::
    "('t \<Rightarrow> bool) \<Rightarrow> ('t \<Rightarrow> 'd PathMatcherLookupResult option) \<Rightarrow> ('t \<Rightarrow> 't \<Rightarrow> bool)
     \<Rightarrow> 'd PathMatcherLookupResult \<Rightarrow> 'd PathMatcherLookupResult \<Rightarrow> bool" where
  "answers T sv better r R \<longleftrightarrow>
     R = r \<and> lr_data r = None \<and> (\<forall>t. T t \<longrightarrow> sv t = None) \<or>
     lr_data R \<noteq> None \<and>
       (\<exists>t. T t \<and> sv t = Some R \<and> (\<forall>t'. T t' \<and> sv t' \<noteq> None \<longrightarrow> better t t'))"

lemma answers_mono:
  "answers T sv b r R \<Longrightarrow> (\<And>t. sv t \<noteq> None \<Longrightarrow> T t = T' t) \<Longrightarrow>
   (\<And>t t'. T t \<Longrightarrow> T t' \<Longrightarrow> b t t' \<Longrightarrow> b' t t') \<Longrightarrow> answers T' sv b' r R"
  unfolding answers_def by (metis option.distinct(1))

lemma LookupPath_wild:
  "const_node n \<Longrightarrow> wildcard n \<Longrightarrow> lr_data r = None \<Longrightarrow>
   answers (\<lambda>ks. suffix ks ps) (\<lambda>ks. serves n ks m) (\<lambda>ks ks'. length ks' \<le> length ks) r
     (LookupPath ps m n r)"
proof (induction ps)
  case Nil
  then show ?case
    using serves_data [of n "[]" m]
    by (auto simp: answers_def GetResultForHttpMethod_serves const_no_wild split: option.splits)
next
  case (Cons p ps)
  show ?case
  proof (cases "serves n (p # ps) m")
    case None
    then have "LookupPath (p # ps) m n r = LookupPath ps m n r"
      using Cons.prems by (simp add: LookupPathFromChild_const del: LookupPathFromChild.simps)
    with Cons None show ?thesis
      by (auto intro!: answers_mono [OF Cons.IH] simp: suffix_Cons)
  next
    case (Some x)
    then have "LookupPath (p # ps) m n r = x" "lr_data x \<noteq> None"
      using Cons.prems serves_data [OF _ Some]
      by (simp_all add: LookupPathFromChild_const del: LookupPathFromChild.simps)
    with Some show ?thesis
      by (auto simp: answers_def dest: suffix_length_le intro!: exI [of _ "p # ps"])
  qed
qed

text \<open>The templates that begin with one key, and the search among them.\<close>

definition via :: "'d PathMatcherNode \<Rightarrow> string \<Rightarrow> string \<Rightarrow> string list \<Rightarrow> string
     \<Rightarrow> 'd PathMatcherLookupResult \<Rightarrow> 'd PathMatcherLookupResult \<Rightarrow> bool" where
  "via n m p ps k r R \<longleftrightarrow>
     answers (\<lambda>ks. matches (k # ks) (p # ps)) (\<lambda>ks. serves n (k # ks) m)
       (\<lambda>ks ks'. wins (p # ps) (k # ks) (k # ks')) r R"

definition no_match_via :: "'d PathMatcherNode \<Rightarrow> string \<Rightarrow> string \<Rightarrow> string list \<Rightarrow> string \<Rightarrow> bool" where
  "no_match_via n m p ps k \<longleftrightarrow> (\<forall>ks. matches (k # ks) (p # ps) \<longrightarrow> serves n (k # ks) m = None)"

lemma via_None: "via n m p ps k r R \<Longrightarrow> lr_data R = None \<Longrightarrow> R = r \<and> no_match_via n m p ps k"
  by (auto simp: via_def answers_def no_match_via_def)

lemma wf_child:
  "wf_node n \<Longrightarrow> map_of (children n) k = Some c \<Longrightarrow>
   wildcard c = (k = kWildCardPathKey) \<and> (if k = kWildCardPathKey then const_node c else wf_node c)"
  by (cases n) (auto dest!: map_of_SomeD)

lemma LookupPathFromChild_via:
  assumes IH: "\<And>n. wf_node n \<Longrightarrow> \<not> wildcard n \<Longrightarrow>
      answers (\<lambda>ks. matches ks ps) (\<lambda>ks. serves n ks m) (wins ps) r (LookupPath ps m n r)"
    and n: "wf_node n" and r: "lr_data r = None"
    and k: "k \<in> {p, kSingleParameterKey, kWildCardPathPartKey, kWildCardPathKey}"
  shows "\<exists>R. LookupPathFromChild k (p # ps) m n r = (lr_data R \<noteq> None, R) \<and> via n m p ps k r R"
proof (cases "map_of (children n) k")
  case None
  with r show ?thesis by (auto simp: via_def answers_def serves_Cons)
next
  case (Some c)
  note c = wf_child [OF n Some]
  have "via n m p ps k r (LookupPath ps m c r)"
  proof (cases "k = kWildCardPathKey")
    case True
    with c have cc: "const_node c" "wildcard c" by simp_all
    show ?thesis
      using answers_mono [OF LookupPath_wild [OF cc r, of ps m],
          of "\<lambda>ks. matches (k # ks) (p # ps)" "\<lambda>ks ks'. wins (p # ps) (k # ks) (k # ks')"]
        True Some matches_wild_const serves_const [OF cc(1)]
      by (auto simp: via_def serves_Cons)
  next
    case False
    with c IH [of c] Some k False show ?thesis by (auto simp: via_def serves_Cons)
  qed
  with Some show ?thesis by (auto simp: Let_def)
qed

lemma via_answers:
  assumes "via n m p ps k r R" "lr_data R \<noteq> None"
    and "\<And>k'. k' \<in> {p, kSingleParameterKey, kWildCardPathPartKey, kWildCardPathKey} \<Longrightarrow> k' \<noteq> k \<Longrightarrow>
          \<not> no_match_via n m p ps k' \<Longrightarrow> rank p k < rank p k'"
  shows "answers (\<lambda>ks. matches ks (p # ps)) (\<lambda>ks. serves n ks m) (wins (p # ps)) r R"
proof -
  from assms(1,2) obtain ks where ks: "matches (k # ks) (p # ps)" "serves n (k # ks) m = Some R"
    "\<And>ks'. matches (k # ks') (p # ps) \<Longrightarrow> serves n (k # ks') m \<noteq> None \<Longrightarrow>
      wins (p # ps) (k # ks) (k # ks')"
    by (auto simp: via_def answers_def)
  have "wins (p # ps) (k # ks) t" if t: "matches t (p # ps)" "serves n t m \<noteq> None" for t
  proof (cases t)
    case (Cons k' ks')
    show ?thesis
    proof (cases "k' = k")
      case False
      have "k' \<in> {p, kSingleParameterKey, kWildCardPathPartKey, kWildCardPathKey}"
        using t(1) Cons by auto
      moreover have "\<not> no_match_via n m p ps k'" using t Cons by (auto simp: no_match_via_def)
      ultimately show ?thesis using assms(3) [of k'] False Cons by simp
    qed (use ks(3) t Cons in blast)
  qed (use t in simp)
  with ks(1,2) assms(2) show ?thesis unfolding answers_def by blast
qed

lemma no_via_answers:
  assumes "\<And>k. k \<in> {p, kSingleParameterKey, kWildCardPathPartKey, kWildCardPathKey} \<Longrightarrow>
      no_match_via n m p ps k" and "lr_data r = None"
  shows "answers (\<lambda>ks. matches ks (p # ps)) (\<lambda>ks. serves n ks m) (wins (p # ps)) r r"
proof -
  have "serves n t m = None" if t: "matches t (p # ps)" for t
  proof (cases t)
    case (Cons k ks)
    with t assms(1) [of k] show ?thesis by (auto simp: no_match_via_def)
  qed (use t in simp)
  with assms(2) show ?thesis by (auto simp: answers_def)
qed

text \<open>The search among several keys, in the order of the list.\<close>

fun first_child where
  "first_child [] p ps m n r = r"
| "first_child (k # ks) p ps m n r =
     (case LookupPathFromChild k (p # ps) m n r of
        (True, R) \<Rightarrow> R
      | (False, R) \<Rightarrow> first_child ks p ps m n R)"

lemma LookupPath_first_child:
  "\<not> wildcard n \<Longrightarrow>
   LookupPath (p # ps) m n r =
     first_child [p, kSingleParameterKey, kWildCardPathPartKey, kWildCardPathKey] p ps m n r"
  by (simp split: prod.splits bool.splits)

lemma first_child_answers:
  assumes "\<And>k. k \<in> set keys \<Longrightarrow>
      \<exists>R. LookupPathFromChild k (p # ps) m n r = (lr_data R \<noteq> None, R) \<and> via n m p ps k r R"
    and "{p, kSingleParameterKey, kWildCardPathPartKey, kWildCardPathKey} = D \<union> set keys"
    and "\<And>k. k \<in> D \<Longrightarrow> no_match_via n m p ps k"
    and "sorted_wrt (\<lambda>k k'. k \<noteq> k' \<longrightarrow> k' \<notin> D \<longrightarrow> rank p k < rank p k') keys"
    and "lr_data r = None"
  shows "answers (\<lambda>ks. matches ks (p # ps)) (\<lambda>ks. serves n ks m) (wins (p # ps)) r
    (first_child keys p ps m n r)"
  using assms
proof (induction keys arbitrary: D)
  case Nil
  then show ?case using no_via_answers [of p n m ps r] by simp
next
  case (Cons k keys)
  obtain R where R: "LookupPathFromChild k (p # ps) m n r = (lr_data R \<noteq> None, R)"
    "via n m p ps k r R" using Cons.prems(1) [of k] by auto
  show ?case
  proof (cases "lr_data R = None")
    case True
    with via_None [OF R(2)] have "R = r" "no_match_via n m p ps k" by simp_all
    moreover have "sorted_wrt (\<lambda>a b. a \<noteq> b \<longrightarrow> b \<notin> insert k D \<longrightarrow> rank p a < rank p b) keys"
      using Cons.prems(4) by (auto intro: sorted_wrt_mono_rel [rotated])
    ultimately have "answers (\<lambda>ks. matches ks (p # ps)) (\<lambda>ks. serves n ks m) (wins (p # ps)) r
        (first_child keys p ps m n r)"
      using Cons.prems(1-3,5) by (intro Cons.IH [of "insert k D"]) (simp_all, blast)
    with R(1) True \<open>R = r\<close> show ?thesis by (simp del: LookupPathFromChild.simps)
  next
    case False
    have "rank p k < rank p k'"
      if "k' \<in> {p, kSingleParameterKey, kWildCardPathPartKey, kWildCardPathKey}" "k' \<noteq> k"
        "\<not> no_match_via n m p ps k'" for k'
      using that Cons.prems(2,3,4) by auto
    with via_answers [OF R(2) False] R(1) False show ?thesis
      by (simp del: LookupPathFromChild.simps)
  qed
qed

lemma LookupPath_answers:
  "wf_node n \<Longrightarrow> \<not> wildcard n \<Longrightarrow> lr_data r = None \<Longrightarrow>
   answers (\<lambda>ks. matches ks ps) (\<lambda>ks. serves n ks m) (wins ps) r (LookupPath ps m n r)"
proof (induction ps arbitrary: n)
  case Nil
  have [simp]: "matches ks [] \<longleftrightarrow> ks = [] \<or> ks = [kWildCardPathKey]" for ks by (cases ks) auto
  show ?case
    using Nil serves_data [of n "[]" m] serves_data [of n "[kWildCardPathKey]" m]
    by (auto simp: answers_def GetResultForHttpMethod_serves serves_Cons split: option.splits)
next
  case (Cons p ps)
  let ?rest = "[kSingleParameterKey, kWildCardPathPartKey, kWildCardPathKey]"
  have step: "\<exists>R. LookupPathFromChild k (p # ps) m n r = (lr_data R \<noteq> None, R) \<and> via n m p ps k r R"
    if "k \<in> insert p (set ?rest)" for k
    by (rule LookupPathFromChild_via) (use Cons that in simp_all)
  then obtain R where R: "LookupPathFromChild p (p # ps) m n r = (lr_data R \<noteq> None, R)"
    "via n m p ps p r R" by auto
  note L = LookupPath_first_child [OF Cons.prems(2), of p ps m r]
  show ?case
  proof (cases "lr_data R = None")
    case True
    with via_None [OF R(2)] have "R = r" "no_match_via n m p ps p" by simp_all
    moreover have "sorted_wrt (\<lambda>k k'. k \<noteq> k' \<longrightarrow> k' \<notin> {p} \<longrightarrow> rank p k < rank p k') ?rest"
      by (simp add: rank_def wildcard_keys)
    ultimately have "answers (\<lambda>ks. matches ks (p # ps)) (\<lambda>ks. serves n ks m) (wins (p # ps)) r
        (first_child ?rest p ps m n r)"
      using step Cons.prems by (intro first_child_answers [where D = "{p}"]) auto
    with R(1) True \<open>R = r\<close> L show ?thesis
      by (simp del: LookupPathFromChild.simps LookupPath.simps)
  next
    case False
    with via_answers [OF R(2) False] R(1) L show ?thesis
      by (simp add: rank_def del: LookupPathFromChild.simps LookupPath.simps)
  qed
qed

section \<open>The contract of a path index\<close>

text \<open>What a request finds in a map from template and method to payload.\<close>

definition served :: "(string list \<Rightarrow> string \<Rightarrow> 'd option) \<Rightarrow> string list \<Rightarrow> string \<Rightarrow> 'd option" where
  "served E ks m = (case E ks m of None \<Rightarrow> E ks HttpMethod_WILD_CARD | Some d \<Rightarrow> Some d)"

text \<open>The answer \<open>a\<close> of a lookup in the map \<open>E\<close>: absent only if nothing matches, and the winner otherwise.\<close>

definition best_match ::
    "(string list \<Rightarrow> string \<Rightarrow> 'd option) \<Rightarrow> string list \<Rightarrow> string \<Rightarrow> 'd option \<Rightarrow> bool" where
  "best_match E ps m a \<longleftrightarrow>
     (case a of
        None \<Rightarrow> \<forall>ks. matches ks ps \<longrightarrow> served E ks m = None
      | Some d \<Rightarrow> \<exists>ks. matches ks ps \<and> served E ks m = Some d \<and>
          (\<forall>ks'. matches ks' ps \<and> served E ks' m \<noteq> None \<longrightarrow> wins ps ks ks'))"

locale path_index =
  fixes new :: 'n
    and ins :: "string list \<Rightarrow> string \<Rightarrow> 'd \<Rightarrow> 'n \<Rightarrow> bool \<times> 'n"
    and look :: "'n \<Rightarrow> string list \<Rightarrow> string \<Rightarrow> 'd option"
    and ent :: "'n \<Rightarrow> string list \<Rightarrow> string \<Rightarrow> 'd option"
    and ok :: "'n \<Rightarrow> bool"
  assumes ok_new: "ok new"
    and ent_new: "ent new ks m = None"
    and ok_ins: "ok n \<Longrightarrow> valid_path ks \<Longrightarrow> ok (snd (ins ks m d n))"
    and fst_ins: "ok n \<Longrightarrow> fst (ins ks m d n) \<longleftrightarrow> ent n ks m = None"
    and ent_ins: "ok n \<Longrightarrow> ent (snd (ins ks m d n)) ks' m' =
      (if ks' = ks \<and> m' = m \<and> ent n ks m = None then Some d else ent n ks' m')"
    and look_best: "ok n \<Longrightarrow> best_match (ent n) ps m (look n ps m)"
begin

abbreviation insert_all :: "((string list \<times> string) \<times> 'd) list \<Rightarrow> 'n \<Rightarrow> 'n" where
  "insert_all \<equiv> fold (\<lambda>((ks, m), d) n. snd (ins ks m d n))"

lemma insert_all_ok:
  "ok n \<Longrightarrow> list_all (\<lambda>r. valid_path (fst (fst r))) regs \<Longrightarrow> ok (insert_all regs n)"
  by (induction regs arbitrary: n) (auto simp: ok_ins)

lemma insert_all_ent:
  "ok n \<Longrightarrow> list_all (\<lambda>r. valid_path (fst (fst r))) regs \<Longrightarrow>
   ent (insert_all regs n) ks m = (case ent n ks m of Some d \<Rightarrow> Some d | None \<Rightarrow> map_of regs (ks, m))"
proof (induction regs arbitrary: n)
  case (Cons r regs)
  obtain ks' m' d where r: "r = ((ks', m'), d)" by (metis surj_pair)
  with Cons.prems have "ok (snd (ins ks' m' d n))" using ok_ins by simp
  from Cons.IH [OF this] Cons.prems r show ?case by (auto simp: ent_ins split: option.splits)
qed (simp split: option.splits)

text \<open>
  The first payload registered for a template and a method stays, whatever follows, and lookups
  find the winner among all registrations.
\<close>

lemma insert_all_lookup:
  assumes "list_all (\<lambda>r. valid_path (fst (fst r))) regs"
  shows "best_match (\<lambda>ks m. map_of regs (ks, m)) ps m (look (insert_all regs new) ps m)"
proof -
  have "ent (insert_all regs new) = (\<lambda>ks m. map_of regs (ks, m))"
    by (intro ext) (simp add: insert_all_ent ok_new ent_new assms)
  with look_best [OF insert_all_ok [OF ok_new assms], of ps m] show ?thesis by simp
qed

end

text \<open>The trie as a path index.\<close>

definition trie_insert :: "string list \<Rightarrow> string \<Rightarrow> 'd \<Rightarrow> 'd PathMatcherNode \<Rightarrow> bool \<times> 'd PathMatcherNode" where
  "trie_insert ks m d n = InsertPath ks m (Some d) True n"

definition trie_lookup :: "'d PathMatcherNode \<Rightarrow> string list \<Rightarrow> string \<Rightarrow> 'd option" where
  "trie_lookup n ps m = lr_data (LookupPath ps m n new_PathMatcherLookupResult)"

definition trie_entry :: "'d PathMatcherNode \<Rightarrow> string list \<Rightarrow> string \<Rightarrow> 'd option" where
  "trie_entry n ks m = (case entry n ks m of None \<Rightarrow> None | Some x \<Rightarrow> lr_data x)"

definition trie_ok :: "'d PathMatcherNode \<Rightarrow> bool" where
  "trie_ok n \<longleftrightarrow> wf_node n \<and> \<not> wildcard n"

lemma entry_data: "trie_ok n \<Longrightarrow> entry n ks m = Some x \<Longrightarrow> lr_data x \<noteq> None"
  using serves_data [of n ks m x] by (simp add: trie_ok_def serves_def)

lemma trie_entry_None: "trie_ok n \<Longrightarrow> trie_entry n ks m = None \<longleftrightarrow> entry n ks m = None"
  using entry_data [of n ks m] by (auto simp: trie_entry_def split: option.splits)

lemma served_trie_entry:
  "trie_ok n \<Longrightarrow>
   served (trie_entry n) ks m = (case serves n ks m of None \<Rightarrow> None | Some x \<Rightarrow> lr_data x)"
  using entry_data [of n ks m]
  by (auto simp: served_def serves_def trie_entry_def split: option.splits)

lemma trie_lookup_best: "trie_ok n \<Longrightarrow> best_match (trie_entry n) ps m (trie_lookup n ps m)"
proof -
  assume n: "trie_ok n"
  let ?R = "LookupPath ps m n new_PathMatcherLookupResult"
  have a: "answers (\<lambda>ks. matches ks ps) (\<lambda>ks. serves n ks m) (wins ps) new_PathMatcherLookupResult ?R"
    using n by (intro LookupPath_answers) (auto simp: trie_ok_def new_PathMatcherLookupResult_def)
  have sv: "served (trie_entry n) ks m = None \<longleftrightarrow> serves n ks m = None" for ks
    using serves_data [of n ks m] n
    by (auto simp: served_trie_entry trie_ok_def split: option.splits)
  show ?thesis
  proof (cases "lr_data ?R")
    case None
    with a have "matches ks ps \<Longrightarrow> serves n ks m = None" for ks by (simp add: answers_def)
    with None sv show ?thesis by (simp add: best_match_def trie_lookup_def)
  next
    case (Some d)
    then obtain ks where "matches ks ps" "serves n ks m = Some ?R"
      "\<forall>ks'. matches ks' ps \<and> serves n ks' m \<noteq> None \<longrightarrow> wins ps ks ks'"
      using a by (auto simp: answers_def new_PathMatcherLookupResult_def)
    with Some sv n show ?thesis
      by (auto simp: best_match_def trie_lookup_def served_trie_entry intro!: exI [of _ ks])
  qed
qed

interpretation trie: path_index new_PathMatcherNode trie_insert trie_lookup trie_entry trie_ok
proof
  show "trie_ok new_PathMatcherNode" by (simp add: trie_ok_def)
  show "trie_entry new_PathMatcherNode ks m = None" for ks m by (simp add: trie_entry_def)
  fix n :: "'a PathMatcherNode" and ks m d
  assume n: "trie_ok n"
  show "trie_ok (snd (trie_insert ks m d n))" if "valid_path ks"
    using InsertTemplate_wf [OF _ that, of n "Some d" m True] n by (simp add: trie_ok_def trie_insert_def InsertPath_def)
  show "fst (trie_insert ks m d n) \<longleftrightarrow> trie_entry n ks m = None"
    using n by (simp add: trie_insert_def InsertPath_def InsertTemplate_fst trie_entry_None)
  show "trie_entry (snd (trie_insert ks m d n)) ks' m' =
      (if ks' = ks \<and> m' = m \<and> trie_entry n ks m = None then Some d else trie_entry n ks' m')" for ks' m'
    using entry_data [OF n, of ks m] trie_entry_None [OF n, of ks m]
    by (auto simp: trie_insert_def InsertPath_def trie_entry_def entry_InsertTemplate
        split: option.splits)
  show "best_match (trie_entry n) ps m (trie_lookup n ps m)" for ps using n by (rule trie_lookup_best)
qed

section \<open>Properties\<close>

text \<open>
  C12: inserting a template changes the stored payload of that template and method only: it is
  stored if there was none, and the call says so; otherwise the first payload stays and, with
  \<open>mark_duplicates\<close>, is marked as registered more than once.
\<close>

theorem InsertPath_stores:
  "fst (InsertPath ks m d dup n) = (entry n ks m = None) \<and>
   entry (snd (InsertPath ks m d dup n)) ks' m' =
     (if (ks', m') \<noteq> (ks, m) then entry n ks' m'
      else case entry n ks m of
             None \<Rightarrow> Some \<lparr>lr_data = d, lr_is_multiple = False\<rparr>
           | Some x \<Rightarrow> Some (if dup then x\<lparr>lr_is_multiple := True\<rparr> else x))"
  by (simp add: InsertPath_def InsertTemplate_fst entry_InsertTemplate)

text \<open>
  C13: the trie invariant: inserting a template whose segments after \<open>**\<close> are constants keeps
  the wildcard flags equal to the keys, and the subtries of \<open>**\<close> free of wildcards.
\<close>

theorem InsertPath_invariant:
  assumes "wf_node n" "valid_path ks" "d \<noteq> None"
  shows "wf_node (snd (InsertPath ks m d dup n)) \<and>
    wildcard (snd (InsertPath ks m d dup n)) = wildcard n"
  using InsertTemplate_wf [OF assms] by (simp add: InsertPath_def)

theorem InsertPath_invariant_witness:
  "wf_node (snd (InsertPath [''a'', ''**'', ''b''] ''GET'' (Some (7::nat)) True new_PathMatcherNode))"
proof -
  have "valid_path [''a'', ''**'', ''b'']" by (simp add: is_const_def wildcard_keys)
  then show ?thesis
    using InsertPath_invariant [of new_PathMatcherNode "[''a'', ''**'', ''b'']" "Some (7::nat)" "''GET''" True]
    by simp
qed

text \<open>
  C6: a lookup in a well-formed trie returns the payload of the winning template among all that
  match the path and are registered for the method or for any method, and returns nothing only
  when there is no such template.
\<close>

theorem LookupPath_best_match:
  assumes "wf_node n" "\<not> wildcard n"
  shows "best_match (trie_entry n) ps m (lr_data (LookupPath ps m n new_PathMatcherLookupResult))"
  using trie_lookup_best [of n ps m] assms by (simp add: trie_ok_def trie_lookup_def)

theorem LookupPath_best_match_witness:
  "let n = snd (InsertPath [''a'', ''*''] ''GET'' (Some (1::nat)) True
             (snd (InsertPath [''a'', ''**''] ''*'' (Some 2) True new_PathMatcherNode)))
   in best_match (trie_entry n) [''a'', ''x''] ''GET'' (Some 1) \<and>
      best_match (trie_entry n) [''a''] ''PUT'' (Some 2) \<and>
      best_match (trie_entry n) [''b''] ''GET'' None"
proof -
  let ?n = "snd (InsertPath [''a'', ''*''] ''GET'' (Some (1::nat)) True
             (snd (InsertPath [''a'', ''**''] ''*'' (Some 2) True new_PathMatcherNode)))"
  have n: "wf_node ?n" "\<not> wildcard ?n" by code_simp+
  have "lr_data (LookupPath [''a'', ''x''] ''GET'' ?n new_PathMatcherLookupResult) = Some 1"
    "lr_data (LookupPath [''a''] ''PUT'' ?n new_PathMatcherLookupResult) = Some 2"
    "lr_data (LookupPath [''b''] ''GET'' ?n new_PathMatcherLookupResult) = None" by code_simp+
  with LookupPath_best_match [OF n, of "[''a'', ''x'']" "''GET''"]
    LookupPath_best_match [OF n, of "[''a'']" "''PUT''"]
    LookupPath_best_match [OF n, of "[''b'']" "''GET''"]
  show ?thesis by (simp add: Let_def)
qed

text \<open>A clone is equal to the node it was made from.\<close>

lemma Clone_eq: "Clone n = n"
proof (induction n)
  case (Node rm ch w)
  then have "map (\<lambda>(k, c). (k, Clone c)) ch = ch"
    by (auto intro!: map_idI)
  then show ?case by simp
qed

end
