(* ===== verification/PathMatcher.thy ===== *)
theory PathMatcher
  imports PathMatcherNode HttpTemplate_Correct
begin

text \<open>
  The path matcher of \<open>api_proxy/path_matcher/path_matcher.{h,cc}\<close> and
  \<open>variable_binding_utils.cc\<close>: request paths to parts, registered templates to methods,
  matched parts to variable bindings, bindings to query parameters.

  A pointer to a \<open>MethodData\<close> is its index in \<open>methods_\<close>; the object that
  \<open>Register\<close> allocates has the first free index, and is dropped again when the insertion
  fails. A read outside a vector is undefined behaviour in the code and the value \<open>None\<close> here:
  \<open>ExtractBindingsFromPath\<close> and \<open>Lookup\<close> return an option, and the theorems show that
  they never return \<open>None\<close> on the tries that \<open>Register\<close> builds.
\<close>

section \<open>Unescaping\<close>

definition IsReservedChar :: "char \<Rightarrow> bool" where
  "IsReservedChar c \<longleftrightarrow>
     c \<in> {CHR ''!'', CHR ''#'', CHR ''$'', CHR ''&'', CHR 0x27, CHR ''('', CHR '')'', CHR ''*'',
          CHR ''+'', CHR '','', CHR ''/'', CHR '':'', CHR '';'', CHR ''='', CHR ''?'', CHR ''@'',
          CHR ''['', CHR '']''}"

abbreviation byte_of :: "char \<Rightarrow> nat" where
  "byte_of c \<equiv> of_char c"

definition ascii_isxdigit :: "char \<Rightarrow> bool" where
  "ascii_isxdigit c \<longleftrightarrow>
     CHR ''a'' \<le> c \<and> c \<le> CHR ''f'' \<or> CHR ''A'' \<le> c \<and> c \<le> CHR ''F'' \<or>
     CHR ''0'' \<le> c \<and> c \<le> CHR ''9''"

definition hex_digit_to_int :: "char \<Rightarrow> nat" where
  "hex_digit_to_int c =
     (let x = byte_of c; x = (if x > byte_of (CHR ''9'') then x + 9 else x) in x mod 16)"

definition GetEscapedChar :: "string \<Rightarrow> nat \<Rightarrow> bool \<Rightarrow> char option" where
  "GetEscapedChar src i unescape_reserved_chars =
     (if i + 2 < length src \<and> src ! i = CHR ''%'' then
        (if ascii_isxdigit (src ! (i + 1)) \<and> ascii_isxdigit (src ! (i + 2)) then
           (let c = char_of (hex_digit_to_int (src ! (i + 1)) * 16 + hex_digit_to_int (src ! (i + 2)))
            in if \<not> unescape_reserved_chars \<and> IsReservedChar c then None else Some c)
         else None)
      else None)"

definition needs_unescaping :: "string \<Rightarrow> bool \<Rightarrow> bool" where
  "needs_unescaping part u \<longleftrightarrow> (\<exists>i\<in>set [0..<length part]. GetEscapedChar part i u \<noteq> None)"

function UrlUnescapeString_loop :: "string \<Rightarrow> bool \<Rightarrow> nat \<Rightarrow> string" where
  "UrlUnescapeString_loop part u i =
     (if i < length part then
        (case GetEscapedChar part i u of
           Some ch \<Rightarrow> ch # UrlUnescapeString_loop part u (i + 3)
         | None \<Rightarrow> part ! i # UrlUnescapeString_loop part u (i + 1))
      else [])"
  by pat_completeness auto
termination
  by (relation "measure (\<lambda>(part, u, i). length part - i)") auto

declare UrlUnescapeString_loop.simps [simp del]

definition UrlUnescapeString :: "string \<Rightarrow> bool \<Rightarrow> string" where
  "UrlUnescapeString part unescape_reserved_chars =
     (if \<not> needs_unescaping part unescape_reserved_chars then part
      else UrlUnescapeString_loop part unescape_reserved_chars 0)"

section \<open>Bindings\<close>

record VariableBinding =
  vb_field_path :: "string list"
  vb_value :: string

text \<open>
  The loop over the bound parts, on \<open>size_t\<close> positions; \<open>None\<close> is a read behind the end
  of \<open>parts\<close>.
\<close>

function ExtractBinding_loop ::
    "string list \<Rightarrow> bool \<Rightarrow> bool \<Rightarrow> int \<Rightarrow> int \<Rightarrow> string \<Rightarrow> string option" where
  "ExtractBinding_loop parts keep_binding_escaped is_multipart end_segment i v =
     (if i < end_segment then
        (if 0 \<le> i \<and> i < int (length parts) then
           (let part = parts ! nat i;
                v = v @ (if keep_binding_escaped then part else UrlUnescapeString part (\<not> is_multipart));
                v = (if i < size_t (end_segment - 1) then v @ ''/'' else v)
            in ExtractBinding_loop parts keep_binding_escaped is_multipart end_segment (i + 1) v)
         else None)
      else Some v)"
  by pat_completeness auto
termination
  by (relation "measure (\<lambda>(parts, k, m, e, i, v). nat (int (length parts) - i))") auto

declare ExtractBinding_loop.simps [simp del]

definition ExtractBinding :: "Variable \<Rightarrow> string list \<Rightarrow> bool \<Rightarrow> VariableBinding option" where
  "ExtractBinding var parts keep_binding_escaped =
     (let end_segment = (if 0 \<le> var_end_segment var then var_end_segment var
                         else size_t (int (length parts) + var_end_segment var + 1));
          is_multipart = (1 < size_t (end_segment - var_start_segment var) \<or> var_end_segment var < 0)
      in map_option (\<lambda>v. \<lparr>vb_field_path = var_field_path var, vb_value = v\<rparr>)
           (ExtractBinding_loop parts keep_binding_escaped is_multipart end_segment
              (size_t (var_start_segment var)) []))"

fun ExtractBindingsFromPath ::
    "Variable list \<Rightarrow> string list \<Rightarrow> VariableBinding list \<Rightarrow> bool \<Rightarrow> VariableBinding list option" where
  "ExtractBindingsFromPath [] parts bindings keep = Some bindings"
| "ExtractBindingsFromPath (var # vars) parts bindings keep =
     (case ExtractBinding var parts keep of
        None \<Rightarrow> None
      | Some binding \<Rightarrow> ExtractBindingsFromPath vars parts (bindings @ [binding]) keep)"

fun VariableBindingsToQueryParameters_path :: "(string \<times> string) list \<Rightarrow> string list \<Rightarrow> string" where
  "VariableBindingsToQueryParameters_path snake_to_json [] = []"
| "VariableBindingsToQueryParameters_path snake_to_json (segment # segments) =
     (if CHR ''_'' \<in> set segment then
        (case map_of snake_to_json segment of Some json_name \<Rightarrow> json_name | None \<Rightarrow> segment)
      else segment) @
     (if segments \<noteq> [] then ''.'' else []) @
     VariableBindingsToQueryParameters_path snake_to_json segments"

fun VariableBindingsToQueryParameters :: "VariableBinding list \<Rightarrow> (string \<times> string) list \<Rightarrow> string" where
  "VariableBindingsToQueryParameters [] snake_to_json = []"
| "VariableBindingsToQueryParameters (b # bs) snake_to_json =
     VariableBindingsToQueryParameters_path snake_to_json (vb_field_path b) @ ''='' @ vb_value b @
     (if bs \<noteq> [] then ''&'' else []) @
     VariableBindingsToQueryParameters bs snake_to_json"

section \<open>Request paths\<close>

function drop_empty_tail :: "string list \<Rightarrow> string list" where
  "drop_empty_tail result =
     (if result \<noteq> [] \<and> last result = [] then drop_empty_tail (butlast result) else result)"
  by pat_completeness auto
termination
  by (relation "measure length") auto

declare drop_empty_tail.simps [simp del]

definition ExtractRequestParts :: "string \<Rightarrow> string set \<Rightarrow> string list" where
  "ExtractRequestParts path custom_verbs =
     (let path = substr_to path (find_first_of (CHR ''?'') path);
          path =
            (case (find_last_of (CHR '':'') path, find_last_of (CHR ''/'') path) of
               (Some last_colon_pos, Some last_slash_pos) \<Rightarrow>
                 if last_slash_pos < last_colon_pos
                    \<and> drop (Suc last_colon_pos) path \<in> custom_verbs
                 then path[last_colon_pos := CHR ''/''] else path
             | _ \<Rightarrow> path);
          result = (if path \<noteq> [] then StrSplit (CHR ''/'') (drop 1 path) else [])
      in drop_empty_tail result)"

definition LookupInPathMatcherNode ::
    "'d PathMatcherNode \<Rightarrow> string list \<Rightarrow> string \<Rightarrow> 'd PathMatcherLookupResult" where
  "LookupInPathMatcherNode root parts http_method =
     LookupPath parts http_method root new_PathMatcherLookupResult"

definition TransformHttpTemplate :: "HttpTemplate \<Rightarrow> PathInfo" where
  "TransformHttpTemplate ht =
     (let builder = fold AppendLiteralNode (ht_segments ht) []
      in if ht_verb ht \<noteq> [] then AppendLiteralNode (ht_verb ht) builder else builder)"

section \<open>PathMatcher and its builder\<close>

record 'm MethodData =
  md_method :: 'm
  md_variables :: "Variable list"
  md_body_field_path :: string

text \<open>\<open>PathMatcher\<close> and \<open>PathMatcherBuilder\<close> have the same members; \<open>Build\<close> moves them.\<close>

record 'm PathMatcher =
  pm_root :: "nat PathMatcherNode"
  pm_custom_verbs :: "string set"
  pm_methods :: "'m MethodData list"

definition new_PathMatcherBuilder :: "'m PathMatcher" where
  "new_PathMatcherBuilder =
     \<lparr>pm_root = new_PathMatcherNode, pm_custom_verbs = {}, pm_methods = []\<rparr>"

definition Register ::
    "string \<Rightarrow> string \<Rightarrow> string \<Rightarrow> 'm \<Rightarrow> 'm PathMatcher \<Rightarrow> (bool \<times> 'm PathMatcher) option" where
  "Register http_method http_template body_field_path method b =
     (case HttpTemplate_Parse http_template of
        None \<Rightarrow> None
      | Some None \<Rightarrow> Some (False, b)
      | Some (Some ht) \<Rightarrow>
          (let path_info = TransformHttpTemplate ht;
               method_data = \<lparr>md_method = method, md_variables = ht_variables ht,
                              md_body_field_path = body_field_path\<rparr>;
               (ok, root) = InsertPath path_info http_method (Some (length (pm_methods b))) True (pm_root b);
               b = b\<lparr>pm_root := root\<rparr>
           in if \<not> ok then Some (False, b)
              else
                (let b = b\<lparr>pm_methods := pm_methods b @ [method_data]\<rparr>
                 in Some (True, if ht_verb ht \<noteq> []
                                then b\<lparr>pm_custom_verbs := insert (ht_verb ht) (pm_custom_verbs b)\<rparr>
                                else b))))"

definition Build :: "'m PathMatcher \<Rightarrow> 'm PathMatcher" where
  "Build b = b"

text \<open>Dereferencing the payload pointer; \<open>None\<close> when it does not point into \<open>methods_\<close>.\<close>

definition deref :: "nat \<Rightarrow> 'm PathMatcher \<Rightarrow> 'm MethodData option" where
  "deref i pm = (if i < length (pm_methods pm) then Some (pm_methods pm ! i) else None)"

definition Lookup_bindings ::
    "string \<Rightarrow> string \<Rightarrow> VariableBinding list \<Rightarrow> 'm PathMatcher
     \<Rightarrow> ('m option \<times> VariableBinding list) option" where
  "Lookup_bindings http_method path variable_bindings pm =
     (let parts = ExtractRequestParts path (pm_custom_verbs pm);
          lookup_result = LookupInPathMatcherNode (pm_root pm) parts http_method
      in case lr_data lookup_result of
           None \<Rightarrow> Some (None, variable_bindings)
         | Some i \<Rightarrow>
             (case deref i pm of
                None \<Rightarrow> None
              | Some method_data \<Rightarrow>
                  map_option (\<lambda>bs. (Some (md_method method_data), bs))
                    (ExtractBindingsFromPath (md_variables method_data) parts [] True)))"

definition Lookup :: "string \<Rightarrow> string \<Rightarrow> 'm PathMatcher \<Rightarrow> 'm option option" where
  "Lookup http_method path pm =
     (let parts = ExtractRequestParts path (pm_custom_verbs pm);
          lookup_result = LookupInPathMatcherNode (pm_root pm) parts http_method
      in case lr_data lookup_result of
           None \<Rightarrow> Some None
         | Some i \<Rightarrow> map_option (\<lambda>method_data. Some (md_method method_data)) (deref i pm))"

section \<open>Unescaping\<close>

text \<open>The reference: one pass over the text, without the scan that avoids the copy.\<close>

fun unescape :: "bool \<Rightarrow> string \<Rightarrow> string" where
  "unescape u (c # x # y # r) =
     (let d = char_of (hex_digit_to_int x * 16 + hex_digit_to_int y)
      in if c = CHR ''%'' \<and> ascii_isxdigit x \<and> ascii_isxdigit y \<and> (u \<or> \<not> IsReservedChar d)
         then d # unescape u r else c # unescape u (x # y # r))"
| "unescape u s = s"

lemma GetEscapedChar_drop:
  "drop i s = c # r \<Longrightarrow>
   GetEscapedChar s i u =
     (case r of
        x # y # r' \<Rightarrow>
          (let d = char_of (hex_digit_to_int x * 16 + hex_digit_to_int y)
           in if c = CHR ''%'' \<and> ascii_isxdigit x \<and> ascii_isxdigit y \<and> (u \<or> \<not> IsReservedChar d)
              then Some d else None)
      | _ \<Rightarrow> None)"
proof -
  assume d: "drop i s = c # r"
  then have l: "length s = i + 1 + length r" "s ! i = c"
    using arg_cong [OF d, of length] drop_Cons_nth [OF d] by auto
  moreover have "s ! (i + 1) = x \<and> s ! (i + 2) = y" if "r = x # y # r'" for x y r'
    using d that by (metis One_nat_def add.commute add_2_eq_Suc drop_Cons_nth plus_1_eq_Suc)
  ultimately show ?thesis
    by (auto simp: GetEscapedChar_def Let_def split: list.splits)
qed

lemma UrlUnescapeString_loop_unescape:
  "UrlUnescapeString_loop s u i = unescape u (drop i s)"
proof (induction s u i rule: UrlUnescapeString_loop.induct)
  case (1 s u i)
  show ?case
  proof (cases "drop i s")
    case Nil
    then show ?thesis by (simp add: UrlUnescapeString_loop.simps [of s u i])
  next
    case (Cons c r)
    note d = GetEscapedChar_drop [OF Cons, of u] and c = drop_Cons_nth [OF Cons]
    show ?thesis
    proof (cases "GetEscapedChar s i u")
      case None
      have "unescape u (c # r) = c # unescape u r"
        using None d by (cases r rule: list.exhaust [case_product list.exhaust])
          (auto simp: Let_def split: list.splits if_splits)
      with None 1 c Cons show ?thesis
        by (simp add: UrlUnescapeString_loop.simps [of s u i])
    next
      case (Some e)
      then obtain x y r' where r: "r = x # y # r'" using d by (auto split: list.splits)
      have "drop (i + 3) s = r'"
        using arg_cong [OF Cons, of "drop 3"] r by (simp add: add.commute)
      with Some 1 c Cons r d show ?thesis
        by (auto simp: UrlUnescapeString_loop.simps [of s u i] Let_def split: if_splits)
    qed
  qed
qed

lemma unescape_id:
  "(\<And>i. i < length s \<Longrightarrow> GetEscapedChar s i u = None) \<Longrightarrow> unescape u (drop i s) = drop i s"
proof (induction "length s - i" arbitrary: i)
  case (Suc n)
  then obtain c r where cr: "drop i s = c # r" by (cases "drop i s") auto
  with Suc(2) Suc(1) [of "Suc i"] Suc(3) drop_Cons_nth [OF cr]
  have "unescape u r = r" by simp
  moreover have "GetEscapedChar s i u = None" using Suc.prems drop_Cons_nth [OF cr] by simp
  ultimately show ?case
    unfolding cr GetEscapedChar_drop [OF cr]
    by (cases r rule: list.exhaust [case_product list.exhaust])
      (auto simp: Let_def split: list.splits if_splits)
qed simp

lemma UrlUnescapeString_unescape: "UrlUnescapeString s u = unescape u s"
proof (cases "needs_unescaping s u")
  case False
  with unescape_id [of s u 0] show ?thesis
    by (auto simp: UrlUnescapeString_def needs_unescaping_def)
qed (simp add: UrlUnescapeString_def UrlUnescapeString_loop_unescape)

text \<open>Percent-encoding of the characters that satisfy \<open>P\<close>.\<close>

definition hex_char :: "nat \<Rightarrow> char" where
  "hex_char n = char_of (if n < 10 then 48 + n else 55 + n)"

definition percent_encode :: "(char \<Rightarrow> bool) \<Rightarrow> string \<Rightarrow> string" where
  "percent_encode P s =
     concat (map (\<lambda>c. if P c then [CHR ''%'', hex_char (byte_of c div 16), hex_char (byte_of c mod 16)]
                      else [c]) s)"

lemma hex_char_digit:
  "n < 16 \<Longrightarrow> ascii_isxdigit (hex_char n) \<and> hex_digit_to_int (hex_char n) = n"
proof -
  assume "n < 16"
  then have "n \<in> set [0..<16]" by simp
  moreover have "\<forall>n \<in> set [0..<16]. ascii_isxdigit (hex_char n) \<and> hex_digit_to_int (hex_char n) = n"
    by code_simp
  ultimately show ?thesis by blast
qed

lemma byte_of_less: "byte_of c < 256"
  by (cases c) (auto split: bool.splits)

lemma unescape_percent:
  "u \<or> \<not> IsReservedChar c \<Longrightarrow>
   unescape u (CHR ''%'' # hex_char (byte_of c div 16) # hex_char (byte_of c mod 16) # r) =
   c # unescape u r"
  using hex_char_digit [of "byte_of c div 16"] hex_char_digit [of "byte_of c mod 16"] byte_of_less [of c]
  by (simp add: less_mult_imp_div_less)

lemma unescape_plain: "c \<noteq> CHR ''%'' \<Longrightarrow> unescape u (c # r) = c # unescape u r"
  by (cases "(u, c # r)" rule: unescape.cases) auto

text \<open>
  C15: unescaping inverts percent-encoding: any text whose percent signs are encoded comes back
  unchanged, provided reserved characters were encoded only where they are unescaped as well.
\<close>

theorem UrlUnescapeString_roundtrip:
  assumes "P (CHR ''%'')" and "\<And>c. P c \<Longrightarrow> u \<or> \<not> IsReservedChar c"
  shows "UrlUnescapeString (percent_encode P s) u = s"
proof -
  have "unescape u (percent_encode P s) = s"
  proof (induction s)
    case (Cons c s)
    show ?case
    proof (cases "P c")
      case True
      with Cons assms(2) [OF True] show ?thesis 
        by (simp add: percent_encode_def unescape_percent del: unescape.simps)
    next
      case False
      with assms(1) have "c \<noteq> CHR ''%''" by auto
      with Cons False show ?thesis 
        by (simp add: percent_encode_def unescape_plain del: unescape.simps)
    qed
  qed (simp add: percent_encode_def)
  then show ?thesis by (simp add: UrlUnescapeString_unescape)
qed

theorem UrlUnescapeString_roundtrip_witness:
  "UrlUnescapeString ''100%25%20of%20a/b'' False = ''100% of a/b''"
proof -
  have "percent_encode (\<lambda>c. c \<in> set ''% '') ''100% of a/b'' = ''100%25%20of%20a/b''" by code_simp
  moreover have
    "UrlUnescapeString (percent_encode (\<lambda>c. c \<in> set ''% '') ''100% of a/b'') False = ''100% of a/b''"
    by (rule UrlUnescapeString_roundtrip) (auto simp: IsReservedChar_def)
  ultimately show ?thesis by simp
qed

section \<open>Request paths\<close>

lemma join_snoc: "xs \<noteq> [] \<Longrightarrow> join d (xs @ [y]) = join d xs @ d @ y"
  by (induction d xs rule: join.induct) (auto simp: join_Cons)

lemma cut_query:
  assumes "CHR ''?'' \<notin> set b" "q = [] \<or> hd q = CHR ''?''"
  shows "substr_to (b @ q) (find_first_of (CHR ''?'') (b @ q)) = b"
proof (cases q)
  case Nil
  have "find_first_of (CHR ''?'') b = None" using assms(1) by simp
  with Nil show ?thesis by (simp add: substr_to_def del: find_first_of_None)
next
  case (Cons c q')
  with assms show ?thesis by (simp add: substr_to_def find_first_of_append)
qed

lemma drop_empty_tail_snoc:
  "drop_empty_tail (xs @ [x]) = (if x = [] then drop_empty_tail xs else xs @ [x])"
  by (simp add: drop_empty_tail.simps [of "xs @ [x]"])

lemma drop_empty_tail_replicate:
  "drop_empty_tail (xs @ replicate k []) = drop_empty_tail xs"
proof (induction k)
  case (Suc k)
  have "xs @ replicate (Suc k) [] = (xs @ replicate k []) @ [[]]"
    by (simp add: replicate_append_same)
  with Suc show ?case by (simp only: drop_empty_tail_snoc simp_thms if_True)
qed simp

lemma drop_empty_tail_id: "xs = [] \<or> last xs \<noteq> [] \<Longrightarrow> drop_empty_tail xs = xs"
  by (auto simp: drop_empty_tail.simps [of xs])

text \<open>The path that names the given parts.\<close>

definition render_path :: "string list \<Rightarrow> string" where
  "render_path parts = ''/'' @ join ''/'' parts"

lemma render_path_last:
  "parts \<noteq> [] \<Longrightarrow> \<exists>pre. render_path parts = pre @ CHR ''/'' # last parts"
proof -
  assume p: "parts \<noteq> []"
  show ?thesis
  proof (cases "butlast parts = []")
    case True
    with p have "parts = [last parts]" by (metis append_butlast_last_id append_Nil)
    then have "join ''/'' parts = last parts" by (metis join.simps(2))
    then show ?thesis by (simp add: render_path_def)
  next
    case False
    then have "join ''/'' (butlast parts @ [last parts]) = join ''/'' (butlast parts) @ ''/'' @ last parts"
      by (rule join_snoc)
    with p show ?thesis by (auto simp: render_path_def)
  qed
qed

lemma split_join_slashes:
  assumes "parts \<noteq> []" "\<And>p. p \<in> set parts \<Longrightarrow> CHR ''/'' \<notin> set p"
  shows "StrSplit (CHR ''/'') (join ''/'' parts @ replicate k (CHR ''/'')) = parts @ replicate k []"
proof -
  have "join ''/'' parts @ replicate k (CHR ''/'') = join ''/'' (parts @ replicate k [])"
  proof (induction k)
    case (Suc k)
    have "join ''/'' ((parts @ replicate k []) @ [[]]) = join ''/'' (parts @ replicate k []) @ ''/''"
      using assms(1) join_snoc [of "parts @ replicate k []" "''/''" "[]"] by simp
    with Suc show ?case by (simp add: replicate_append_same [symmetric])
  qed simp
  moreover have "StrSplit (CHR ''/'') (join ''/'' (parts @ replicate k [])) = parts @ replicate k []"
    using assms by (intro StrSplit_join) auto
  ultimately show ?thesis by simp
qed

lemma join_chars: "c \<in> set (join d xs) \<Longrightarrow> c \<in> set d \<or> (\<exists>x\<in>set xs. c \<in> set x)"
  by (induction d xs rule: join.induct) auto

lemma split_slashes: "StrSplit (CHR ''/'') (replicate k (CHR ''/'')) = replicate (Suc k) []"
  by (induction k) simp_all

text \<open>Where the last colon and the last slash are decides what counts as a verb.\<close>

definition names_verb :: "string set \<Rightarrow> string \<Rightarrow> bool" where
  "names_verb V s \<longleftrightarrow> (\<exists>x v. s = x @ CHR '':'' # v \<and> CHR '':'' \<notin> set v \<and> v \<in> V)"

lemma last_colon_in_part:
  assumes "find_last_of (CHR '':'') (pre @ CHR ''/'' # s) = Some c" "CHR ''/'' \<notin> set s"
    and "find_last_of (CHR ''/'') (pre @ CHR ''/'' # s) = Some d" "d < c"
    and "drop (Suc c) (pre @ CHR ''/'' # s) \<in> V"
  shows "names_verb V s"
proof -
  let ?b = "pre @ CHR ''/'' # s"
  have d: "d = length pre" using assms(2,3) by (simp add: find_last_of_append)
  note c = find_last_of_SomeD [OF assms(1)]
  define i where "i = c - Suc (length pre)"
  have ci: "c = Suc (length pre) + i" using assms(4) d by (simp add: i_def)
  have "i < length s" "s ! i = CHR '':''" using c ci by (simp_all add: nth_append)
  then have "s = take i s @ CHR '':'' # drop (Suc i) s" by (metis id_take_nth_drop)
  moreover have "drop (Suc c) ?b = drop (Suc i) s" using ci by simp
  ultimately show ?thesis using c assms(5) unfolding names_verb_def by metis
qed

definition plain_parts :: "string list \<Rightarrow> bool" where
  "plain_parts parts \<longleftrightarrow>
     (\<forall>p\<in>set parts. CHR ''/'' \<notin> set p \<and> CHR ''?'' \<notin> set p) \<and> (parts = [] \<or> last parts \<noteq> [])"

lemma plain_parts_render:
  assumes "plain_parts parts"
  shows "CHR ''?'' \<notin> set (render_path parts @ replicate k (CHR ''/''))"
  using assms by (auto simp: plain_parts_def render_path_def dest: join_chars)

lemma last_slash_at_end:
  "find_last_of (CHR ''/'') (b @ [CHR ''/'']) = Some (length b)"
  using find_last_of_append [of "CHR ''/''" "[]" b] by simp

lemma no_verb:
  assumes "plain_parts parts" "0 < k \<or> parts = [] \<or> \<not> names_verb V (last parts)"
    and b: "b = render_path parts @ replicate k (CHR ''/'')"
    and c: "find_last_of (CHR '':'') b = Some c" and d: "find_last_of (CHR ''/'') b = Some d"
    and less: "d < c"
  shows "drop (Suc c) b \<notin> V"
proof (cases "0 < k \<or> parts = []")
  case True
  then have "\<exists>b'. b = b' @ [CHR ''/'']"
    by (cases k) (auto simp: b render_path_def replicate_append_same [symmetric])
  with less find_last_of_SomeD [OF c] d show ?thesis by (auto simp: last_slash_at_end)
next
  case False
  then obtain pre where "b = pre @ CHR ''/'' # last parts"
    using render_path_last [of parts] b by auto
  moreover have "CHR ''/'' \<notin> set (last parts)" using False assms(1) by (simp add: plain_parts_def)
  ultimately show ?thesis using last_colon_in_part c d less assms(2) False by blast
qed



text \<open>
  A registered custom verb at the end of the path becomes the last part.
\<close>

lemma ExtractRequestParts_verb:
  assumes "plain_parts parts" "parts \<noteq> []" "v \<in> V" "v \<noteq> []"
    and "set v \<inter> {CHR ''/'', CHR ''?'', CHR '':''} = {}" "q = [] \<or> hd q = CHR ''?''"
  shows "ExtractRequestParts (render_path parts @ '':'' @ v @ q) V = parts @ [v]"
proof -
  let ?p = "render_path parts" let ?b = "?p @ CHR '':'' # v"
  have cut: "substr_to (?b @ q) (find_first_of (CHR ''?'') (?b @ q)) = ?b"
    using plain_parts_render [OF assms(1), of 0] assms(5) by (intro cut_query assms(6)) auto
  have colon: "find_last_of (CHR '':'') ?b = Some (length ?p)"
    using assms(5) by (intro find_last_of_append) auto
  obtain pre where pre: "?p = pre @ CHR ''/'' # last parts" using render_path_last [OF assms(2)] ..
  have slash: "find_last_of (CHR ''/'') ?b = Some (length pre)"
    unfolding pre append_assoc append_Cons
    using assms(1,2,5) by (intro find_last_of_append) (auto simp: plain_parts_def)
  have "ExtractRequestParts (?b @ q) V =
      drop_empty_tail (StrSplit (CHR ''/'') (drop 1 (?b[length ?p := CHR ''/''])))"
    unfolding ExtractRequestParts_def cut Let_def
    using colon slash assms(3) by (simp add: pre)
  also have "?b[length ?p := CHR ''/''] = render_path (parts @ [v])"
    using assms(2) by (simp add: render_path_def join_snoc)
  also have "StrSplit (CHR ''/'') (drop 1 (render_path (parts @ [v]))) = parts @ [v]"
    using split_join_slashes [of "parts @ [v]" 0] assms(1,5)
    by (auto simp: render_path_def plain_parts_def)
  also have "drop_empty_tail (parts @ [v]) = parts @ [v]"
    using assms(4) by (simp add: drop_empty_tail_id)
  finally show ?thesis by simp
qed

section \<open>Bindings\<close>

lemma size_t_bounds [simp]: "0 \<le> size_t x" "size_t x < 2 ^ 64"
  by (simp_all add: size_t_def)

lemma slice_Cons: "i < e \<Longrightarrow> e \<le> length xs \<Longrightarrow> take (e - i) (drop i xs) = xs ! i # take (e - Suc i) (drop (Suc i) xs)"
  by (metis Cons_nth_drop_Suc Suc_diff_Suc less_le_trans take_Suc_Cons)

lemma ExtractBinding_loop_join:
  "i \<le> e \<Longrightarrow> e \<le> length parts \<Longrightarrow> length parts < 2 ^ 63 \<Longrightarrow>
   ExtractBinding_loop parts keep mp (int e) (int i) v =
     Some (v @ join ''/'' (map (\<lambda>p. if keep then p else UrlUnescapeString p (\<not> mp))
                             (take (e - i) (drop i parts))))"
proof (induction "e - i" arbitrary: i v)
  case 0
  then show ?case by (simp add: ExtractBinding_loop.simps)
next
  case (Suc n)
  let ?f = "\<lambda>p. if keep then p else UrlUnescapeString p (\<not> mp)"
  have i: "i < e" "n = e - Suc i" "Suc i \<le> e" using Suc(2) by simp_all
  have e: "size_t (int e - 1) = int e - 1" using i Suc.prems by (intro size_t_id) auto
  have "take (e - Suc i) (drop (Suc i) parts) = [] \<longleftrightarrow> \<not> Suc i < e" using i Suc.prems by auto
  then have j: "join ''/'' (map ?f (take (e - i) (drop i parts))) =
      ?f (parts ! i) @ (if int i < int e - 1 then ''/'' else []) @
      join ''/'' (map ?f (take (e - Suc i) (drop (Suc i) parts)))"
    using slice_Cons [OF i(1) Suc.prems(2)] i
    by (cases "Suc i < e") (simp_all add: join_Cons)
  have "ExtractBinding_loop parts keep mp (int e) (int i) v =
      ExtractBinding_loop parts keep mp (int e) (int (Suc i))
        (v @ ?f (parts ! i) @ (if int i < int e - 1 then ''/'' else []))"
    using i Suc.prems
    by (subst ExtractBinding_loop.simps) (auto simp: e Let_def algebra_simps)
  then show ?case using Suc(1) [OF i(2,3) Suc.prems(2,3)] j by simp
qed

text \<open>The positions a variable covers in a path with \<open>n\<close> parts.\<close>

definition abs_end :: "Variable \<Rightarrow> nat \<Rightarrow> int" where
  "abs_end v n = (if 0 \<le> var_end_segment v then var_end_segment v else int n + var_end_segment v + 1)"

definition in_range :: "Variable \<Rightarrow> nat \<Rightarrow> bool" where
  "in_range v n \<longleftrightarrow> 0 \<le> var_start_segment v \<and> var_start_segment v \<le> abs_end v n \<and> abs_end v n \<le> int n"

lemma ExtractBinding_slice:
  assumes "in_range v (length parts)" "length parts < 2 ^ 63"
  shows "\<exists>mp. ExtractBinding v parts keep =
    Some \<lparr>vb_field_path = var_field_path v,
          vb_value = join ''/'' (map (\<lambda>p. if keep then p else UrlUnescapeString p (\<not> mp))
             (take (nat (abs_end v (length parts)) - nat (var_start_segment v))
                   (drop (nat (var_start_segment v)) parts)))\<rparr>"
proof -
  note r = assms [unfolded in_range_def abs_end_def]
  have e: "(if 0 \<le> var_end_segment v then var_end_segment v
      else size_t (int (length parts) + var_end_segment v + 1)) = abs_end v (length parts)"
    using r by (auto simp: abs_end_def)
  have st: "size_t (var_start_segment v) = var_start_segment v" using r by (intro size_t_id) auto
  have le: "nat (var_start_segment v) \<le> nat (abs_end v (length parts))"
      "nat (abs_end v (length parts)) \<le> length parts"
      "int (nat (abs_end v (length parts))) = abs_end v (length parts)"
      "int (nat (var_start_segment v)) = var_start_segment v"
    using assms by (auto simp: in_range_def)
  show ?thesis
    unfolding ExtractBinding_def Let_def e st
    using ExtractBinding_loop_join [OF le(1,2) assms(2), unfolded le(3,4), of keep _ "[]"]
    by auto
qed

lemma ExtractBindingsFromPath_eq:
  "(\<And>v. v \<in> set vars \<Longrightarrow> in_range v (length parts)) \<Longrightarrow> length parts < 2 ^ 63 \<Longrightarrow>
   ExtractBindingsFromPath vars parts bs keep =
     Some (bs @ map (\<lambda>v. the (ExtractBinding v parts keep)) vars)"
proof (induction vars arbitrary: bs)
  case (Cons v vars)
  obtain b where "ExtractBinding v parts keep = Some b"
    using ExtractBinding_slice [of v parts keep] Cons.prems by auto
  with Cons show ?case by simp
qed simp

text \<open>Templates against paths: lengths, and where \<open>**\<close> can be.\<close>

lemma matches_length:
  "matches ks ps \<Longrightarrow> length ks \<le> length ps \<or> length ks = Suc (length ps) \<and> last ks = kWildCardPathKey"
  by (induction ks ps rule: matches.induct) (auto split: if_splits)

lemma matches_length_eq:
  "matches ks ps \<Longrightarrow> kWildCardPathKey \<notin> set ks \<Longrightarrow> length ks = length ps"
  by (induction ks ps rule: matches.induct) auto

lemma pr_tseg_wild: "wf_tseg t \<Longrightarrow> pr_tseg t = kWildCardPathKey \<longleftrightarrow> t = StarStar"
  by (cases t) (auto simp: wildcard_keys)

lemma TransformHttpTemplate_eq:
  "TransformHttpTemplate ht = ht_segments ht @ (if ht_verb ht = [] then [] else [ht_verb ht])"
proof -
  have "fold AppendLiteralNode xs b = b @ xs" for xs b
    by (induction xs arbitrary: b) (simp_all add: AppendLiteralNode_def)
  then show ?thesis by (simp add: TransformHttpTemplate_def AppendLiteralNode_def)
qed

lemma seg_variable_wild:
  assumes "wf_seg (Var fp b)"
  shows "(case b of None \<Rightarrow> False | Some ts \<Rightarrow> StarStar \<in> set ts) \<longleftrightarrow>
    kWildCardPathKey \<in> set (seg_segments (Var fp b))"
proof (cases b)
  case (Some ts)
  have "kWildCardPathKey \<in> pr_tseg ` set ts \<longleftrightarrow> StarStar \<in> set ts"
    using assms Some pr_tseg_wild by (force simp: list_all_iff image_iff)
  with Some show ?thesis by simp
qed (simp add: wildcard_keys)

lemma segs_variables_append:
  "segs_variables n (xs @ ys) =
   segs_variables n xs @ segs_variables (n + length (segs_segments xs)) ys"
  by (induction xs arbitrary: n) (simp_all add: segs_segments_def add.assoc)

lemma segs_segments_append [simp]:
  "segs_segments (xs @ ys) = segs_segments xs @ segs_segments ys"
  "segs_segments (s # ys) = seg_segments s @ segs_segments ys"
  by (simp_all add: segs_segments_def)

lemma in_segs_variables:
  "v \<in> set (segs_variables n ss) \<Longrightarrow>
   \<exists>xs fp b ys. ss = xs @ Var fp b # ys \<and> v = hd (seg_variables (n + length (segs_segments xs)) (Var fp b))"
proof (induction ss arbitrary: n)
  case (Cons s ss)
  then consider "v \<in> set (seg_variables n s)" | "v \<in> set (segs_variables (n + length (seg_segments s)) ss)"
    by auto
  then show ?case
  proof cases
    case 1
    then obtain fp b where "s = Var fp b" by (cases s) auto
    with 1 have "s # ss = [] @ Var fp b # ss \<and> v = hd (seg_variables (n + length (segs_segments [])) (Var fp b))"
      by (simp add: segs_segments_def)
    then show ?thesis by blast
  next
    case 2
    with Cons.IH obtain xs fp b ys where "ss = xs @ Var fp b # ys"
      "v = hd (seg_variables (n + length (seg_segments s) + length (segs_segments xs)) (Var fp b))" by blast
    then have "s # ss = (s # xs) @ Var fp b # ys \<and>
        v = hd (seg_variables (n + length (segs_segments (s # xs))) (Var fp b))" by (simp add: add.assoc)
    then show ?thesis by blast
  qed
qed simp

text \<open>A variable of a template that matches a path lies inside that path.\<close>

lemma variable_in_range:
  assumes wf: "wf_template t" and m: "matches (TransformHttpTemplate (denote t)) parts"
    and v: "v \<in> set (ht_variables (denote t))"
  shows "in_range v (length parts)"
proof -
  let ?n = "length (segs_segments (t_segs t))" and ?verb = "t_verb t \<noteq> []"
  obtain w where w: "w \<in> set (segs_variables 0 (t_segs t))" "v = relative_end ?n ?verb w"
    using v by (auto simp: denote_def)
  obtain xs fp b ys where x: "t_segs t = xs @ Var fp b # ys"
    "w = hd (seg_variables (length (segs_segments xs)) (Var fp b))"
    using in_segs_variables [OF w(1)] by auto
  have wfv: "wf_seg (Var fp b)" using wf x by (simp add: wf_template_def)
  have ks: "TransformHttpTemplate (denote t) = segs_segments (t_segs t) @ (if ?verb then [t_verb t] else [])"
    by (simp add: TransformHttpTemplate_eq denote_def)
  note len = matches_length [OF m, unfolded ks]
  have short: "?n \<le> length parts \<or> \<not> ?verb \<and> ?n = Suc (length parts) \<and>
      last (segs_segments (t_segs t)) = kWildCardPathKey"
    using len by (auto split: if_splits)
  have r: "0 \<le> var_start_segment w" "var_start_segment w < var_end_segment w" "var_end_segment w \<le> int ?n"
    using segs_variables_range [OF _ w(1)] wf by (auto simp: wf_template_def)
  show ?thesis
  proof (cases "var_has_wildcard_path w")
    case True
    have "?n + (if ?verb then 1 else 0) \<le> Suc (length parts)" using len by (auto split: if_splits)
    with True r w(2) show ?thesis
      by (auto simp: in_range_def abs_end_def relative_end_def split: if_splits)
  next
    case False
    have "var_end_segment w \<le> int (length parts)"
    proof (rule ccontr)
      assume "\<not> var_end_segment w \<le> int (length parts)"
      with r short have e: "last (segs_segments (t_segs t)) = kWildCardPathKey"
        "var_end_segment w = int ?n" by linarith+
      with x have "segs_segments ys = []" by simp
      with e x wf_seg_segments [OF wfv] have "kWildCardPathKey \<in> set (seg_segments (Var fp b))"
        by (metis last_appendR last_in_set self_append_conv segs_segments_append)
      with False x seg_variable_wild [OF wfv] show False by simp
    qed
    with False r w(2) show ?thesis by (simp add: in_range_def abs_end_def relative_end_def)
  qed
qed

lemma parsed_variable_in_range:
  assumes "HttpTemplate_Parse s = Some (Some ht)" "length s < 2 ^ 31"
    and "matches (TransformHttpTemplate ht) parts" "v \<in> set (ht_variables ht)"
  shows "in_range v (length parts)"
  using assms(1,2)
proof (cases rule: HttpTemplate_Parse_denote)
  case (2 t)
  with assms(3,4) show ?thesis using variable_in_range by simp
qed (use assms(4) in simp)

text \<open>
  C8: extracting the bindings of a parsed template from a path that it matches never reads outside
  the path, and yields one binding per variable, in order.
\<close>

theorem ExtractBindingsFromPath_safe:
  assumes "HttpTemplate_Parse s = Some (Some ht)" "length s < 2 ^ 31"
    and "matches (TransformHttpTemplate ht) parts" "length parts < 2 ^ 63"
  shows "\<exists>bs. ExtractBindingsFromPath (ht_variables ht) parts [] keep = Some bs \<and>
    map vb_field_path bs = map var_field_path (ht_variables ht)"
proof -
  have r: "in_range v (length parts)" if "v \<in> set (ht_variables ht)" for v
    using parsed_variable_in_range [OF assms(1-3) that] .
  have "vb_field_path (the (ExtractBinding v parts keep)) = var_field_path v"
    if "v \<in> set (ht_variables ht)" for v
    using ExtractBinding_slice [OF r [OF that] assms(4), of keep] by auto
  with ExtractBindingsFromPath_eq [of "ht_variables ht" parts "[]" keep] r assms(4) show ?thesis by simp
qed

theorem ExtractBindingsFromPath_safe_witness:
  "\<exists>ht bs. HttpTemplate_Parse ''/a/{x=**}'' = Some (Some ht) \<and>
     matches (TransformHttpTemplate ht) [''a''] \<and>
     ExtractBindingsFromPath (ht_variables ht) [''a''] [] True = Some bs \<and>
     map vb_field_path bs = [[''x'']]"
proof -
  let ?ht = "\<lparr>ht_segments = [''a'', ''**''], ht_verb = [],
     ht_variables = [\<lparr>var_start_segment = 1, var_end_segment = - 1, var_field_path = [''x''],
                      var_has_wildcard_path = True\<rparr>]\<rparr>"
  have p: "HttpTemplate_Parse ''/a/{x=**}'' = Some (Some ?ht)" by code_simp
  have m: "matches (TransformHttpTemplate ?ht) [''a'']" by code_simp
  have "\<exists>bs. ExtractBindingsFromPath (ht_variables ?ht) [''a''] [] True = Some bs \<and>
      map vb_field_path bs = map var_field_path (ht_variables ?ht)"
    by (rule ExtractBindingsFromPath_safe [OF p _ m]) simp_all
  with p m show ?thesis by auto
qed



text \<open>
  The restriction is needed: a variable behind \<open>**\<close> keeps its position in the template, so in
  \<open>/{x=**}/{y=b}\<close> the path \<open>/p/q/b\<close>, which matches, binds \<open>y\<close> to \<open>q\<close>.
\<close>

lemma binding_behind_wildcard_path:
  "HttpTemplate_Parse ''/{x=**}/{y=b}'' = Some (Some ht) \<Longrightarrow>
   matches (TransformHttpTemplate ht) [''p'', ''q'', ''b''] \<and>
   ExtractBinding (ht_variables ht ! 1) [''p'', ''q'', ''b''] True =
     Some \<lparr>vb_field_path = [''y''], vb_value = ''q''\<rparr>"
proof -
  let ?ht = "\<lparr>ht_segments = [''**'', ''b''], ht_verb = [],
     ht_variables = [\<lparr>var_start_segment = 0, var_end_segment = - 2, var_field_path = [''x''],
                      var_has_wildcard_path = True\<rparr>,
                     \<lparr>var_start_segment = 1, var_end_segment = 2, var_field_path = [''y''],
                      var_has_wildcard_path = False\<rparr>]\<rparr>"
  have p: "HttpTemplate_Parse ''/{x=**}/{y=b}'' = Some (Some ?ht)" by code_simp
  assume "HttpTemplate_Parse ''/{x=**}/{y=b}'' = Some (Some ht)"
  with p have "ht = ?ht" by simp
  moreover have "matches (TransformHttpTemplate ?ht) [''p'', ''q'', ''b'']"
    "ExtractBinding (ht_variables ?ht ! 1) [''p'', ''q'', ''b''] True =
     Some \<lparr>vb_field_path = [''y''], vb_value = ''q''\<rparr>" by code_simp+
  ultimately show ?thesis by simp
qed

section \<open>The matcher as a path index\<close>

definition matcher_insert ::
    "PathInfo \<Rightarrow> string \<Rightarrow> 'm MethodData \<Rightarrow> 'm PathMatcher \<Rightarrow> bool \<times> 'm PathMatcher" where
  "matcher_insert ks m md b =
     (let (ok, root) = InsertPath ks m (Some (length (pm_methods b))) True (pm_root b);
          b = b\<lparr>pm_root := root\<rparr>
      in (ok, if ok then b\<lparr>pm_methods := pm_methods b @ [md]\<rparr> else b))"

definition matcher_lookup :: "'m PathMatcher \<Rightarrow> string list \<Rightarrow> string \<Rightarrow> 'm MethodData option" where
  "matcher_lookup pm ps m = Option.bind (trie_lookup (pm_root pm) ps m) (\<lambda>i. deref i pm)"

definition matcher_entry :: "'m PathMatcher \<Rightarrow> string list \<Rightarrow> string \<Rightarrow> 'm MethodData option" where
  "matcher_entry pm ks m = Option.bind (trie_entry (pm_root pm) ks m) (\<lambda>i. deref i pm)"

text \<open>No dangling pointers: every payload in the trie is an index of \<open>methods_\<close>.\<close>

definition matcher_ok :: "'m PathMatcher \<Rightarrow> bool" where
  "matcher_ok pm \<longleftrightarrow> trie_ok (pm_root pm) \<and>
     (\<forall>ks m i. trie_entry (pm_root pm) ks m = Some i \<longrightarrow> i < length (pm_methods pm))"

lemma best_match_bind:
  assumes "best_match E ps m a" "\<And>ks m i. E ks m = Some i \<Longrightarrow> f i \<noteq> None"
  shows "best_match (\<lambda>ks m. Option.bind (E ks m) f) ps m (Option.bind a f)"
proof -
  have s: "served (\<lambda>ks m. Option.bind (E ks m) f) ks m = Option.bind (served E ks m) f" for ks
    using assms(2) [of ks] by (force simp: served_def split: option.splits)
  have "f i \<noteq> None" if "served E ks m = Some i" for ks i
    using that assms(2) by (auto simp: served_def split: option.splits)
  then have n: "Option.bind (served E ks m) f = None \<longleftrightarrow> served E ks m = None" for ks
    by (cases "served E ks m") auto
  show ?thesis
  proof (cases a)
    case None
    with assms(1) show ?thesis by (simp add: best_match_def s)
  next
    case (Some i)
    with assms(1) obtain ks where k: "matches ks ps" "served E ks m = Some i"
      "\<forall>ks'. matches ks' ps \<and> served E ks' m \<noteq> None \<longrightarrow> wins ps ks ks'"
      by (auto simp: best_match_def)
    with n [of ks] obtain d where "f i = Some d" by auto
    with Some k n s show ?thesis by (auto simp: best_match_def intro!: exI [of _ ks])
  qed
qed

lemma matcher_insert_eqs:
  fixes b :: "'m PathMatcher"
  defines "i \<equiv> length (pm_methods b)"
  shows "fst (matcher_insert ks m md b) = fst (trie_insert ks m i (pm_root b))"
    and "pm_root (snd (matcher_insert ks m md b)) = snd (trie_insert ks m i (pm_root b))"
    and "pm_methods (snd (matcher_insert ks m md b)) =
      pm_methods b @ (if fst (trie_insert ks m i (pm_root b)) then [md] else [])"
  by (simp_all add: matcher_insert_def trie_insert_def i_def Let_def split: prod.splits)

lemma deref_append: "i < length (pm_methods b) \<Longrightarrow> pm_methods b' = pm_methods b @ x \<Longrightarrow> deref i b' = deref i b"
  by (simp add: deref_def nth_append)

interpretation matcher: path_index new_PathMatcherBuilder matcher_insert matcher_lookup matcher_entry matcher_ok
proof
  show "matcher_ok new_PathMatcherBuilder"
    using trie.ok_new by (simp add: matcher_ok_def new_PathMatcherBuilder_def trie.ent_new)
  show "matcher_entry new_PathMatcherBuilder ks m = None" for ks m
    by (simp add: matcher_entry_def new_PathMatcherBuilder_def trie.ent_new)
  fix n :: "'a PathMatcher" and ks m d
  assume ok: "matcher_ok n"
  let ?i = "length (pm_methods n)" and ?n' = "snd (matcher_insert ks m d n)"
  have r: "trie_ok (pm_root n)" and lt: "\<And>ks m i. trie_entry (pm_root n) ks m = Some i \<Longrightarrow> i < ?i"
    using ok by (auto simp: matcher_ok_def)
  note e = matcher_insert_eqs [of ks m d n]
  have fst: "fst (trie_insert ks m ?i (pm_root n)) \<longleftrightarrow> trie_entry (pm_root n) ks m = None"
    using trie.fst_ins [OF r] .
  have none: "matcher_entry n ks m = None \<longleftrightarrow> trie_entry (pm_root n) ks m = None" for ks m
    using lt [of ks m] by (cases "trie_entry (pm_root n) ks m") (auto simp: matcher_entry_def deref_def)
  show "matcher_ok ?n'" if "valid_path ks"
    using trie.ok_ins [OF r that] lt
    by (auto simp: matcher_ok_def e trie.ent_ins [OF r] fst less_Suc_eq split: if_splits)
  show "fst (matcher_insert ks m d n) \<longleftrightarrow> matcher_entry n ks m = None" by (simp add: e fst none)
  show "matcher_entry ?n' ks' m' =
      (if ks' = ks \<and> m' = m \<and> matcher_entry n ks m = None then Some d else matcher_entry n ks' m')" for ks' m'
  proof (cases "ks' = ks \<and> m' = m \<and> trie_entry (pm_root n) ks m = None")
    case True
    then show ?thesis by (simp add: none) (simp add: matcher_entry_def e trie.ent_ins [OF r] fst deref_def)
  next
    case False
    then have "trie_entry (pm_root ?n') ks' m' = trie_entry (pm_root n) ks' m'"
      by (auto simp: e trie.ent_ins [OF r])
    with False show ?thesis
      unfolding none using lt [of ks' m'] deref_append [OF _ e(3)]
      by (cases "trie_entry (pm_root n) ks' m'") (auto simp: matcher_entry_def)
  qed
  show "best_match (matcher_entry n) ps m (matcher_lookup n ps m)" for ps
    using best_match_bind [OF trie.look_best [OF r], where f = "\<lambda>i. deref i n"] lt
    by (auto simp: matcher_entry_def [abs_def] matcher_lookup_def deref_def)
qed

section \<open>Registered rules\<close>

text \<open>A rule is an HTTP method, a template, a body field path and the method it selects.\<close>

type_synonym 'm rule = "string \<times> string \<times> string \<times> 'm"

fun register_all :: "'m rule list \<Rightarrow> 'm PathMatcher \<Rightarrow> 'm PathMatcher option" where
  "register_all [] b = Some b"
| "register_all ((m, t, body, meth) # rules) b =
     (case Register m t body meth b of None \<Rightarrow> None | Some (ok, b) \<Rightarrow> register_all rules b)"

text \<open>What the rules mean: for each template that parses, its keys and method, and its data.\<close>

definition registrations :: "'m rule list \<Rightarrow> ((string list \<times> string) \<times> 'm MethodData) list" where
  "registrations rules =
     concat (map (\<lambda>(m, t, body, meth).
       case HttpTemplate_Parse t of
         Some (Some ht) \<Rightarrow>
           [((TransformHttpTemplate ht, m),
             \<lparr>md_method = meth, md_variables = ht_variables ht, md_body_field_path = body\<rparr>)]
       | _ \<Rightarrow> []) rules)"

definition verb_ok :: "string \<Rightarrow> bool" where
  "verb_ok t =
     (case HttpTemplate_Parse t of
        Some (Some ht) \<Rightarrow> ht_verb ht \<noteq> kWildCardPathPartKey \<and> ht_verb ht \<noteq> kWildCardPathKey
      | _ \<Rightarrow> True)"

definition rule_ok :: "'m rule \<Rightarrow> bool" where
  "rule_ok r = (case r of (m, t, body, meth) \<Rightarrow> length t < 2 ^ 31 \<and> verb_ok t)"

lemma ValidateParts_valid_path: "ValidateParts_loop False ss \<Longrightarrow> valid_path ss"
proof (induction ss)
  case (Cons s ss)
  have "ValidateParts_loop True xs \<Longrightarrow> list_all is_const xs" for xs
    by (induction xs) (auto simp: is_const_def split: if_splits)
  with Cons show ?case by (auto split: if_splits)
qed simp

lemma valid_path_snoc: "valid_path ks \<Longrightarrow> is_const v \<Longrightarrow> valid_path (ks @ [v])"
  by (induction ks) (auto simp: is_const_def)

lemma parsed_valid_path:
  assumes "HttpTemplate_Parse t = Some (Some ht)" "length t < 2 ^ 31"
    and "ht_verb ht \<noteq> kWildCardPathPartKey" "ht_verb ht \<noteq> kWildCardPathKey"
  shows "valid_path (TransformHttpTemplate ht)"
  using assms(1,2)
proof (cases rule: HttpTemplate_Parse_denote)
  case (2 u)
  have "ht_verb ht \<noteq> kSingleParameterKey"
    using 2 by (auto simp: denote_def wf_template_def litc_def wildcard_keys)
  with 2 ValidateParts_valid_path [OF 2(4)] assms(3,4) show ?thesis
    by (simp add: TransformHttpTemplate_eq denote_def valid_path_snoc is_const_def)
qed (simp add: TransformHttpTemplate_eq)

lemma registrations_valid:
  "list_all rule_ok rules \<Longrightarrow> list_all (\<lambda>r. valid_path (fst (fst r))) (registrations rules)"
proof (induction rules)
  case (Cons r rules)
  obtain m t body meth where r: "r = (m, t, body, meth)" by (cases r)
  have "valid_path (TransformHttpTemplate ht)" if "HttpTemplate_Parse t = Some (Some ht)" for ht
    using Cons.prems r that by (intro parsed_valid_path [OF that]) (simp_all add: rule_ok_def verb_ok_def)
  with Cons r show ?case by (auto simp: registrations_def split: option.splits)
qed (simp add: registrations_def)

definition no_verbs :: "'m PathMatcher \<Rightarrow> 'm PathMatcher" where
  "no_verbs b = b\<lparr>pm_custom_verbs := {}\<rparr>"

lemma no_verbs_insert: "snd (matcher_insert ks m md (no_verbs b)) = no_verbs (snd (matcher_insert ks m md b))"
  by (cases b) (auto simp: matcher_insert_def no_verbs_def Let_def split: prod.splits)

lemma Register_insert:
  assumes "HttpTemplate_Parse t = Some (Some ht)"
  shows "\<exists>ok b'. Register m t body meth b = Some (ok, b') \<and>
    no_verbs b' = snd (matcher_insert (TransformHttpTemplate ht) m
      \<lparr>md_method = meth, md_variables = ht_variables ht, md_body_field_path = body\<rparr> (no_verbs b))"
  using assms
  by (auto simp: Register_def matcher_insert_def no_verbs_def Let_def split: prod.splits)

lemma register_all_insert_all:
  assumes "list_all rule_ok rules"
  shows "\<exists>b'. register_all rules b = Some b' \<and>
    no_verbs b' = matcher.insert_all (registrations rules) (no_verbs b)"
  using assms
proof (induction rules arbitrary: b)
  case Nil
  show ?case by (simp add: registrations_def)
next
  case (Cons r rules)
  obtain m t body meth where r: "r = (m, t, body, meth)" by (cases r)
  have len: "length t < 2 ^ 31" using Cons.prems r by (simp add: rule_ok_def)
  show ?case
  proof (cases "HttpTemplate_Parse t")
    case None
    with HttpTemplate_Parse_eq [OF len] show ?thesis
      by (cases "t = ''/''") (auto simp: HttpTemplate_Parse_def)
  next
    case (Some o')
    show ?thesis
    proof (cases o')
      case None
      with Some r Cons show ?thesis by (simp add: Register_def registrations_def)
    next
      case (Some ht)
      with \<open>HttpTemplate_Parse t = Some o'\<close> have p: "HttpTemplate_Parse t = Some (Some ht)" by simp
      obtain ok b1 where b1: "Register m t body meth b = Some (ok, b1)"
        "no_verbs b1 = snd (matcher_insert (TransformHttpTemplate ht) m
          \<lparr>md_method = meth, md_variables = ht_variables ht, md_body_field_path = body\<rparr> (no_verbs b))"
        using Register_insert [OF p, of m body meth b] by blast
      with Cons.IH [of b1] Cons.prems p r show ?thesis by (simp add: registrations_def)
    qed
  qed
qed

lemma no_verbs_sel [simp]:
  "pm_root (no_verbs b) = pm_root b" "pm_methods (no_verbs b) = pm_methods b" "deref i (no_verbs b) = deref i b"
  by (simp_all add: no_verbs_def deref_def)

lemma no_verbs_new [simp]: "no_verbs new_PathMatcherBuilder = new_PathMatcherBuilder"
  by (simp add: no_verbs_def new_PathMatcherBuilder_def)

lemma Lookup_matcher:
  assumes "matcher_ok (no_verbs pm)"
  shows "Lookup m path pm =
    Some (map_option md_method (matcher_lookup (no_verbs pm) (ExtractRequestParts path (pm_custom_verbs pm)) m))"
proof -
  let ?ps = "ExtractRequestParts path (pm_custom_verbs pm)"
  have ok: "trie_ok (pm_root pm)" using assms by (simp add: matcher_ok_def)
  have "i < length (pm_methods pm)" if i: "trie_lookup (pm_root pm) ?ps m = Some i" for i
  proof -
    obtain ks where "served (trie_entry (pm_root pm)) ks m = Some i"
      using trie.look_best [OF ok, of ?ps m] i by (auto simp: best_match_def)
    then show ?thesis using assms by (auto simp: served_def matcher_ok_def split: option.splits)
  qed
  then show ?thesis
    by (cases "trie_lookup (pm_root pm) ?ps m")
      (auto simp: Lookup_def LookupInPathMatcherNode_def trie_lookup_def matcher_lookup_def Let_def deref_def)
qed

lemma registered_matcher:
  assumes "list_all rule_ok rules"
  obtains pm where "register_all rules new_PathMatcherBuilder = Some pm" "matcher_ok (no_verbs pm)"
    "\<And>ps m. best_match (\<lambda>ks m. map_of (registrations rules) (ks, m)) ps m (matcher_lookup (no_verbs pm) ps m)"
proof -
  note v = registrations_valid [OF assms]
  obtain pm where pm: "register_all rules new_PathMatcherBuilder = Some pm"
    "no_verbs pm = matcher.insert_all (registrations rules) new_PathMatcherBuilder"
    using register_all_insert_all [OF assms, of new_PathMatcherBuilder] by auto
  show ?thesis
    using that [OF pm(1)] matcher.insert_all_ok [OF matcher.ok_new v] matcher.insert_all_lookup [OF v] pm(2)
    by simp
qed



lemma StrSplit_length: "length (StrSplit c s) \<le> Suc (length s)"
  by (induction s) (auto split: list.splits)

lemma drop_empty_tail_length: "length (drop_empty_tail xs) \<le> length xs"
  by (induction xs rule: drop_empty_tail.induct) (subst drop_empty_tail.simps, auto)

lemma split_length:
  "length p \<le> n \<Longrightarrow>
   length (drop_empty_tail (if p \<noteq> [] then StrSplit (CHR ''/'') (drop 1 p) else [])) \<le> Suc n"
  using drop_empty_tail_length [of "if p \<noteq> [] then StrSplit (CHR ''/'') (drop 1 p) else []"]
    StrSplit_length [of "CHR ''/''" "drop 1 p"] by (auto split: if_splits)

lemma ExtractRequestParts_length: "length (ExtractRequestParts path V) \<le> Suc (length path)"
  unfolding ExtractRequestParts_def Let_def
  by (rule split_length) (simp add: substr_to_def split: option.splits)

lemma registrations_parsed:
  assumes "list_all rule_ok rules" "map_of (registrations rules) (ks, m) = Some md"
  shows "\<exists>t ht. HttpTemplate_Parse t = Some (Some ht) \<and> length t < 2 ^ 31 \<and>
    TransformHttpTemplate ht = ks \<and> md_variables md = ht_variables ht"
  using assms
proof (induction rules)
  case (Cons r rules)
  obtain m' t body meth where r: "r = (m', t, body, meth)" by (cases r)
  with Cons show ?case
    by (auto simp: registrations_def rule_ok_def split: option.splits if_splits
        intro!: exI [of _ t])
qed (simp add: registrations_def)

text \<open>Both lookups in one statement: the winning rule, and its bindings read off the path.\<close>

lemma registered_lookup:
  assumes "list_all rule_ok rules" "length path < 2 ^ 62"
    and "register_all rules new_PathMatcherBuilder = Some pm"
  defines "ps \<equiv> ExtractRequestParts path (pm_custom_verbs pm)"
  obtains (none) "best_match (\<lambda>ks m. map_of (registrations rules) (ks, m)) ps m None"
      "Lookup m path pm = Some None" "Lookup_bindings m path bs0 pm = Some (None, bs0)"
  | (found) md bs where "best_match (\<lambda>ks m. map_of (registrations rules) (ks, m)) ps m (Some md)"
      "ExtractBindingsFromPath (md_variables md) ps [] True = Some bs"
      "Lookup m path pm = Some (Some (md_method md))"
      "Lookup_bindings m path bs0 pm = Some (Some (md_method md), bs)"
proof -
  have ok: "matcher_ok (no_verbs pm)" and
    best: "best_match (\<lambda>ks m. map_of (registrations rules) (ks, m)) ps m (matcher_lookup (no_verbs pm) ps m)"
    using registered_matcher [OF assms(1)] assms(3) by (metis option.inject)+
  note L = Lookup_matcher [OF ok, of m path, folded ps_def]
  show thesis
  proof (cases "matcher_lookup (no_verbs pm) ps m")
    case None
    with L have "Lookup m path pm = Some None" "Lookup_bindings m path bs0 pm = Some (None, bs0)"
      by (auto simp: Lookup_def Lookup_bindings_def Let_def ps_def split: option.splits)
    with None best show thesis by (auto intro: none)
  next
    case (Some md)
    with best obtain ks where ks: "matches ks ps"
      "served (\<lambda>ks m. map_of (registrations rules) (ks, m)) ks m = Some md" by (auto simp: best_match_def)
    then obtain t ht where ht: "HttpTemplate_Parse t = Some (Some ht)" "length t < 2 ^ 31"
      "TransformHttpTemplate ht = ks" "md_variables md = ht_variables ht"
      using registrations_parsed [OF assms(1), of ks] by (auto simp: served_def split: option.splits)
    have "length ps < 2 ^ 63"
      using ExtractRequestParts_length [of path "pm_custom_verbs pm"] assms(2) by (simp add: ps_def)
    then obtain bs where bs: "ExtractBindingsFromPath (md_variables md) ps [] True = Some bs"
      using ExtractBindingsFromPath_eq [of "ht_variables ht" ps "[]" True] ht(4)
        parsed_variable_in_range [OF ht(1,2), of ps] ht(3) ks(1) by auto
    moreover obtain i where "lr_data (LookupInPathMatcherNode (pm_root pm) ps m) = Some i" "deref i pm = Some md"
      using Some by (auto simp: matcher_lookup_def trie_lookup_def LookupInPathMatcherNode_def bind_eq_Some_conv)
    ultimately have "Lookup_bindings m path bs0 pm = Some (Some (md_method md), bs)"
      by (simp add: Lookup_bindings_def Let_def flip: ps_def)
    with found L Some best bs show thesis by simp
  qed
qed

text \<open>
  C9: the lookup with bindings agrees with the plain lookup, and extracts the bindings without
  reading outside the path; where nothing matches it leaves the bindings as they were.
\<close>

theorem Lookup_bindings_registered:
  assumes "list_all rule_ok rules" "length path < 2 ^ 62"
    and "register_all rules new_PathMatcherBuilder = Some pm"
  shows "\<exists>r bs. Lookup m path pm = Some r \<and> Lookup_bindings m path bs0 pm = Some (r, bs) \<and>
    (r = None \<longrightarrow> bs = bs0)"
  by (rule registered_lookup [OF assms, of m bs0]) auto

theorem Lookup_bindings_registered_witness:
  "\<exists>pm r bs. register_all [(''GET'', ''/a/{x}'', [], 1 :: nat)] new_PathMatcherBuilder = Some pm \<and>
     Lookup ''GET'' ''/a/b'' pm = Some r \<and> Lookup_bindings ''GET'' ''/a/b'' [] pm = Some (r, bs)"
proof -
  have "verb_ok ''/a/{x}''" by code_simp
  then have r: "list_all rule_ok [(''GET'', ''/a/{x}'', [], 1 :: nat)]" by (simp add: rule_ok_def)
  obtain pm :: "nat PathMatcher" where
    pm: "register_all [(''GET'', ''/a/{x}'', [], 1 :: nat)] new_PathMatcherBuilder = Some pm"
    using registered_matcher [OF r] by blast
  have "length ''/a/b'' < (2 ^ 62 :: nat)" by simp
  from Lookup_bindings_registered [OF r this pm, of "''GET''" "[]"] pm show ?thesis by blast
qed

end
