(* ===== verification/RequestInfo.thy ===== *)
theory RequestInfo
  imports ESP_Prelude "HOL-Library.Signed_Division"
begin

text \<open>
  The plain data of the Service Control library: \<open>api_proxy/service_control/request_info.h\<close>,
  the status values of \<open>google::protobuf::util::Status\<close>, and the fields of the Service Control
  messages (\<open>Operation\<close>, \<open>CheckRequest\<close>, \<open>ReportRequest\<close>,
  \<open>AllocateQuotaRequest\<close>, \<open>LogEntry\<close> and their parts) that the code reads or writes.

  C++ inheritance of the info structs is record extension. A \<open>double\<close> is kept as the
  expression that the code computes, because only the code outside this repository looks at it;
  an unset protobuf string is the empty string, as its getter returns. Time points are
  nanoseconds since the epoch.
\<close>

section \<open>Status\<close>

datatype Code = OK | CANCELLED | UNKNOWN | INVALID_ARGUMENT | DEADLINE_EXCEEDED | NOT_FOUND
  | ALREADY_EXISTS | PERMISSION_DENIED | RESOURCE_EXHAUSTED | FAILED_PRECONDITION | ABORTED
  | OUT_OF_RANGE | UNIMPLEMENTED | INTERNAL | UNAVAILABLE | DATA_LOSS | UNAUTHENTICATED

record Status =
  st_code :: Code
  st_message :: string

definition Status_OK :: Status where
  "Status_OK = \<lparr>st_code = OK, st_message = []\<rparr>"

definition Status_of :: "Code \<Rightarrow> string \<Rightarrow> Status" where
  "Status_of c msg = \<lparr>st_code = c, st_message = msg\<rparr>"

definition st_ok :: "Status \<Rightarrow> bool" where
  "st_ok s \<longleftrightarrow> st_code s = OK"

lemma st_ok_simps [simp]: "st_ok Status_OK" "st_ok (Status_of c msg) \<longleftrightarrow> c = OK"
    "st_code Status_OK = OK" "st_code (Status_of c msg) = c"
  by (simp_all add: st_ok_def Status_OK_def Status_of_def)

section \<open>Decimal numbers\<close>

fun nat_to_string :: "nat \<Rightarrow> string" where
  "nat_to_string n =
     (if n < 10 then [char_of (48 + n)] else nat_to_string (n div 10) @ [char_of (48 + n mod 10)])"

declare nat_to_string.simps [simp del]

definition to_string :: "int \<Rightarrow> string" where
  "to_string i = (if i < 0 then ''-'' @ nat_to_string (nat (- i)) else nat_to_string (nat i))"

section \<open>Protocols\<close>

datatype Protocol = UNKNOWN_PROTOCOL | HTTP | HTTPS | GRPC

fun protocol_ToString :: "Protocol \<Rightarrow> string" where
  "protocol_ToString HTTP = ''http''"
| "protocol_ToString HTTPS = ''https''"
| "protocol_ToString GRPC = ''grpc''"
| "protocol_ToString UNKNOWN_PROTOCOL = ''unknown''"

section \<open>What the filters pass in\<close>

record LatencyInfo =
  li_request_time_ms :: int
  li_backend_time_ms :: int
  li_overhead_time_ms :: int

definition new_LatencyInfo :: LatencyInfo where
  "new_LatencyInfo = \<lparr>li_request_time_ms = - 1, li_backend_time_ms = - 1, li_overhead_time_ms = - 1\<rparr>"

record OperationInfo =
  operation_id :: string
  operation_name :: string
  producer_project_id :: string
  api_key :: string
  referer :: string
  current_time :: int
  client_ip :: string
  client_host :: string

record CheckRequestInfo = OperationInfo +
  android_package_name :: string
  android_cert_fingerprint :: string
  ios_bundle_id :: string

record CheckResponseInfo =
  is_api_key_valid :: bool
  service_is_activated :: bool
  consumer_project_id :: string

definition new_CheckResponseInfo :: CheckResponseInfo where
  "new_CheckResponseInfo =
     \<lparr>is_api_key_valid = True, service_is_activated = True, consumer_project_id = []\<rparr>"

record QuotaRequestInfo = OperationInfo +
  method_name :: string
  metric_cost_vector :: "(string \<times> int) list option"

record ReportRequestInfo = OperationInfo +
  response_code :: int
  rri_status :: Status
  rri_url :: string
  location :: string
  api_name :: string
  api_version :: string
  api_method :: string
  request_size :: int
  response_size :: int
  latency :: LatencyInfo
  log_message :: string
  auth_issuer :: string
  auth_audience :: string
  frontend_protocol :: Protocol
  backend_protocol :: Protocol
  http_method :: string
  compute_platform :: string
  check_response_info :: CheckResponseInfo
  request_bytes :: int
  request_headers :: string
  response_bytes :: int
  response_headers :: string
  jwt_payloads :: string
  streaming_request_message_counts :: int
  streaming_response_message_counts :: int
  streaming_durations :: int
  is_first_report :: bool
  is_final_report :: bool

definition new_CheckRequestInfo :: CheckRequestInfo where
  "new_CheckRequestInfo =
     \<lparr>operation_id = [], operation_name = [], producer_project_id = [], api_key = [], referer = [],
      current_time = 0, client_ip = [], client_host = [],
      android_package_name = [], android_cert_fingerprint = [], ios_bundle_id = []\<rparr>"

definition new_ReportRequestInfo :: ReportRequestInfo where
  "new_ReportRequestInfo =
     \<lparr>operation_id = [], operation_name = [], producer_project_id = [], api_key = [], referer = [],
      current_time = 0, client_ip = [], client_host = [],
      response_code = 200, rri_status = Status_OK, rri_url = [], location = [], api_name = [],
      api_version = [], api_method = [], request_size = - 1, response_size = - 1,
      latency = new_LatencyInfo, log_message = [], auth_issuer = [], auth_audience = [],
      frontend_protocol = UNKNOWN_PROTOCOL, backend_protocol = UNKNOWN_PROTOCOL, http_method = [],
      compute_platform = ''UNKNOWN(ESPv2)'', check_response_info = new_CheckResponseInfo,
      request_bytes = 0, request_headers = [], response_bytes = 0, response_headers = [],
      jwt_payloads = [], streaming_request_message_counts = 0, streaming_response_message_counts = 0,
      streaming_durations = 0, is_first_report = True, is_final_report = True\<rparr>"

section \<open>Messages\<close>

datatype double = Of_int int | Ms_to_secs int | Secs_nanos int int

record Timestamp =
  ts_seconds :: int
  ts_nanos :: int

datatype 'd metric_value = Unset | Int64_value int | Distribution_value 'd

record 'd MetricValueSet =
  mvs_metric_name :: string
  mvs_metric_values :: "'d metric_value list"

datatype log_value = Number_value double | String_value string

datatype Severity = INFO | ERROR

record LogEntry =
  le_name :: string
  le_timestamp :: Timestamp
  le_severity :: Severity
  le_fields :: "(string \<times> log_value) list"

record 'd Operation =
  op_operation_id :: string
  op_operation_name :: string
  op_consumer_id :: string
  op_start_time :: "Timestamp option"
  op_end_time :: "Timestamp option"
  op_labels :: "(string \<times> string) list"
  op_metric_value_sets :: "'d MetricValueSet list"
  op_log_entries :: "LogEntry list"

definition new_Operation :: "'d Operation" where
  "new_Operation =
     \<lparr>op_operation_id = [], op_operation_name = [], op_consumer_id = [], op_start_time = None,
      op_end_time = None, op_labels = [], op_metric_value_sets = [], op_log_entries = []\<rparr>"

record 'd CheckRequest =
  cr_service_name :: string
  cr_service_config_id :: string
  cr_operation :: "'d Operation"

record 'd ReportRequest =
  rr_service_name :: string
  rr_service_config_id :: string
  rr_operations :: "'d Operation list"

datatype QuotaMode = QUOTA_UNSPECIFIED | BEST_EFFORT

record 'd QuotaOperation =
  qo_operation_id :: string
  qo_method_name :: string
  qo_consumer_id :: string
  qo_quota_mode :: QuotaMode
  qo_labels :: "(string \<times> string) list"
  qo_quota_metrics :: "'d MetricValueSet list"

record 'd AllocateQuotaRequest =
  aq_service_name :: string
  aq_service_config_id :: string
  aq_allocate_operation :: "'d QuotaOperation"

text \<open>The error codes that \<open>ConvertCheckResponse\<close> names, and the number of any other.\<close>

datatype CheckErrorCode = CE_NOT_FOUND | CE_API_KEY_NOT_FOUND | CE_API_KEY_EXPIRED
  | CE_API_KEY_INVALID | CE_SERVICE_NOT_ACTIVATED | CE_PERMISSION_DENIED | CE_IP_ADDRESS_BLOCKED
  | CE_REFERER_BLOCKED | CE_CLIENT_APP_BLOCKED | CE_PROJECT_DELETED | CE_PROJECT_INVALID
  | CE_BILLING_DISABLED | CE_SECURITY_POLICY_VIOLATED | CE_INVALID_CREDENTIAL
  | CE_LOCATION_POLICY_VIOLATED | CE_CONSUMER_INVALID | CE_NAMESPACE_LOOKUP_UNAVAILABLE
  | CE_SERVICE_STATUS_UNAVAILABLE | CE_BILLING_STATUS_UNAVAILABLE | CE_QUOTA_CHECK_UNAVAILABLE
  | CE_CLOUD_RESOURCE_MANAGER_BACKEND_UNAVAILABLE | CE_SECURITY_POLICY_BACKEND_UNAVAILABLE
  | CE_LOCATION_POLICY_BACKEND_UNAVAILABLE | CE_other int

record CheckResponse =
  consumer_project_number :: int
  check_errors :: "CheckErrorCode list"

datatype QuotaErrorCode = QE_UNSPECIFIED | QE_RESOURCE_EXHAUSTED | QE_BILLING_NOT_ACTIVE
  | QE_PROJECT_DELETED | QE_API_KEY_INVALID | QE_API_KEY_EXPIRED | QE_other int

record QuotaError =
  qe_code :: QuotaErrorCode
  qe_description :: string

record AllocateQuotaResponse =
  allocate_errors :: "QuotaError list"

end
