(* ===== verification/RequestBuilder.thy ===== *)
theory RequestBuilder
  imports RequestInfo Complex_Main
begin

text \<open>
  The Service Control request builder, \<open>api_proxy/service_control/request_builder.{h,cc}\<close>:
  the tables of supported metrics and labels with their setters, the three request fillers, and
  the conversion of responses to statuses.

  Code outside the repository is the record \<open>env\<close>: the product version, the Base64Url encoder,
  the numbers of the status codes, and the two operations of \<open>DistributionHelper\<close>. A setter
  gets the name of its table row, which is all it reads of it, and returns its status with the
  changed operation or labels. The negative indexes that a negative HTTP status would give in
  \<open>error_types\<close> are out of range in C++; here they leave the label unset.
\<close>

section \<open>Surroundings\<close>

record DistributionHelperOptions =
  dho_buckets :: int
  dho_growth :: rat
  dho_scale :: rat

record 'd env =
  env_version :: string
  env_base64url :: "string \<Rightarrow> string"
  env_code_number :: "Code \<Rightarrow> int"
  env_InitExponential :: "DistributionHelperOptions \<Rightarrow> Status \<times> 'd"
  env_AddSample :: "double \<Rightarrow> 'd \<Rightarrow> Status \<times> 'd"

section \<open>Tables\<close>

datatype MetricKind = DELTA | MetricKind_other int
datatype ValueType = INT64 | DISTRIBUTION | STRING | ValueType_other int
datatype Tag = START | INTERMEDIATE | FINAL
datatype Mark = PRODUCER | CONSUMER | PRODUCER_BY_CONSUMER
datatype LabelKind = USER | SYSTEM

type_synonym labels = "(string \<times> string) list"
type_synonym 'd metric_setter =
  "'d env \<Rightarrow> string \<Rightarrow> ReportRequestInfo \<Rightarrow> 'd Operation \<Rightarrow> Status \<times> 'd Operation"
type_synonym 'd label_setter =
  "'d env \<Rightarrow> string \<Rightarrow> ReportRequestInfo \<Rightarrow> labels \<Rightarrow> Status \<times> labels"

record 'd SupportedMetric =
  sm_name :: string
  sm_metric_kind :: MetricKind
  sm_value_type :: ValueType
  sm_tag :: Tag
  sm_mark :: Mark
  sm_set :: "'d metric_setter option"

record 'd SupportedLabel =
  sl_name :: string
  sl_value_type :: ValueType
  sl_kind :: LabelKind
  sl_set :: "'d label_setter option"
  sl_by_consumer_only :: bool

definition SupportedMetric_row where
  "SupportedMetric_row n k v t m s =
     \<lparr>sm_name = n, sm_metric_kind = k, sm_value_type = v, sm_tag = t, sm_mark = m, sm_set = s\<rparr>"

definition SupportedLabel_row where
  "SupportedLabel_row n v k s b =
     \<lparr>sl_name = n, sl_value_type = v, sl_kind = k, sl_set = s, sl_by_consumer_only = b\<rparr>"

section \<open>Metric helpers\<close>

text \<open>\<open>AddMetricValue\<close> takes the value that its callers store through the returned pointer.\<close>

definition AddMetricValue :: "string \<Rightarrow> 'd metric_value \<Rightarrow> 'd Operation \<Rightarrow> 'd Operation" where
  "AddMetricValue metric_name v operation =
     operation\<lparr>op_metric_value_sets := op_metric_value_sets operation @
       [\<lparr>mvs_metric_name = metric_name, mvs_metric_values = [v]\<rparr>]\<rparr>"

definition AddInt64Metric :: "string \<Rightarrow> int \<Rightarrow> 'd Operation \<Rightarrow> 'd Operation" where
  "AddInt64Metric metric_name v operation = AddMetricValue metric_name (Int64_value v) operation"

definition time_distribution :: DistributionHelperOptions where
  "time_distribution = \<lparr>dho_buckets = 29, dho_growth = 2, dho_scale = 1 / 1000000\<rparr>"

definition size_distribution :: DistributionHelperOptions where
  "size_distribution = \<lparr>dho_buckets = 8, dho_growth = 10, dho_scale = 1\<rparr>"

text \<open>The value is added first and stays without a distribution when the helper fails.\<close>

definition AddDistributionMetric ::
    "'d env \<Rightarrow> DistributionHelperOptions \<Rightarrow> string \<Rightarrow> double \<Rightarrow> 'd Operation \<Rightarrow> Status \<times> 'd Operation" where
  "AddDistributionMetric env options metric_name v operation =
     (case env_InitExponential env options of (status, distribution) \<Rightarrow>
        if \<not> st_ok status then (status, AddMetricValue metric_name Unset operation)
        else
          (case env_AddSample env v distribution of (status, distribution) \<Rightarrow>
             if \<not> st_ok status then (status, AddMetricValue metric_name Unset operation)
             else (Status_OK, AddMetricValue metric_name (Distribution_value distribution) operation)))"

section \<open>Metric setters\<close>

definition set_int64_metric_to_constant_1 :: "'d metric_setter" where
  "set_int64_metric_to_constant_1 env name info operation =
     (Status_OK, AddInt64Metric name 1 operation)"

definition set_int64_metric_to_constant_1_if_http_error :: "'d metric_setter" where
  "set_int64_metric_to_constant_1_if_http_error env name info operation =
     (Status_OK,
      if 400 \<le> response_code info then AddInt64Metric name 1 operation else operation)"

definition set_distribution_metric_to_request_size :: "'d metric_setter" where
  "set_distribution_metric_to_request_size env name info operation =
     (if 0 \<le> request_size info
      then AddDistributionMetric env size_distribution name (Of_int (request_size info)) operation
      else (Status_OK, operation))"

definition set_distribution_metric_to_response_size :: "'d metric_setter" where
  "set_distribution_metric_to_response_size env name info operation =
     (if 0 \<le> response_size info
      then AddDistributionMetric env size_distribution name (Of_int (response_size info)) operation
      else (Status_OK, operation))"

definition set_distribution_metric_to_request_time :: "'d metric_setter" where
  "set_distribution_metric_to_request_time env name info operation =
     (if 0 \<le> li_request_time_ms (latency info)
      then AddDistributionMetric env time_distribution name
             (Ms_to_secs (li_request_time_ms (latency info))) operation
      else (Status_OK, operation))"

definition set_distribution_metric_to_backend_time :: "'d metric_setter" where
  "set_distribution_metric_to_backend_time env name info operation =
     (if 0 \<le> li_backend_time_ms (latency info)
      then AddDistributionMetric env time_distribution name
             (Ms_to_secs (li_backend_time_ms (latency info))) operation
      else (Status_OK, operation))"

definition set_distribution_metric_to_overhead_time :: "'d metric_setter" where
  "set_distribution_metric_to_overhead_time env name info operation =
     (if 0 \<le> li_overhead_time_ms (latency info)
      then AddDistributionMetric env time_distribution name
             (Ms_to_secs (li_overhead_time_ms (latency info))) operation
      else (Status_OK, operation))"

definition set_int64_metric_to_request_bytes :: "'d metric_setter" where
  "set_int64_metric_to_request_bytes env name info operation =
     (Status_OK,
      if 0 < request_bytes info then AddInt64Metric name (request_bytes info) operation else operation)"

definition set_int64_metric_to_response_bytes :: "'d metric_setter" where
  "set_int64_metric_to_response_bytes env name info operation =
     (Status_OK,
      if 0 < response_bytes info then AddInt64Metric name (response_bytes info) operation else operation)"

definition set_distribution_metric_to_streaming_request_message_counts :: "'d metric_setter" where
  "set_distribution_metric_to_streaming_request_message_counts env name info operation =
     (Status_OK,
      if 0 < streaming_request_message_counts info
      then snd (AddDistributionMetric env size_distribution name
                  (Of_int (streaming_request_message_counts info)) operation)
      else operation)"

definition set_distribution_metric_to_streaming_response_message_counts :: "'d metric_setter" where
  "set_distribution_metric_to_streaming_response_message_counts env name info operation =
     (Status_OK,
      if 0 < streaming_response_message_counts info
      then snd (AddDistributionMetric env size_distribution name
                  (Of_int (streaming_response_message_counts info)) operation)
      else operation)"

definition set_distribution_metric_to_streaming_durations :: "'d metric_setter" where
  "set_distribution_metric_to_streaming_durations env name info operation =
     (Status_OK,
      if 0 < streaming_durations info
      then snd (AddDistributionMetric env time_distribution name
                  (Of_int (streaming_durations info)) operation)
      else operation)"

lemmas metric_setters =
  set_int64_metric_to_constant_1_def set_int64_metric_to_constant_1_if_http_error_def
  set_distribution_metric_to_request_size_def set_distribution_metric_to_response_size_def
  set_distribution_metric_to_request_time_def set_distribution_metric_to_backend_time_def
  set_distribution_metric_to_overhead_time_def set_int64_metric_to_request_bytes_def
  set_int64_metric_to_response_bytes_def
  set_distribution_metric_to_streaming_request_message_counts_def
  set_distribution_metric_to_streaming_response_message_counts_def
  set_distribution_metric_to_streaming_durations_def

section \<open>Label setters\<close>

definition kServiceControlCallerIp :: string where
  "kServiceControlCallerIp = ''servicecontrol.googleapis.com/caller_ip''"
definition kServiceControlReferer :: string where
  "kServiceControlReferer = ''servicecontrol.googleapis.com/referer''"
definition kServiceControlServiceAgent :: string where
  "kServiceControlServiceAgent = ''servicecontrol.googleapis.com/service_agent''"
definition kServiceControlUserAgent :: string where
  "kServiceControlUserAgent = ''servicecontrol.googleapis.com/user_agent''"
definition kServiceControlPlatform :: string where
  "kServiceControlPlatform = ''servicecontrol.googleapis.com/platform''"
definition kServiceControlAndroidPackageName :: string where
  "kServiceControlAndroidPackageName = ''servicecontrol.googleapis.com/android_package_name''"
definition kServiceControlAndroidCertFingerprint :: string where
  "kServiceControlAndroidCertFingerprint = ''servicecontrol.googleapis.com/android_cert_fingerprint''"
definition kServiceControlIosBundleId :: string where
  "kServiceControlIosBundleId = ''servicecontrol.googleapis.com/ios_bundle_id''"
definition kServiceControlBackendProtocol :: string where
  "kServiceControlBackendProtocol = ''servicecontrol.googleapis.com/backend_protocol''"
definition kServiceControlConsumerProject :: string where
  "kServiceControlConsumerProject = ''serviceruntime.googleapis.com/consumer_project''"
definition kUserAgent :: string where "kUserAgent = ''ESPv2''"
definition kServiceAgentPrefix :: string where "kServiceAgentPrefix = ''ESPv2/''"

lemmas label_names =
  kServiceControlCallerIp_def kServiceControlReferer_def kServiceControlServiceAgent_def
  kServiceControlUserAgent_def kServiceControlPlatform_def kServiceControlAndroidPackageName_def
  kServiceControlAndroidCertFingerprint_def kServiceControlIosBundleId_def
  kServiceControlBackendProtocol_def kServiceControlConsumerProject_def

definition get_service_agent :: "'d env \<Rightarrow> string" where
  "get_service_agent env = kServiceAgentPrefix @ env_version env"

abbreviation put :: "string \<Rightarrow> string \<Rightarrow> labels \<Rightarrow> labels" where
  "put \<equiv> AList.update"

definition put_nonempty :: "string \<Rightarrow> string \<Rightarrow> labels \<Rightarrow> labels" where
  "put_nonempty name v ls = (if v \<noteq> [] then put name v ls else ls)"

definition set_credential_id :: "'d label_setter" where
  "set_credential_id env name info ls =
     (Status_OK,
      if api_key info \<noteq> [] then put name (''apikey:'' @ api_key info) ls
      else if auth_issuer info \<noteq> [] then
        (let credential_id = ''jwtauth:issuer='' @ env_base64url env (auth_issuer info);
             credential_id =
               (if auth_audience info \<noteq> []
                then credential_id @ ''&audience='' @ env_base64url env (auth_audience info)
                else credential_id)
         in put name credential_id ls)
      else ls)"

definition error_types :: "string list" where
  "error_types = [''0xx'', ''1xx'', ''2xx'', ''3xx'', ''4xx'', ''5xx'', ''6xx'', ''7xx'', ''8xx'', ''9xx'']"

definition put_error_type :: "string \<Rightarrow> int \<Rightarrow> labels \<Rightarrow> labels" where
  "put_error_type name code ls =
     (let i = (code sdiv 100) smod 10 in if 0 \<le> i then put name (error_types ! nat i) ls else ls)"

definition set_error_type :: "'d label_setter" where
  "set_error_type env name info ls =
     (Status_OK, if 400 \<le> response_code info then put_error_type name (response_code info) ls else ls)"

definition set_protocol :: "'d label_setter" where
  "set_protocol env name info ls = (Status_OK, put name (protocol_ToString (frontend_protocol info)) ls)"

definition set_backend_protocol :: "'d label_setter" where
  "set_backend_protocol env name info ls =
     (Status_OK,
      if backend_protocol info = GRPC \<and> frontend_protocol info \<noteq> backend_protocol info
      then put name (protocol_ToString (backend_protocol info)) ls else ls)"

definition set_consumer_project :: "'d label_setter" where
  "set_consumer_project env name info ls =
     (Status_OK, put name (consumer_project_id (check_response_info info)) ls)"

definition set_referer :: "'d label_setter" where
  "set_referer env name info ls = (Status_OK, put_nonempty name (referer info) ls)"

definition set_response_code :: "'d label_setter" where
  "set_response_code env name info ls =
     (Status_OK, if \<not> is_final_report info then ls else put name (to_string (response_code info)) ls)"

definition set_response_code_class :: "'d label_setter" where
  "set_response_code_class env name info ls =
     (Status_OK, if \<not> is_final_report info then ls else put_error_type name (response_code info) ls)"

definition set_status_code :: "'d label_setter" where
  "set_status_code env name info ls =
     (Status_OK,
      if \<not> is_final_report info then ls
      else put name (to_string (env_code_number env (st_code (rri_status info)))) ls)"

definition set_location :: "'d label_setter" where
  "set_location env name info ls = (Status_OK, put_nonempty name (location info) ls)"

definition set_api_method :: "'d label_setter" where
  "set_api_method env name info ls = (Status_OK, put_nonempty name (api_method info) ls)"

definition set_api_version :: "'d label_setter" where
  "set_api_version env name info ls = (Status_OK, put_nonempty name (api_version info) ls)"

definition set_platform :: "'d label_setter" where
  "set_platform env name info ls = (Status_OK, put name (compute_platform info) ls)"

definition set_service_agent :: "'d label_setter" where
  "set_service_agent env name info ls = (Status_OK, put name (get_service_agent env) ls)"

definition set_user_agent :: "'d label_setter" where
  "set_user_agent env name info ls = (Status_OK, put name kUserAgent ls)"

lemmas label_setters =
  set_credential_id_def set_error_type_def set_protocol_def set_backend_protocol_def
  set_consumer_project_def set_referer_def set_response_code_def set_response_code_class_def
  set_status_code_def set_location_def set_api_method_def set_api_version_def set_platform_def
  set_service_agent_def set_user_agent_def

section \<open>The tables\<close>

definition supported_metrics_counts :: "'d SupportedMetric list" where
  "supported_metrics_counts =
    [SupportedMetric_row ''serviceruntime.googleapis.com/api/consumer/request_count'' DELTA INT64 START CONSUMER (Some set_int64_metric_to_constant_1),
     SupportedMetric_row ''serviceruntime.googleapis.com/api/producer/request_count'' DELTA INT64 START PRODUCER (Some set_int64_metric_to_constant_1),
     SupportedMetric_row ''serviceruntime.googleapis.com/api/producer/by_consumer/request_count'' DELTA INT64 FINAL PRODUCER_BY_CONSUMER (Some set_int64_metric_to_constant_1),
     SupportedMetric_row ''serviceruntime.googleapis.com/api/consumer/request_sizes'' DELTA DISTRIBUTION FINAL CONSUMER (Some set_distribution_metric_to_request_size),
     SupportedMetric_row ''serviceruntime.googleapis.com/api/producer/request_sizes'' DELTA DISTRIBUTION FINAL PRODUCER (Some set_distribution_metric_to_request_size),
     SupportedMetric_row ''serviceruntime.googleapis.com/api/producer/by_consumer/request_sizes'' DELTA DISTRIBUTION FINAL PRODUCER_BY_CONSUMER (Some set_distribution_metric_to_request_size),
     SupportedMetric_row ''serviceruntime.googleapis.com/api/consumer/response_sizes'' DELTA DISTRIBUTION FINAL CONSUMER (Some set_distribution_metric_to_response_size),
     SupportedMetric_row ''serviceruntime.googleapis.com/api/producer/response_sizes'' DELTA DISTRIBUTION FINAL PRODUCER (Some set_distribution_metric_to_response_size),
     SupportedMetric_row ''serviceruntime.googleapis.com/api/producer/by_consumer/response_sizes'' DELTA DISTRIBUTION FINAL PRODUCER_BY_CONSUMER (Some set_distribution_metric_to_response_size),
     SupportedMetric_row ''serviceruntime.googleapis.com/api/consumer/request_bytes'' DELTA INT64 INTERMEDIATE CONSUMER (Some set_int64_metric_to_request_bytes),
     SupportedMetric_row ''serviceruntime.googleapis.com/api/consumer/response_bytes'' DELTA INT64 INTERMEDIATE CONSUMER (Some set_int64_metric_to_response_bytes),
     SupportedMetric_row ''serviceruntime.googleapis.com/api/producer/request_bytes'' DELTA INT64 INTERMEDIATE PRODUCER (Some set_int64_metric_to_request_bytes),
     SupportedMetric_row ''serviceruntime.googleapis.com/api/producer/response_bytes'' DELTA INT64 INTERMEDIATE PRODUCER (Some set_int64_metric_to_response_bytes),
     SupportedMetric_row ''serviceruntime.googleapis.com/api/consumer/error_count'' DELTA INT64 FINAL CONSUMER (Some set_int64_metric_to_constant_1_if_http_error),
     SupportedMetric_row ''serviceruntime.googleapis.com/api/producer/error_count'' DELTA INT64 FINAL PRODUCER (Some set_int64_metric_to_constant_1_if_http_error),
     SupportedMetric_row ''serviceruntime.googleapis.com/api/producer/by_consumer/error_count'' DELTA INT64 FINAL PRODUCER_BY_CONSUMER (Some set_int64_metric_to_constant_1_if_http_error)]"

definition supported_metrics_times :: "'d SupportedMetric list" where
  "supported_metrics_times =
    [SupportedMetric_row ''serviceruntime.googleapis.com/api/consumer/total_latencies'' DELTA DISTRIBUTION FINAL CONSUMER (Some set_distribution_metric_to_request_time),
     SupportedMetric_row ''serviceruntime.googleapis.com/api/producer/total_latencies'' DELTA DISTRIBUTION FINAL PRODUCER (Some set_distribution_metric_to_request_time),
     SupportedMetric_row ''serviceruntime.googleapis.com/api/producer/by_consumer/total_latencies'' DELTA DISTRIBUTION FINAL PRODUCER_BY_CONSUMER (Some set_distribution_metric_to_request_time),
     SupportedMetric_row ''serviceruntime.googleapis.com/api/consumer/backend_latencies'' DELTA DISTRIBUTION FINAL CONSUMER (Some set_distribution_metric_to_backend_time),
     SupportedMetric_row ''serviceruntime.googleapis.com/api/producer/backend_latencies'' DELTA DISTRIBUTION FINAL PRODUCER (Some set_distribution_metric_to_backend_time),
     SupportedMetric_row ''serviceruntime.googleapis.com/api/producer/by_consumer/backend_latencies'' DELTA DISTRIBUTION FINAL PRODUCER_BY_CONSUMER (Some set_distribution_metric_to_backend_time),
     SupportedMetric_row ''serviceruntime.googleapis.com/api/consumer/request_overhead_latencies'' DELTA DISTRIBUTION FINAL CONSUMER (Some set_distribution_metric_to_overhead_time),
     SupportedMetric_row ''serviceruntime.googleapis.com/api/producer/request_overhead_latencies'' DELTA DISTRIBUTION FINAL PRODUCER (Some set_distribution_metric_to_overhead_time),
     SupportedMetric_row ''serviceruntime.googleapis.com/api/producer/by_consumer/request_overhead_latencies'' DELTA DISTRIBUTION FINAL PRODUCER_BY_CONSUMER (Some set_distribution_metric_to_overhead_time),
     SupportedMetric_row ''serviceruntime.googleapis.com/api/consumer/streaming_request_message_counts'' DELTA DISTRIBUTION FINAL CONSUMER (Some set_distribution_metric_to_streaming_request_message_counts),
     SupportedMetric_row ''serviceruntime.googleapis.com/api/producer/streaming_request_message_counts'' DELTA DISTRIBUTION FINAL PRODUCER (Some set_distribution_metric_to_streaming_request_message_counts),
     SupportedMetric_row ''serviceruntime.googleapis.com/api/consumer/streaming_response_message_counts'' DELTA DISTRIBUTION FINAL CONSUMER (Some set_distribution_metric_to_streaming_response_message_counts),
     SupportedMetric_row ''serviceruntime.googleapis.com/api/producer/streaming_response_message_counts'' DELTA DISTRIBUTION FINAL PRODUCER (Some set_distribution_metric_to_streaming_response_message_counts),
     SupportedMetric_row ''serviceruntime.googleapis.com/api/consumer/streaming_durations'' DELTA DISTRIBUTION FINAL CONSUMER (Some set_distribution_metric_to_streaming_durations),
     SupportedMetric_row ''serviceruntime.googleapis.com/api/producer/streaming_durations'' DELTA DISTRIBUTION FINAL PRODUCER (Some set_distribution_metric_to_streaming_durations)]"

definition supported_metrics :: "'d SupportedMetric list" where
  "supported_metrics = supported_metrics_counts @ supported_metrics_times"

definition supported_labels_request :: "'d SupportedLabel list" where
  "supported_labels_request =
    [SupportedLabel_row ''/credential_id'' STRING USER (Some set_credential_id) False,
     SupportedLabel_row ''/end_user'' STRING USER None False,
     SupportedLabel_row ''/end_user_country'' STRING USER None False,
     SupportedLabel_row ''/error_type'' STRING USER (Some set_error_type) False,
     SupportedLabel_row ''/protocol'' STRING USER (Some set_protocol) False,
     SupportedLabel_row ''/referer'' STRING USER (Some set_referer) False,
     SupportedLabel_row ''/response_code'' STRING USER (Some set_response_code) False,
     SupportedLabel_row ''/response_code_class'' STRING USER (Some set_response_code_class) False,
     SupportedLabel_row ''/status_code'' STRING USER (Some set_status_code) False,
     SupportedLabel_row ''appengine.googleapis.com/clone_id'' STRING USER None False,
     SupportedLabel_row ''appengine.googleapis.com/module_id'' STRING USER None False,
     SupportedLabel_row ''appengine.googleapis.com/replica_index'' STRING USER None False,
     SupportedLabel_row ''appengine.googleapis.com/version_id'' STRING USER None False]"

definition supported_labels_system :: "'d SupportedLabel list" where
  "supported_labels_system =
    [SupportedLabel_row ''cloud.googleapis.com/location'' STRING SYSTEM (Some set_location) False,
     SupportedLabel_row ''cloud.googleapis.com/project'' STRING SYSTEM None False,
     SupportedLabel_row ''cloud.googleapis.com/region'' STRING SYSTEM None False,
     SupportedLabel_row ''cloud.googleapis.com/resource_id'' STRING USER None False,
     SupportedLabel_row ''cloud.googleapis.com/resource_type'' STRING USER None False,
     SupportedLabel_row ''cloud.googleapis.com/service'' STRING SYSTEM None False,
     SupportedLabel_row ''cloud.googleapis.com/zone'' STRING SYSTEM None False,
     SupportedLabel_row ''cloud.googleapis.com/uid'' STRING SYSTEM None False,
     SupportedLabel_row ''serviceruntime.googleapis.com/api_method'' STRING USER (Some set_api_method) False,
     SupportedLabel_row ''serviceruntime.googleapis.com/api_version'' STRING USER (Some set_api_version) False,
     SupportedLabel_row kServiceControlCallerIp STRING SYSTEM None False,
     SupportedLabel_row kServiceControlReferer STRING SYSTEM None False,
     SupportedLabel_row kServiceControlServiceAgent STRING SYSTEM (Some set_service_agent) False,
     SupportedLabel_row kServiceControlUserAgent STRING SYSTEM (Some set_user_agent) False,
     SupportedLabel_row kServiceControlPlatform STRING SYSTEM (Some set_platform) False,
     SupportedLabel_row kServiceControlBackendProtocol STRING SYSTEM (Some set_backend_protocol) False,
     SupportedLabel_row kServiceControlConsumerProject STRING SYSTEM (Some set_consumer_project) True]"

definition supported_labels :: "'d SupportedLabel list" where
  "supported_labels = supported_labels_request @ supported_labels_system"

section \<open>Operations and log entries\<close>

definition kConsumerIdApiKey :: string where "kConsumerIdApiKey = ''api_key:''"
definition kConsumerIdProject :: string where "kConsumerIdProject = ''project:''"

definition CreateTimestamp :: "int \<Rightarrow> Timestamp" where
  "CreateTimestamp timestamp_ns =
     \<lparr>ts_seconds = timestamp_ns sdiv 1000000000, ts_nanos = timestamp_ns smod 1000000000\<rparr>"

definition VerifyRequiredCheckFields :: "'a OperationInfo_scheme \<Rightarrow> Status" where
  "VerifyRequiredCheckFields info =
     (if operation_id info = [] then Status_of INVALID_ARGUMENT ''operation_id is required.''
      else if operation_name info = [] then Status_of INVALID_ARGUMENT ''operation_name is required.''
      else Status_OK)"

definition VerifyRequiredReportFields :: "'a OperationInfo_scheme \<Rightarrow> Status" where
  "VerifyRequiredReportFields info = Status_OK"

definition SetOperationCommonFields ::
    "'a OperationInfo_scheme \<Rightarrow> Timestamp \<Rightarrow> 'd Operation \<Rightarrow> 'd Operation" where
  "SetOperationCommonFields info now op =
     (let op = (if operation_id info \<noteq> [] then op\<lparr>op_operation_id := operation_id info\<rparr> else op);
          op = (if operation_name info \<noteq> [] then op\<lparr>op_operation_name := operation_name info\<rparr> else op);
          op = (if api_key info \<noteq> [] then op\<lparr>op_consumer_id := kConsumerIdApiKey @ api_key info\<rparr> else op)
      in op\<lparr>op_start_time := Some now, op_end_time := Some now\<rparr>)"

text \<open>The names of the fields of a log entry.\<close>

definition kLogFieldNameApiKey :: string where "kLogFieldNameApiKey = ''api_key''"
definition kLogFieldNameApiMethod :: string where "kLogFieldNameApiMethod = ''api_method''"
definition kLogFieldNameApiName :: string where "kLogFieldNameApiName = ''api_name''"
definition kLogFieldNameApiVersion :: string where "kLogFieldNameApiVersion = ''api_version''"
definition kLogFieldNameHttpMethod :: string where "kLogFieldNameHttpMethod = ''http_method''"
definition kLogFieldNameHttpResponseCode :: string where "kLogFieldNameHttpResponseCode = ''http_response_code''"
definition kLogFieldNameJwtPayloads :: string where "kLogFieldNameJwtPayloads = ''jwt_payloads''"
definition kLogFieldNameLocation :: string where "kLogFieldNameLocation = ''location''"
definition kLogFieldNameLogMessage :: string where "kLogFieldNameLogMessage = ''log_message''"
definition kLogFieldNameProducerProjectId :: string where "kLogFieldNameProducerProjectId = ''producer_project_id''"
definition kLogFieldNameReferer :: string where "kLogFieldNameReferer = ''referer''"
definition kLogFieldNameRequestHeaders :: string where "kLogFieldNameRequestHeaders = ''request_headers''"
definition kLogFieldNameRequestLatency :: string where "kLogFieldNameRequestLatency = ''request_latency_in_ms''"
definition kLogFieldNameRequestSize :: string where "kLogFieldNameRequestSize = ''request_size_in_bytes''"
definition kLogFieldNameResponseHeaders :: string where "kLogFieldNameResponseHeaders = ''response_headers''"
definition kLogFieldNameResponseSize :: string where "kLogFieldNameResponseSize = ''response_size_in_bytes''"
definition kLogFieldNameTimestamp :: string where "kLogFieldNameTimestamp = ''timestamp''"
definition kLogFieldNameUrl :: string where "kLogFieldNameUrl = ''url''"
definition kLogFieldNameClientIp :: string where "kLogFieldNameClientIp = ''client_ip''"

definition log_string :: "string \<Rightarrow> string \<Rightarrow> (string \<times> log_value) list \<Rightarrow> (string \<times> log_value) list" where
  "log_string name v fs = (if v \<noteq> [] then AList.update name (String_value v) fs else fs)"

definition log_number :: "string \<Rightarrow> int \<Rightarrow> (string \<times> log_value) list \<Rightarrow> (string \<times> log_value) list" where
  "log_number name v fs = (if 0 \<le> v then AList.update name (Number_value (Of_int v)) fs else fs)"

definition FillLogEntry :: "ReportRequestInfo \<Rightarrow> string \<Rightarrow> Timestamp \<Rightarrow> LogEntry" where
  "FillLogEntry info name now =
     (let fs = AList.update kLogFieldNameTimestamp (Number_value (Secs_nanos (ts_seconds now) (ts_nanos now))) [];
          fs = log_string kLogFieldNameProducerProjectId (producer_project_id info) fs;
          fs = log_string kLogFieldNameApiKey (api_key info) fs;
          fs = log_string kLogFieldNameReferer (referer info) fs;
          fs = log_string kLogFieldNameApiName (api_name info) fs;
          fs = log_string kLogFieldNameApiVersion (api_version info) fs;
          fs = log_string kLogFieldNameUrl (rri_url info) fs;
          fs = log_string kLogFieldNameApiMethod (api_method info) fs;
          fs = log_string kLogFieldNameLocation (location info) fs;
          fs = log_string kLogFieldNameLogMessage (log_message info) fs;
          fs = AList.update kLogFieldNameHttpResponseCode (Number_value (Of_int (response_code info))) fs;
          fs = log_number kLogFieldNameRequestSize (request_size info) fs;
          fs = log_string kLogFieldNameRequestHeaders (request_headers info) fs;
          fs = log_number kLogFieldNameResponseSize (response_size info) fs;
          fs = log_string kLogFieldNameResponseHeaders (response_headers info) fs;
          fs = log_number kLogFieldNameRequestLatency (li_request_time_ms (latency info)) fs;
          fs = log_string kLogFieldNameHttpMethod (http_method info) fs;
          fs = log_string kLogFieldNameClientIp (client_ip info) fs;
          fs = log_string kLogFieldNameJwtPayloads (jwt_payloads info) fs
      in \<lparr>le_name = name, le_timestamp = now,
          le_severity = (if 400 \<le> response_code info then ERROR else INFO), le_fields = fs\<rparr>)"

section \<open>The builder\<close>

record 'd RequestBuilder =
  rb_logs :: "string list"
  rb_metrics :: "'d SupportedMetric list"
  rb_labels :: "'d SupportedLabel list"
  rb_service_name :: string
  rb_service_config_id :: string

fun FilterPointers :: "'e list \<Rightarrow> ('e \<Rightarrow> bool) \<Rightarrow> 'e list" where
  "FilterPointers [] pred = []"
| "FilterPointers (x # xs) pred = (if pred x then x # FilterPointers xs pred else FilterPointers xs pred)"

definition RequestBuilder_all :: "string set \<Rightarrow> string \<Rightarrow> string \<Rightarrow> 'd RequestBuilder" where
  "RequestBuilder_all logs service_name service_config_id =
     \<lparr>rb_logs = sorted_list_of_set logs,
      rb_metrics = FilterPointers supported_metrics (\<lambda>m. case sm_set m of None \<Rightarrow> False | Some _ \<Rightarrow> True),
      rb_labels = FilterPointers supported_labels (\<lambda>l. case sl_set l of None \<Rightarrow> False | Some _ \<Rightarrow> True),
      rb_service_name = service_name, rb_service_config_id = service_config_id\<rparr>"

definition RequestBuilder_some ::
    "string set \<Rightarrow> string set \<Rightarrow> string set \<Rightarrow> string \<Rightarrow> string \<Rightarrow> 'd RequestBuilder" where
  "RequestBuilder_some logs metrics labels service_name service_config_id =
     \<lparr>rb_logs = sorted_list_of_set logs,
      rb_metrics = FilterPointers supported_metrics
        (\<lambda>m. (case sm_set m of None \<Rightarrow> False | Some _ \<Rightarrow> True) \<and> sm_name m \<in> metrics),
      rb_labels = FilterPointers supported_labels
        (\<lambda>l. (case sl_set l of None \<Rightarrow> False | Some _ \<Rightarrow> True) \<and>
             (sl_kind l = SYSTEM \<or> sl_name l \<in> labels)),
      rb_service_name = service_name, rb_service_config_id = service_config_id\<rparr>"

section \<open>Quota and check requests\<close>

definition FillAllocateQuotaRequest ::
    "'d env \<Rightarrow> 'd RequestBuilder \<Rightarrow> QuotaRequestInfo \<Rightarrow> 'd AllocateQuotaRequest
     \<Rightarrow> Status \<times> 'd AllocateQuotaRequest" where
  "FillAllocateQuotaRequest env rb info request =
     (let op = aq_allocate_operation request;
          op = (if operation_id info \<noteq> [] then op\<lparr>qo_operation_id := operation_id info\<rparr> else op);
          op = (if method_name info \<noteq> [] then op\<lparr>qo_method_name := method_name info\<rparr> else op);
          op = (if api_key info \<noteq> [] then op\<lparr>qo_consumer_id := kConsumerIdApiKey @ api_key info\<rparr>
                else if producer_project_id info \<noteq> []
                then op\<lparr>qo_consumer_id := kConsumerIdProject @ producer_project_id info\<rparr> else op);
          op = op\<lparr>qo_quota_mode := BEST_EFFORT\<rparr>;
          ls = put_nonempty kServiceControlCallerIp (client_ip info) (qo_labels op);
          ls = put_nonempty kServiceControlReferer (referer info) ls;
          ls = put kServiceControlUserAgent kUserAgent ls;
          ls = put kServiceControlServiceAgent (get_service_agent env) ls;
          op = op\<lparr>qo_labels := ls\<rparr>;
          op = (case metric_cost_vector info of
                  None \<Rightarrow> op
                | Some costs \<Rightarrow>
                    op\<lparr>qo_quota_metrics := qo_quota_metrics op @
                      map (\<lambda>(name, cost).
                             \<lparr>mvs_metric_name = name,
                              mvs_metric_values = [Int64_value (if cost \<le> 0 then 1 else cost)]\<rparr>) costs\<rparr>)
      in (Status_OK,
          request\<lparr>aq_service_name := rb_service_name rb,
                  aq_service_config_id := rb_service_config_id rb, aq_allocate_operation := op\<rparr>))"

definition FillCheckRequest ::
    "'d env \<Rightarrow> 'd RequestBuilder \<Rightarrow> CheckRequestInfo \<Rightarrow> 'd CheckRequest \<Rightarrow> Status \<times> 'd CheckRequest" where
  "FillCheckRequest env rb info request =
     (let status = VerifyRequiredCheckFields info in
      if \<not> st_ok status then (status, request)
      else
        (let now = CreateTimestamp (current_time info);
             op = SetOperationCommonFields info now (cr_operation request);
             ls = put_nonempty kServiceControlCallerIp (client_ip info) (op_labels op);
             ls = put_nonempty kServiceControlReferer (referer info) ls;
             ls = put kServiceControlUserAgent kUserAgent ls;
             ls = put kServiceControlServiceAgent (get_service_agent env) ls;
             ls = put_nonempty kServiceControlAndroidPackageName (android_package_name info) ls;
             ls = put_nonempty kServiceControlAndroidCertFingerprint (android_cert_fingerprint info) ls;
             ls = put_nonempty kServiceControlIosBundleId (ios_bundle_id info) ls
         in (Status_OK,
             request\<lparr>cr_service_name := rb_service_name rb,
                     cr_service_config_id := rb_service_config_id rb,
                     cr_operation := op\<lparr>op_labels := ls\<rparr>\<rparr>)))"

section \<open>Report requests\<close>

text \<open>The loops over the labels and the metrics stop at the first setter that fails.\<close>

fun set_labels ::
    "'d env \<Rightarrow> bool \<Rightarrow> 'd SupportedLabel list \<Rightarrow> ReportRequestInfo \<Rightarrow> labels \<Rightarrow> Status \<times> labels" where
  "set_labels env by_consumer [] info ls = (Status_OK, ls)"
| "set_labels env by_consumer (l # rest) info ls =
     (case sl_set l of
        None \<Rightarrow> set_labels env by_consumer rest info ls
      | Some setter \<Rightarrow>
          if \<not> by_consumer \<and> sl_by_consumer_only l then set_labels env by_consumer rest info ls
          else
            (case setter env (sl_name l) info ls of (status, ls) \<Rightarrow>
               if \<not> st_ok status then (status, ls) else set_labels env by_consumer rest info ls))"

definition tag_due :: "ReportRequestInfo \<Rightarrow> Tag \<Rightarrow> bool" where
  "tag_due info tag \<longleftrightarrow>
     is_first_report info \<and> tag = START \<or>
     is_final_report info \<and> (tag = FINAL \<or> tag = INTERMEDIATE) \<or>
     \<not> is_final_report info \<and> tag = INTERMEDIATE"

definition metric_due :: "bool \<Rightarrow> ReportRequestInfo \<Rightarrow> 'd SupportedMetric \<Rightarrow> bool" where
  "metric_due by_consumer info m \<longleftrightarrow>
     (if by_consumer then sm_mark m = PRODUCER_BY_CONSUMER
      else (api_key info \<noteq> [] \<or> sm_mark m \<noteq> CONSUMER) \<and> sm_mark m \<noteq> PRODUCER_BY_CONSUMER) \<and>
     tag_due info (sm_tag m)"

fun set_metrics ::
    "'d env \<Rightarrow> bool \<Rightarrow> 'd SupportedMetric list \<Rightarrow> ReportRequestInfo \<Rightarrow> 'd Operation \<Rightarrow> Status \<times> 'd Operation"
where
  "set_metrics env by_consumer [] info op = (Status_OK, op)"
| "set_metrics env by_consumer (m # rest) info op =
     (case sm_set m of
        None \<Rightarrow> set_metrics env by_consumer rest info op
      | Some setter \<Rightarrow>
          if metric_due by_consumer info m then
            (case setter env (sm_name m) info op of (status, op) \<Rightarrow>
               if \<not> st_ok status then (status, op) else set_metrics env by_consumer rest info op)
          else set_metrics env by_consumer rest info op)"

definition FillMetricsAndLabels ::
    "'d env \<Rightarrow> 'd RequestBuilder \<Rightarrow> bool \<Rightarrow> ReportRequestInfo \<Rightarrow> 'd Operation \<Rightarrow> Status \<times> 'd Operation" where
  "FillMetricsAndLabels env rb by_consumer info op =
     (if operation_id info \<noteq> [] \<and> operation_name info \<noteq> [] then
        (case set_labels env by_consumer (rb_labels rb) info (op_labels op) of (status, ls) \<Rightarrow>
           let op = op\<lparr>op_labels := ls\<rparr> in
           if \<not> st_ok status then (status, op)
           else set_metrics env by_consumer (rb_metrics rb) info op)
      else (Status_OK, op))"

definition AppendByConsumerOperations ::
    "'d env \<Rightarrow> 'd RequestBuilder \<Rightarrow> ReportRequestInfo \<Rightarrow> 'd ReportRequest \<Rightarrow> Timestamp
     \<Rightarrow> Status \<times> 'd ReportRequest" where
  "AppendByConsumerOperations env rb info request now =
     (let op = SetOperationCommonFields info now new_Operation;
          op = op\<lparr>op_operation_id := op_operation_id op @ ''1''\<rparr>;
          (status, op) = FillMetricsAndLabels env rb True info op
      in (status, request\<lparr>rr_operations := rr_operations request @ [op]\<rparr>))"

definition FillReportRequest ::
    "'d env \<Rightarrow> 'd RequestBuilder \<Rightarrow> ReportRequestInfo \<Rightarrow> 'd ReportRequest \<Rightarrow> Status \<times> 'd ReportRequest" where
  "FillReportRequest env rb info request =
     (let status = VerifyRequiredReportFields info in
      if \<not> st_ok status then (status, request)
      else
        (let request = request\<lparr>rr_service_name := rb_service_name rb,
                               rr_service_config_id := rb_service_config_id rb\<rparr>;
             now = CreateTimestamp (current_time info);
             op = SetOperationCommonFields info now new_Operation;
             (status, op) = FillMetricsAndLabels env rb False info op
         in if \<not> st_ok status then (status, request\<lparr>rr_operations := rr_operations request @ [op]\<rparr>)
            else
              (let op = (if is_final_report info
                         then op\<lparr>op_log_entries := op_log_entries op @
                                   map (\<lambda>name. FillLogEntry info name now) (rb_logs rb)\<rparr>
                         else op);
                   request = request\<lparr>rr_operations := rr_operations request @ [op]\<rparr>
               in if consumer_project_id (check_response_info info) \<noteq> []
                  then AppendByConsumerOperations env rb info request now
                  else (Status_OK, request))))"

section \<open>Responses\<close>

definition ConvertAllocateQuotaResponse :: "AllocateQuotaResponse \<Rightarrow> string \<Rightarrow> Status" where
  "ConvertAllocateQuotaResponse response service_name =
     (case allocate_errors response of
        [] \<Rightarrow> Status_OK
      | error # _ \<Rightarrow>
          (case qe_code error of
             QE_UNSPECIFIED \<Rightarrow> Status_OK
           | QE_RESOURCE_EXHAUSTED \<Rightarrow> Status_of RESOURCE_EXHAUSTED (qe_description error)
           | QE_BILLING_NOT_ACTIVE \<Rightarrow> Status_of PERMISSION_DENIED (qe_description error)
           | QE_PROJECT_DELETED \<Rightarrow> Status_of INVALID_ARGUMENT (qe_description error)
           | QE_API_KEY_INVALID \<Rightarrow> Status_of INVALID_ARGUMENT (qe_description error)
           | QE_API_KEY_EXPIRED \<Rightarrow> Status_of INVALID_ARGUMENT (qe_description error)
           | QE_other n \<Rightarrow> Status_of INTERNAL (qe_description error)))"

fun ConvertCheckError :: "CheckErrorCode \<Rightarrow> string \<Rightarrow> CheckResponseInfo \<Rightarrow> Status \<times> CheckResponseInfo" where
  "ConvertCheckError CE_NOT_FOUND s i =
     (Status_of INVALID_ARGUMENT ''Client project not found. Please pass a valid project.'', i)"
| "ConvertCheckError CE_API_KEY_NOT_FOUND s i =
     (Status_of INVALID_ARGUMENT ''API key not found. Please pass a valid API key.'',
      i\<lparr>is_api_key_valid := False\<rparr>)"
| "ConvertCheckError CE_API_KEY_EXPIRED s i =
     (Status_of INVALID_ARGUMENT ''API key expired. Please renew the API key.'',
      i\<lparr>is_api_key_valid := False\<rparr>)"
| "ConvertCheckError CE_API_KEY_INVALID s i =
     (Status_of INVALID_ARGUMENT ''API key not valid. Please pass a valid API key.'',
      i\<lparr>is_api_key_valid := False\<rparr>)"
| "ConvertCheckError CE_SERVICE_NOT_ACTIVATED s i =
     (Status_of PERMISSION_DENIED (''API '' @ s @ '' is not enabled for the project.''),
      i\<lparr>service_is_activated := False\<rparr>)"
| "ConvertCheckError CE_PERMISSION_DENIED s i = (Status_of PERMISSION_DENIED ''Permission denied.'', i)"
| "ConvertCheckError CE_IP_ADDRESS_BLOCKED s i = (Status_of PERMISSION_DENIED ''IP address blocked.'', i)"
| "ConvertCheckError CE_REFERER_BLOCKED s i = (Status_of PERMISSION_DENIED ''Referer blocked.'', i)"
| "ConvertCheckError CE_CLIENT_APP_BLOCKED s i =
     (Status_of PERMISSION_DENIED ''Client application blocked.'', i)"
| "ConvertCheckError CE_PROJECT_DELETED s i =
     (Status_of PERMISSION_DENIED ''Project has been deleted.'', i)"
| "ConvertCheckError CE_PROJECT_INVALID s i =
     (Status_of INVALID_ARGUMENT ''Client project not valid. Please pass a valid project.'', i)"
| "ConvertCheckError CE_BILLING_DISABLED s i =
     (Status_of PERMISSION_DENIED (''API '' @ s @ '' has billing disabled. Please enable it.''), i)"
| "ConvertCheckError CE_SECURITY_POLICY_VIOLATED s i =
     (Status_of PERMISSION_DENIED ''Request is not allowed as per security policies.'', i)"
| "ConvertCheckError CE_INVALID_CREDENTIAL s i =
     (Status_of PERMISSION_DENIED ''The credential in the request can not be verified'', i)"
| "ConvertCheckError CE_LOCATION_POLICY_VIOLATED s i =
     (Status_of PERMISSION_DENIED ''Request is not allowed as per location policies.'', i)"
| "ConvertCheckError CE_CONSUMER_INVALID s i =
     (Status_of PERMISSION_DENIED
        ''The consumer from the API key does not represent a valid consumer folder or organization'', i)"
| "ConvertCheckError CE_NAMESPACE_LOOKUP_UNAVAILABLE s i = (Status_OK, i)"
| "ConvertCheckError CE_SERVICE_STATUS_UNAVAILABLE s i = (Status_OK, i)"
| "ConvertCheckError CE_BILLING_STATUS_UNAVAILABLE s i = (Status_OK, i)"
| "ConvertCheckError CE_QUOTA_CHECK_UNAVAILABLE s i = (Status_OK, i)"
| "ConvertCheckError CE_CLOUD_RESOURCE_MANAGER_BACKEND_UNAVAILABLE s i = (Status_OK, i)"
| "ConvertCheckError CE_SECURITY_POLICY_BACKEND_UNAVAILABLE s i = (Status_OK, i)"
| "ConvertCheckError CE_LOCATION_POLICY_BACKEND_UNAVAILABLE s i = (Status_OK, i)"
| "ConvertCheckError (CE_other n) s i =
     (Status_of INTERNAL (''Request blocked due to unsupported error code: '' @ to_string n), i)"

definition ConvertCheckResponse ::
    "CheckResponse \<Rightarrow> string \<Rightarrow> CheckResponseInfo \<Rightarrow> Status \<times> CheckResponseInfo" where
  "ConvertCheckResponse check_response service_name i =
     (let i = (if 0 < consumer_project_number check_response
               then i\<lparr>consumer_project_id := to_string (consumer_project_number check_response)\<rparr>
               else i)
      in case check_errors check_response of
           [] \<Rightarrow> (Status_OK, i)
         | error # _ \<Rightarrow> ConvertCheckError error service_name i)"

record LabelDescriptor =
  ldesc_key :: string
  ldesc_value_type :: ValueType

record MetricDescriptor =
  mdesc_name :: string
  mdesc_metric_kind :: MetricKind
  mdesc_value_type :: ValueType
  mdesc_labels :: "LabelDescriptor list"

fun IsMetricSupported_loop :: "'d SupportedMetric list \<Rightarrow> MetricDescriptor \<Rightarrow> bool" where
  "IsMetricSupported_loop [] metric = False"
| "IsMetricSupported_loop (m # ms) metric =
     (if mdesc_name metric = sm_name m \<and> mdesc_metric_kind metric = sm_metric_kind m \<and>
         mdesc_value_type metric = sm_value_type m
      then True else IsMetricSupported_loop ms metric)"

definition IsMetricSupported :: "MetricDescriptor \<Rightarrow> bool" where
  "IsMetricSupported metric = IsMetricSupported_loop (supported_metrics :: unit SupportedMetric list) metric"

fun IsLabelSupported_loop :: "'d SupportedLabel list \<Rightarrow> LabelDescriptor \<Rightarrow> bool" where
  "IsLabelSupported_loop [] label = False"
| "IsLabelSupported_loop (l # ls) label =
     (if ldesc_key label = sl_name l \<and> ldesc_value_type label = sl_value_type l
      then True else IsLabelSupported_loop ls label)"

definition IsLabelSupported :: "LabelDescriptor \<Rightarrow> bool" where
  "IsLabelSupported label = IsLabelSupported_loop (supported_labels :: unit SupportedLabel list) label"

end
