(* ===== verification/RequestBuilder_Props.thy ===== *)
theory RequestBuilder_Props
  imports RequestBuilder
begin

text \<open>
  What the request builder guarantees about the requests it fills: which metrics and labels they
  carry, for which reports, and what the responses mean.

  The locales \<open>metric_table\<close> and \<open>label_table\<close> state what a table row promises (its setter
  appends at most values of its own metric, and writes at most its own label); the loops of the
  builder are analysed once against them, and both are interpreted on the tables of the code.
\<close>

section \<open>Metrics\<close>

text \<open>What a setter appends: its effect on an operation without metrics.\<close>

definition emitted :: "'d env \<Rightarrow> 'd metric_setter \<Rightarrow> string \<Rightarrow> ReportRequestInfo \<Rightarrow> 'd MetricValueSet list" where
  "emitted env f name info = op_metric_value_sets (snd (f env name info new_Operation))"

definition appends :: "'d metric_setter \<Rightarrow> bool" where
  "appends f \<longleftrightarrow>
     (\<forall>env name info op.
        snd (f env name info op) =
          op\<lparr>op_metric_value_sets := op_metric_value_sets op @ emitted env f name info\<rparr> \<and>
        fst (f env name info op) = fst (f env name info new_Operation) \<and>
        (\<forall>v\<in>set (emitted env f name info). mvs_metric_name v = name))"

lemma AddMetricValue_sets:
  "AddMetricValue n v op =
     op\<lparr>op_metric_value_sets := op_metric_value_sets op @ [\<lparr>mvs_metric_name = n, mvs_metric_values = [v]\<rparr>]\<rparr>"
  by (simp add: AddMetricValue_def)

definition distribution_of ::
    "'d env \<Rightarrow> DistributionHelperOptions \<Rightarrow> double \<Rightarrow> Status \<times> 'd metric_value" where
  "distribution_of env opts x =
     (case env_InitExponential env opts of (s, d) \<Rightarrow>
        if \<not> st_ok s then (s, Unset)
        else case env_AddSample env x d of (s, d) \<Rightarrow>
               if \<not> st_ok s then (s, Unset) else (Status_OK, Distribution_value d))"

lemma AddDistributionMetric_eq:
  "AddDistributionMetric env opts n x op =
     (fst (distribution_of env opts x), AddMetricValue n (snd (distribution_of env opts x)) op)"
  by (simp add: AddDistributionMetric_def distribution_of_def split: prod.splits)

lemma appends_distribution:
  assumes "\<And>env name info op. f env name info op =
      (if c info then AddDistributionMetric env opts name (x info) op else (Status_OK, op))"
  shows "appends f"
  by (simp add: appends_def emitted_def assms AddDistributionMetric_eq AddMetricValue_sets new_Operation_def)

lemma appends_ignoring:
  assumes "\<And>env name info op. f env name info op =
      (Status_OK, if c info then snd (AddDistributionMetric env opts name (x info) op) else op)"
  shows "appends f"
  by (simp add: appends_def emitted_def assms AddDistributionMetric_eq AddMetricValue_sets new_Operation_def)

lemma appends_int64:
  assumes "\<And>env name info op. f env name info op =
      (Status_OK, if c info then AddInt64Metric name (x info) op else op)"
  shows "appends f"
  by (simp add: appends_def emitted_def assms AddInt64Metric_def AddMetricValue_sets new_Operation_def)

lemma setters_append [simp, intro]:
  "appends set_int64_metric_to_constant_1"
  "appends set_int64_metric_to_constant_1_if_http_error"
  "appends set_distribution_metric_to_request_size"
  "appends set_distribution_metric_to_response_size"
  "appends set_distribution_metric_to_request_time"
  "appends set_distribution_metric_to_backend_time"
  "appends set_distribution_metric_to_overhead_time"
  "appends set_int64_metric_to_request_bytes"
  "appends set_int64_metric_to_response_bytes"
  "appends set_distribution_metric_to_streaming_request_message_counts"
  "appends set_distribution_metric_to_streaming_response_message_counts"
  "appends set_distribution_metric_to_streaming_durations"
  by (rule appends_int64 [where c = "\<lambda>_. True" and x = "\<lambda>_. 1"]
        appends_int64 appends_distribution appends_ignoring, simp add: metric_setters)+

text \<open>The metrics that one report carries, row by row.\<close>

definition row_values ::
    "'d env \<Rightarrow> bool \<Rightarrow> ReportRequestInfo \<Rightarrow> 'd SupportedMetric \<Rightarrow> 'd MetricValueSet list" where
  "row_values env by_consumer info m =
     (case sm_set m of
        None \<Rightarrow> []
      | Some f \<Rightarrow> if metric_due by_consumer info m then emitted env f (sm_name m) info else [])"

text \<open>What the code relies on from \<open>DistributionHelper\<close>: with its fixed options it does not fail.\<close>

definition distributions_ok :: "'d env \<Rightarrow> bool" where
  "distributions_ok env \<longleftrightarrow> (\<forall>opts x. st_ok (fst (distribution_of env opts x)))"

definition fails_only_on_distributions :: "'d metric_setter \<Rightarrow> bool" where
  "fails_only_on_distributions f \<longleftrightarrow>
     (\<forall>env name info op. distributions_ok env \<longrightarrow> st_ok (fst (f env name info op)))"

locale metric_table =
  fixes rows :: "'d SupportedMetric list"
  assumes names: "distinct (map sm_name rows)"
    and setter: "m \<in> set rows \<Longrightarrow> sm_set m = Some f \<Longrightarrow> appends f \<and> fails_only_on_distributions f"
begin

lemma set_metrics_sound:
  "set ms \<subseteq> set rows \<Longrightarrow>
   \<exists>vs. snd (set_metrics env b ms info op) =
       op\<lparr>op_metric_value_sets := op_metric_value_sets op @ vs\<rparr> \<and>
     (\<forall>v\<in>set vs. \<exists>m\<in>set ms. v \<in> set (row_values env b info m))"
proof (induction ms arbitrary: op)
  case Nil
  have "snd (set_metrics env b [] info op) = op\<lparr>op_metric_value_sets := op_metric_value_sets op @ []\<rparr>"
    by simp
  then show ?case by fastforce
next
  case (Cons m ms)
  show ?case
  proof (cases "sm_set m")
    case None
    with Cons show ?thesis by fastforce
  next
    case (Some f)
    then have f: "appends f" using Cons.prems setter by auto
    show ?thesis
    proof (cases "metric_due b info m")
      case False
      with Some Cons show ?thesis by fastforce
    next
      case True
      let ?op = "snd (f env (sm_name m) info op)" and ?e = "emitted env f (sm_name m) info"
      have op: "?op = op\<lparr>op_metric_value_sets := op_metric_value_sets op @ ?e\<rparr>"
        "row_values env b info m = ?e" using f Some True by (simp_all add: appends_def row_values_def)
      obtain vs where vs: "snd (set_metrics env b ms info ?op) =
          ?op\<lparr>op_metric_value_sets := op_metric_value_sets ?op @ vs\<rparr>"
        "\<forall>v\<in>set vs. \<exists>m\<in>set ms. v \<in> set (row_values env b info m)"
        using Cons.IH [of ?op] Cons.prems by auto
      show ?thesis
      proof (cases "st_ok (fst (f env (sm_name m) info op))")
        case True
        with Some \<open>metric_due b info m\<close> vs(1) op(1)
        have "snd (set_metrics env b (m # ms) info op) =
            op\<lparr>op_metric_value_sets := op_metric_value_sets op @ (?e @ vs)\<rparr>"
          by (simp add: case_prod_beta)
        moreover have "\<forall>v\<in>set (?e @ vs). \<exists>m'\<in>set (m # ms). v \<in> set (row_values env b info m')"
          using op(2) vs(2) by auto
        ultimately show ?thesis by blast
      next
        case False
        with Some \<open>metric_due b info m\<close> op show ?thesis by (auto simp: case_prod_beta)
      qed
    qed
  qed
qed

lemma set_metrics_complete:
  assumes "distributions_ok env"
  shows "set ms \<subseteq> set rows \<Longrightarrow>
    set_metrics env b ms info op =
      (Status_OK, op\<lparr>op_metric_value_sets := op_metric_value_sets op @ concat (map (row_values env b info) ms)\<rparr>)"
proof (induction ms arbitrary: op)
  case (Cons m ms)
  show ?case
  proof (cases "sm_set m")
    case None
    with Cons show ?thesis by (simp add: row_values_def)
  next
    case (Some f)
    then have f: "appends f" "st_ok (fst (f env (sm_name m) info op))"
      using Cons.prems setter [of m f] assms by (auto simp: fails_only_on_distributions_def)
    then have "snd (f env (sm_name m) info op) =
        op\<lparr>op_metric_value_sets := op_metric_value_sets op @ emitted env f (sm_name m) info\<rparr>"
      by (simp add: appends_def)
    with Some f(2) Cons show ?thesis by (simp add: row_values_def case_prod_beta)
  qed
qed simp

lemma row_unique: "m \<in> set rows \<Longrightarrow> m' \<in> set rows \<Longrightarrow> sm_name m = sm_name m' \<Longrightarrow> m = m'"
  using names by (metis distinct_map inj_onD)

lemma row_values_name:
  "m \<in> set rows \<Longrightarrow> v \<in> set (row_values env b info m) \<Longrightarrow> mvs_metric_name v = sm_name m"
  using setter [of m]
  by (cases "sm_set m") (auto simp: row_values_def appends_def split: if_splits)

text \<open>A metric of the table contributes the values of its own row and no others.\<close>

lemma values_of_metric:
  assumes "distinct ms" "set ms \<subseteq> set rows" "m \<in> set ms"
  shows "filter (\<lambda>v. mvs_metric_name v = sm_name m) (concat (map (row_values env b info) ms)) =
    row_values env b info m"
  using assms
proof (induction ms)
  case (Cons a ms)
  have a: "a \<in> set rows" and m: "m \<in> set rows" using Cons.prems by auto
  have other: "filter (\<lambda>v. mvs_metric_name v = sm_name m) (row_values env b info x) = []"
    if "x \<in> set rows" "x \<noteq> m" for x
    using that row_values_name [OF that(1)] row_unique [OF that(1) m] by (auto simp: filter_empty_conv)
  have own: "filter (\<lambda>v. mvs_metric_name v = sm_name m) (row_values env b info m) = row_values env b info m"
    using row_values_name [OF m] by simp
  show ?case
  proof (cases "a = m")
    case True
    have "filter (\<lambda>v. mvs_metric_name v = sm_name m) (concat (map (row_values env b info) ms)) = []"
      using Cons.prems True row_values_name row_unique [OF m]
      by (fastforce simp: filter_empty_conv)
    with True own show ?thesis by simp
  next
    case False
    with Cons other [OF a] show ?thesis by simp
  qed
qed simp

end

lemma setters_fail [simp, intro]:
  "fails_only_on_distributions set_int64_metric_to_constant_1"
  "fails_only_on_distributions set_int64_metric_to_constant_1_if_http_error"
  "fails_only_on_distributions set_distribution_metric_to_request_size"
  "fails_only_on_distributions set_distribution_metric_to_response_size"
  "fails_only_on_distributions set_distribution_metric_to_request_time"
  "fails_only_on_distributions set_distribution_metric_to_backend_time"
  "fails_only_on_distributions set_distribution_metric_to_overhead_time"
  "fails_only_on_distributions set_int64_metric_to_request_bytes"
  "fails_only_on_distributions set_int64_metric_to_response_bytes"
  "fails_only_on_distributions set_distribution_metric_to_streaming_request_message_counts"
  "fails_only_on_distributions set_distribution_metric_to_streaming_response_message_counts"
  "fails_only_on_distributions set_distribution_metric_to_streaming_durations"
  by (simp_all add: fails_only_on_distributions_def distributions_ok_def metric_setters
      AddDistributionMetric_eq)

definition good_row :: "'d SupportedMetric \<Rightarrow> bool" where
  "good_row m \<longleftrightarrow> (\<forall>f. sm_set m = Some f \<longrightarrow> appends f \<and> fails_only_on_distributions f)"

lemma good_rows: "list_all good_row supported_metrics"
  by (simp add: supported_metrics_def supported_metrics_counts_def supported_metrics_times_def
      SupportedMetric_row_def good_row_def)

lemma supported_metric_names: "distinct (map sm_name supported_metrics)"
  by code_simp

interpretation supported: metric_table supported_metrics
proof
  show "distinct (map sm_name (supported_metrics :: 'a SupportedMetric list))"
    by (rule supported_metric_names)
  show "appends f \<and> fails_only_on_distributions f"
    if "m \<in> set supported_metrics" "sm_set m = Some f" for m and f :: "'a metric_setter"
    using that good_rows by (auto simp: list_all_iff good_row_def)
qed

lemma FilterPointers_filter [simp]: "FilterPointers xs P = filter P xs"
  by (induction xs) auto

section \<open>Labels\<close>

definition writes_own_label :: "'d label_setter \<Rightarrow> bool" where
  "writes_own_label f \<longleftrightarrow>
     (\<forall>env name info ls k. st_ok (fst (f env name info ls)) \<and>
        (k \<noteq> name \<longrightarrow> map_of (snd (f env name info ls)) k = map_of ls k))"

definition label_step ::
    "'d env \<Rightarrow> bool \<Rightarrow> ReportRequestInfo \<Rightarrow> 'd SupportedLabel \<Rightarrow> labels \<Rightarrow> labels" where
  "label_step env b info l ls =
     (case sl_set l of
        None \<Rightarrow> ls
      | Some f \<Rightarrow> if \<not> b \<and> sl_by_consumer_only l then ls else snd (f env (sl_name l) info ls))"

locale label_table =
  fixes rows :: "'d SupportedLabel list"
  assumes names: "distinct (map sl_name rows)"
    and setter: "l \<in> set rows \<Longrightarrow> sl_set l = Some f \<Longrightarrow> writes_own_label f"
begin

lemma set_labels_Cons:
  assumes "l \<in> set rows"
  shows "set_labels env b (l # lrs) info ls = set_labels env b lrs info (label_step env b info l ls)"
proof (cases "sl_set l")
  case (Some f)
  with setter [OF assms Some] show ?thesis
    by (simp add: label_step_def writes_own_label_def case_prod_beta)
qed (simp add: label_step_def)

lemma label_step_other:
  assumes "l \<in> set rows" "sl_name l \<noteq> k \<or> sl_set l = None \<or> \<not> b \<and> sl_by_consumer_only l"
  shows "map_of (label_step env b info l ls) k = map_of ls k"
  using setter [OF assms(1)] assms(2)
  by (cases "sl_set l") (auto simp: label_step_def writes_own_label_def)

lemma set_labels_ok: "set lrs \<subseteq> set rows \<Longrightarrow> st_ok (fst (set_labels env b lrs info ls))"
  by (induction lrs arbitrary: ls) (simp_all add: set_labels_Cons del: set_labels.simps(2))

text \<open>A label keeps its value unless its own row is reached.\<close>

lemma set_labels_other:
  "set lrs \<subseteq> set rows \<Longrightarrow>
   (\<And>l. l \<in> set lrs \<Longrightarrow> sl_name l = k \<Longrightarrow> sl_set l = None \<or> \<not> b \<and> sl_by_consumer_only l) \<Longrightarrow>
   map_of (snd (set_labels env b lrs info ls)) k = map_of ls k"
proof (induction lrs arbitrary: ls)
  case (Cons l lrs)
  have "map_of (label_step env b info l ls) k = map_of ls k"
    using Cons.prems by (intro label_step_other) auto
  with Cons show ?case by (simp add: set_labels_Cons del: set_labels.simps(2))
qed simp

text \<open>The row of a label decides its value, whatever the other rows do.\<close>

lemma set_labels_own:
  assumes "distinct lrs" "set lrs \<subseteq> set rows" "l \<in> set lrs" "sl_set l = Some f" "b \<or> \<not> sl_by_consumer_only l"
    and keeps: "\<And>ls ls'. map_of ls (sl_name l) = map_of ls' (sl_name l) \<Longrightarrow>
      map_of (snd (f env (sl_name l) info ls)) (sl_name l) = map_of (snd (f env (sl_name l) info ls')) (sl_name l)"
  shows "map_of (snd (set_labels env b lrs info ls)) (sl_name l) =
    map_of (snd (f env (sl_name l) info ls)) (sl_name l)"
  using assms(1-3)
proof (induction lrs arbitrary: ls)
  case (Cons a lrs)
  have a: "a \<in> set rows" and lr: "l \<in> set rows" using Cons.prems by auto
  show ?case
  proof (cases "a = l")
    case True
    have "map_of (snd (set_labels env b lrs info (label_step env b info l ls))) (sl_name l) =
        map_of (label_step env b info l ls) (sl_name l)"
      using Cons.prems True names lr
      by (intro set_labels_other) (auto dest: inj_onD simp: distinct_map)
    with True lr assms(4,5) show ?thesis
      by (auto simp: set_labels_Cons label_step_def simp del: set_labels.simps(2))
  next
    case False
    then have "sl_name a \<noteq> sl_name l" using names a lr by (auto simp: distinct_map dest: inj_onD)
    then have "map_of (label_step env b info a ls) (sl_name l) = map_of ls (sl_name l)"
      using a by (intro label_step_other) auto
    from keeps [OF this] Cons.IH [of "label_step env b info a ls"] Cons.prems False
    show ?thesis by (simp add: set_labels_Cons [OF a] del: set_labels.simps(2))
  qed
qed simp

end

lemma label_setters_own [simp, intro]:
  "writes_own_label set_credential_id" "writes_own_label set_error_type"
  "writes_own_label set_protocol" "writes_own_label set_backend_protocol"
  "writes_own_label set_consumer_project" "writes_own_label set_referer"
  "writes_own_label set_response_code" "writes_own_label set_response_code_class"
  "writes_own_label set_status_code" "writes_own_label set_location"
  "writes_own_label set_api_method" "writes_own_label set_api_version"
  "writes_own_label set_platform" "writes_own_label set_service_agent"
  "writes_own_label set_user_agent"
  by (simp_all add: writes_own_label_def label_setters put_nonempty_def put_error_type_def Let_def)

lemma supported_label_names: "distinct (map sl_name supported_labels)"
  by code_simp

lemma supported_label_setters:
  "list_all (\<lambda>l. \<forall>f. sl_set l = Some f \<longrightarrow> writes_own_label f) supported_labels"
  by (simp add: supported_labels_def supported_labels_request_def supported_labels_system_def
      SupportedLabel_row_def)

interpretation supported_label: label_table supported_labels
proof
  show "distinct (map sl_name (supported_labels :: 'a SupportedLabel list))"
    by (rule supported_label_names)
  show "writes_own_label f"
    if "l \<in> set supported_labels" "sl_set l = Some f" for l and f :: "'a label_setter"
    using that supported_label_setters by (auto simp: list_all_iff)
qed

section \<open>The operations of a report\<close>

text \<open>The table without its setters, and the metrics due in a report.\<close>

definition metric_rows :: "(string \<times> Tag \<times> Mark) list" where
  "metric_rows = map (\<lambda>m. (sm_name m, sm_tag m, sm_mark m)) (supported_metrics :: unit SupportedMetric list)"

definition due_name :: "bool \<Rightarrow> ReportRequestInfo \<Rightarrow> string \<Rightarrow> bool" where
  "due_name by_consumer info n \<longleftrightarrow>
     (\<exists>t k. (n, t, k) \<in> set metric_rows \<and> tag_due info t \<and>
       (if by_consumer then k = PRODUCER_BY_CONSUMER
        else k \<noteq> PRODUCER_BY_CONSUMER \<and> (k = CONSUMER \<longrightarrow> api_key info \<noteq> [])))"

lemma metric_rows_eq: "map (\<lambda>m. (sm_name m, sm_tag m, sm_mark m)) supported_metrics = metric_rows"
  by (simp add: metric_rows_def supported_metrics_def supported_metrics_counts_def
      supported_metrics_times_def SupportedMetric_row_def)

lemma metric_rows_names: "distinct (map fst metric_rows)"
  by code_simp

lemma metric_due_name:
  fixes m :: "'d SupportedMetric"
  assumes "m \<in> set supported_metrics" "metric_due b info m"
  shows "due_name b info (sm_name m)"
proof -
  have "(sm_name m, sm_tag m, sm_mark m) \<in>
      set (map (\<lambda>m. (sm_name m, sm_tag m, sm_mark m)) (supported_metrics :: 'd SupportedMetric list))"
    using assms(1) by auto
  then have "(sm_name m, sm_tag m, sm_mark m) \<in> set metric_rows" unfolding metric_rows_eq .
  with assms(2) show ?thesis by (auto simp: due_name_def metric_due_def split: if_splits)
qed

text \<open>A value set that a row of the table emits into a report.\<close>

definition row_value :: "'d env \<Rightarrow> bool \<Rightarrow> ReportRequestInfo \<Rightarrow> 'd MetricValueSet \<Rightarrow> bool" where
  "row_value env b info v \<longleftrightarrow> (\<exists>m\<in>set supported_metrics. v \<in> set (row_values env b info m))"

lemma row_values_due: "v \<in> set (row_values env b info m) \<Longrightarrow> metric_due b info m"
  by (auto simp: row_values_def split: option.splits if_splits)

lemma row_value_due: "row_value env b info v \<Longrightarrow> due_name b info (mvs_metric_name v)"
  by (metis row_value_def supported.row_values_name metric_due_name row_values_due)

text \<open>What both constructors establish.\<close>

definition valid_builder :: "'d RequestBuilder \<Rightarrow> bool" where
  "valid_builder rb \<longleftrightarrow>
     distinct (rb_metrics rb) \<and> set (rb_metrics rb) \<subseteq> set supported_metrics \<and>
     distinct (rb_labels rb) \<and> set (rb_labels rb) \<subseteq> set supported_labels"

lemma distinct_supported [simp]: "distinct supported_metrics" "distinct supported_labels"
  by (rule supported_metric_names [THEN distinct_map [THEN iffD1, THEN conjunct1]],
      rule supported_label_names [THEN distinct_map [THEN iffD1, THEN conjunct1]])

lemma valid_builders [simp, intro]:
  "valid_builder (RequestBuilder_all logs n c)"
  "valid_builder (RequestBuilder_some logs ms ls n c)"
  by (auto simp: valid_builder_def RequestBuilder_all_def RequestBuilder_some_def)

definition new_operations :: "'d env \<Rightarrow> 'd RequestBuilder \<Rightarrow> ReportRequestInfo \<Rightarrow> 'd Operation list" where
  "new_operations env rb info =
     rr_operations (snd (FillReportRequest env rb info
       \<lparr>rr_service_name = [], rr_service_config_id = [], rr_operations = []\<rparr>))"

lemma FillReportRequest_operations:
  "rr_operations (snd (FillReportRequest env rb info request)) =
     rr_operations request @ new_operations env rb info"
  by (auto simp: new_operations_def FillReportRequest_def AppendByConsumerOperations_def Let_def
      split: prod.splits if_splits)

lemma common_fields_keep [simp]:
  "op_metric_value_sets (SetOperationCommonFields info now op) = op_metric_value_sets op"
  "op_labels (SetOperationCommonFields info now op) = op_labels op"
  "op_log_entries (SetOperationCommonFields info now op) = op_log_entries op"
  by (simp_all add: SetOperationCommonFields_def Let_def)

lemma common_fields_consumer:
  "op_consumer_id (SetOperationCommonFields info now op) =
     (if api_key info \<noteq> [] then kConsumerIdApiKey @ api_key info else op_consumer_id op)"
  "op_start_time (SetOperationCommonFields info now op) = Some now"
  "op_end_time (SetOperationCommonFields info now op) = Some now"
  by (simp_all add: SetOperationCommonFields_def Let_def)

lemma new_Operation_sel [simp]:
  "op_metric_value_sets new_Operation = []" "op_labels new_Operation = []"
  "op_log_entries new_Operation = []" "op_operation_id new_Operation = []"
  by (simp_all add: new_Operation_def)

lemma FillMetricsAndLabels_sound:
  assumes "valid_builder rb"
  shows "\<exists>ls vs. snd (FillMetricsAndLabels env rb b info op) =
      op\<lparr>op_labels := ls, op_metric_value_sets := op_metric_value_sets op @ vs\<rparr> \<and>
    (\<forall>v\<in>set vs. row_value env b info v) \<and>
    (ls = op_labels op \<or> ls = snd (set_labels env b (rb_labels rb) info (op_labels op)))"
proof -
  have sub: "set (rb_metrics rb) \<subseteq> set supported_metrics" using assms by (simp add: valid_builder_def)
  let ?sl = "set_labels env b (rb_labels rb) info (op_labels op)"
  let ?op = "op\<lparr>op_labels := snd ?sl\<rparr>"
  obtain vs where vs: "snd (set_metrics env b (rb_metrics rb) info ?op) =
      ?op\<lparr>op_metric_value_sets := op_metric_value_sets ?op @ vs\<rparr>"
    "\<forall>v\<in>set vs. \<exists>m\<in>set (rb_metrics rb). v \<in> set (row_values env b info m)"
    using supported.set_metrics_sound [OF sub, of env b info ?op] by blast
  consider "\<not> (operation_id info \<noteq> [] \<and> operation_name info \<noteq> [])"
    | "operation_id info \<noteq> []" "operation_name info \<noteq> []" "\<not> st_ok (fst ?sl)"
    | "operation_id info \<noteq> []" "operation_name info \<noteq> []" "st_ok (fst ?sl)" by blast
  then show ?thesis
  proof cases
    case 1
    then have "snd (FillMetricsAndLabels env rb b info op) =
        op\<lparr>op_labels := op_labels op, op_metric_value_sets := op_metric_value_sets op @ []\<rparr>"
      by (auto simp: FillMetricsAndLabels_def)
    then show ?thesis by fastforce
  next
    case 2
    then have "snd (FillMetricsAndLabels env rb b info op) =
        op\<lparr>op_labels := snd ?sl, op_metric_value_sets := op_metric_value_sets op @ []\<rparr>"
      by (simp add: FillMetricsAndLabels_def case_prod_beta)
    then show ?thesis by fastforce
  next
    case 3
    then have "snd (FillMetricsAndLabels env rb b info op) =
        op\<lparr>op_labels := snd ?sl, op_metric_value_sets := op_metric_value_sets op @ vs\<rparr>"
      using vs(1) by (simp add: FillMetricsAndLabels_def case_prod_beta)
    moreover have "\<forall>v\<in>set vs. row_value env b info v"
      using vs(2) sub by (auto simp: row_value_def)
    ultimately show ?thesis by blast
  qed
qed

lemma new_operations_cases:
  fixes env :: "'d env"
  assumes "valid_builder rb"
  obtains op1 where "new_operations env rb info = [op1]"
    "\<forall>v\<in>set (op_metric_value_sets op1). row_value env False info v"
    "op_labels op1 = [] \<or> op_labels op1 = snd (set_labels env False (rb_labels rb) info [])"
  | op1 op2 where "new_operations env rb info = [op1, op2]" "consumer_project_id (check_response_info info) \<noteq> []"
    "\<forall>v\<in>set (op_metric_value_sets op1). row_value env False info v"
    "\<forall>v\<in>set (op_metric_value_sets op2). row_value env True info v"
    "op_labels op1 = [] \<or> op_labels op1 = snd (set_labels env False (rb_labels rb) info [])"
    "op_operation_id op2 = operation_id info @ ''1''"
proof -
  let ?now = "CreateTimestamp (current_time info)"
  let ?op = "SetOperationCommonFields info ?now (new_Operation :: 'd Operation)"
  let ?op' = "?op\<lparr>op_operation_id := op_operation_id ?op @ ''1''\<rparr>"
  obtain ls vs where f: "snd (FillMetricsAndLabels env rb False info ?op) =
      ?op\<lparr>op_labels := ls, op_metric_value_sets := vs\<rparr>"
    "\<forall>v\<in>set vs. row_value env False info v"
    "ls = [] \<or> ls = snd (set_labels env False (rb_labels rb) info [])"
    using FillMetricsAndLabels_sound [OF assms, of env False info ?op] by auto
  obtain ls' vs' where g: "snd (FillMetricsAndLabels env rb True info ?op') =
      ?op'\<lparr>op_labels := ls', op_metric_value_sets := vs'\<rparr>"
    "\<forall>v\<in>set vs'. row_value env True info v"
    using FillMetricsAndLabels_sound [OF assms, of env True info ?op'] by auto
  have id: "op_operation_id ?op = operation_id info"
    by (simp add: SetOperationCommonFields_def Let_def)
  show ?thesis
  proof (cases "st_ok (fst (FillMetricsAndLabels env rb False info ?op)) \<and>
      consumer_project_id (check_response_info info) \<noteq> []")
    case True
    then have "\<exists>op1. new_operations env rb info = [op1, snd (FillMetricsAndLabels env rb True info ?op')] \<and>
        op_metric_value_sets op1 = vs \<and> op_labels op1 = ls"
      using f(1)
      by (simp add: new_operations_def FillReportRequest_def AppendByConsumerOperations_def
          VerifyRequiredReportFields_def Let_def case_prod_beta)
    then obtain op1 where "new_operations env rb info = [op1, snd (FillMetricsAndLabels env rb True info ?op')]"
      "op_metric_value_sets op1 = vs" "op_labels op1 = ls" by blast
    then show ?thesis
      using True f g id by (intro that(2) [of op1 "snd (FillMetricsAndLabels env rb True info ?op')"]) simp_all
  next
    case False
    then have "\<exists>op1. new_operations env rb info = [op1] \<and> op_metric_value_sets op1 = vs \<and> op_labels op1 = ls"
      using f(1)
      by (auto simp: new_operations_def FillReportRequest_def VerifyRequiredReportFields_def Let_def
          case_prod_beta)
    then obtain op1 where "new_operations env rb info = [op1]" "op_metric_value_sets op1 = vs" "op_labels op1 = ls"
      by blast
    then show ?thesis using f by (intro that(1) [of op1]) simp_all
  qed
qed

section \<open>Which metrics and labels a report carries\<close>


definition example_env :: "double list env" where
  "example_env =
     \<lparr>env_version = ''2.0'', env_base64url = id, env_code_number = (\<lambda>c. if c = OK then 0 else 2),
      env_InitExponential = (\<lambda>opts. (Status_OK, [])),
      env_AddSample = (\<lambda>x d. (Status_OK, x # d))\<rparr>"

definition example_info :: ReportRequestInfo where
  "example_info = new_ReportRequestInfo\<lparr>operation_id := ''op'', operation_name := ''M'', response_code := 404\<rparr>"


text \<open>
  The consumer project is never a label of the operation that reports to the producer.
\<close>

lemma FillReportRequest_no_consumer_project:
  fixes env :: "'d env"
  assumes "valid_builder rb" "rr_operations (snd (FillReportRequest env rb info request)) =
      rr_operations request @ op1 # ops2"
  shows "map_of (op_labels op1) kServiceControlConsumerProject = None"
proof -
  have rows: "\<forall>l\<in>set (supported_labels :: 'd SupportedLabel list).
      sl_name l = kServiceControlConsumerProject \<longrightarrow> sl_by_consumer_only l"
    by (simp add: supported_labels_def supported_labels_request_def supported_labels_system_def
        SupportedLabel_row_def label_names)
  have "map_of (snd (set_labels env False (rb_labels rb) info [])) kServiceControlConsumerProject = map_of [] kServiceControlConsumerProject"
    using assms(1) rows by (intro supported_label.set_labels_other) (auto simp: valid_builder_def)
  moreover have "new_operations env rb info = op1 # ops2"
    using assms(2) by (simp add: FillReportRequest_operations)
  ultimately show ?thesis
    by (cases rule: new_operations_cases [OF assms(1), of env info]) auto
qed

text \<open>
  The types of the values. The table declares a value type for every metric; a setter of a row stores
  one value of that type, and for a distribution leaves it unset when the helper fails.
\<close>

fun value_of_type :: "ValueType \<Rightarrow> 'd metric_value \<Rightarrow> bool" where
  "value_of_type INT64 (Int64_value _) = True"
| "value_of_type DISTRIBUTION (Distribution_value _) = True"
| "value_of_type _ _ = False"

definition emits_type :: "ValueType \<Rightarrow> 'd metric_setter \<Rightarrow> bool" where
  "emits_type t f \<longleftrightarrow>
     (\<forall>env name info. \<forall>v\<in>set (emitted env f name info). \<exists>x. mvs_metric_values v = [x] \<and>
        (value_of_type t x \<or> t = DISTRIBUTION \<and> x = Unset \<and> \<not> distributions_ok env))"

lemma distribution_of_type:
  "value_of_type DISTRIBUTION (snd (distribution_of env opts x)) \<or>
   snd (distribution_of env opts x) = Unset \<and> \<not> distributions_ok env"
proof (cases "st_ok (fst (distribution_of env opts x))")
  case True
  then show ?thesis by (auto simp: distribution_of_def split: prod.splits if_splits)
next
  case False
  then have "\<not> distributions_ok env" by (auto simp: distributions_ok_def)
  with False show ?thesis by (auto simp: distribution_of_def split: prod.splits if_splits)
qed

lemmas emits_simps = emits_type_def emitted_def metric_setters AddDistributionMetric_eq
  AddInt64Metric_def AddMetricValue_sets distribution_of_type

lemma setters_type [simp, intro]:
  "emits_type INT64 set_int64_metric_to_constant_1"
  "emits_type INT64 set_int64_metric_to_constant_1_if_http_error"
  "emits_type DISTRIBUTION set_distribution_metric_to_request_size"
  "emits_type DISTRIBUTION set_distribution_metric_to_response_size"
  "emits_type DISTRIBUTION set_distribution_metric_to_request_time"
  "emits_type DISTRIBUTION set_distribution_metric_to_backend_time"
  "emits_type DISTRIBUTION set_distribution_metric_to_overhead_time"
  "emits_type INT64 set_int64_metric_to_request_bytes"
  "emits_type INT64 set_int64_metric_to_response_bytes"
  "emits_type DISTRIBUTION set_distribution_metric_to_streaming_request_message_counts"
  "emits_type DISTRIBUTION set_distribution_metric_to_streaming_response_message_counts"
  "emits_type DISTRIBUTION set_distribution_metric_to_streaming_durations"
  by (simp_all add: emits_simps)

definition typed_row :: "'d SupportedMetric \<Rightarrow> bool" where
  "typed_row m \<longleftrightarrow> (\<forall>f. sm_set m = Some f \<longrightarrow> emits_type (sm_value_type m) f)"

lemma typed_rows: "list_all typed_row supported_metrics"
  by (simp add: supported_metrics_def supported_metrics_counts_def supported_metrics_times_def
      SupportedMetric_row_def typed_row_def)

lemma row_values_type:
  assumes "m \<in> set supported_metrics" "v \<in> set (row_values env b info m)"
  shows "\<exists>x. mvs_metric_values v = [x] \<and>
    (value_of_type (sm_value_type m) x \<or>
     sm_value_type m = DISTRIBUTION \<and> x = Unset \<and> \<not> distributions_ok env)"
proof -
  have "typed_row m" using assms(1) typed_rows by (auto simp: list_all_iff)
  with assms(2) show ?thesis
    by (cases "sm_set m") (auto simp: row_values_def typed_row_def emits_type_def split: if_splits)
qed

text \<open>
  C18: the metrics of a report are well typed: every metric value set of every operation that
  \<open>FillReportRequest\<close> adds belongs to a row of the metric table, holds exactly one value, and the
  value has the type that the row declares: an integer for an INT64 row, a distribution for a
  DISTRIBUTION row. Only a failure of the distribution helper can leave a DISTRIBUTION value unset.
\<close>

theorem FillReportRequest_value_types:
  fixes env :: "'d env"
  assumes "valid_builder rb"
    and "rr_operations (snd (FillReportRequest env rb info request)) = rr_operations request @ ops"
    and "operation \<in> set ops" "v \<in> set (op_metric_value_sets operation)"
  shows "\<exists>m x. m \<in> set (supported_metrics :: 'd SupportedMetric list) \<and> sm_name m = mvs_metric_name v \<and>
    mvs_metric_values v = [x] \<and>
    (value_of_type (sm_value_type m) x \<or>
     sm_value_type m = DISTRIBUTION \<and> x = Unset \<and> \<not> distributions_ok env)"
proof -
  have "new_operations env rb info = ops" using assms(2) by (simp add: FillReportRequest_operations)
  then have "row_value env False info v \<or> row_value env True info v"
    using assms(3,4) by (cases rule: new_operations_cases [OF assms(1), of env info]) auto
  then obtain b m where "m \<in> set supported_metrics" "v \<in> set (row_values env b info m)"
    by (auto simp: row_value_def)
  then show ?thesis using row_values_type supported.row_values_name by metis
qed

lemma example_distributions: "distributions_ok example_env"
  by (simp add: distributions_ok_def distribution_of_def example_env_def)

theorem FillReportRequest_value_types_witness:
  "\<exists>operation v m x. operation \<in> set (rr_operations (snd (FillReportRequest example_env
        (RequestBuilder_all {} ''s'' ''c'') example_info
        \<lparr>rr_service_name = [], rr_service_config_id = [], rr_operations = []\<rparr>))) \<and>
     v \<in> set (op_metric_value_sets operation) \<and>
     m \<in> set (supported_metrics :: double list SupportedMetric list) \<and> sm_name m = mvs_metric_name v \<and>
     mvs_metric_values v = [x] \<and> value_of_type (sm_value_type m) x"
proof -
  let ?rb = "RequestBuilder_all {} ''s'' ''c'' :: double list RequestBuilder"
  let ?r = "\<lparr>rr_service_name = [], rr_service_config_id = [], rr_operations = []\<rparr> :: double list ReportRequest"
  let ?ops = "rr_operations (snd (FillReportRequest example_env ?rb example_info ?r))"
  have "op_metric_value_sets (hd ?ops) \<noteq> []" "?ops \<noteq> []" by code_simp+
  then obtain operation v where o: "operation \<in> set ?ops" "v \<in> set (op_metric_value_sets operation)"
    by (meson hd_in_set)
  have "\<exists>m x. m \<in> set (supported_metrics :: double list SupportedMetric list) \<and>
      sm_name m = mvs_metric_name v \<and> mvs_metric_values v = [x] \<and> value_of_type (sm_value_type m) x"
    using FillReportRequest_value_types [of ?rb example_env example_info ?r ?ops, OF _ _ o]
      example_distributions by simp
  with o show ?thesis by blast
qed

section \<open>Counting over a stream of reports\<close>

fun int64_of :: "'d metric_value \<Rightarrow> int" where
  "int64_of (Int64_value n) = n"
| "int64_of _ = 0"

definition set_total :: "'d MetricValueSet \<Rightarrow> int" where
  "set_total s = sum_list (map int64_of (mvs_metric_values s))"

definition metric_total :: "string \<Rightarrow> 'd Operation list \<Rightarrow> int" where
  "metric_total name ops =
     sum_list (map set_total (filter (\<lambda>s. mvs_metric_name s = name) (concat (map op_metric_value_sets ops))))"

text \<open>All operations that the reports of one stream send.\<close>

definition stream_operations :: "'d env \<Rightarrow> 'd RequestBuilder \<Rightarrow> ReportRequestInfo list \<Rightarrow> 'd Operation list" where
  "stream_operations env rb infos =
     concat (map (\<lambda>info. rr_operations (snd (FillReportRequest env rb info
       \<lparr>rr_service_name = [], rr_service_config_id = [], rr_operations = []\<rparr>))) infos)"

definition has_method :: "ReportRequestInfo \<Rightarrow> bool" where
  "has_method info \<longleftrightarrow> operation_id info \<noteq> [] \<and> operation_name info \<noteq> []"

lemma FillMetricsAndLabels_complete:
  assumes "valid_builder rb" "distributions_ok env" "has_method info"
  shows "\<exists>ls. FillMetricsAndLabels env rb b info op =
    (Status_OK, op\<lparr>op_labels := ls, op_metric_value_sets := op_metric_value_sets op @
       concat (map (row_values env b info) (rb_metrics rb))\<rparr>)"
proof -
  have sub: "set (rb_metrics rb) \<subseteq> set supported_metrics" "set (rb_labels rb) \<subseteq> set supported_labels"
    using assms(1) by (simp_all add: valid_builder_def)
  show ?thesis
    using supported_label.set_labels_ok [OF sub(2), of env b info "op_labels op"] assms(3)
      supported.set_metrics_complete [OF assms(2) sub(1)]
    by (auto simp: FillMetricsAndLabels_def has_method_def case_prod_beta)
qed

lemma new_operations_values:
  fixes env :: "'d env"
  assumes "valid_builder rb" "distributions_ok env" "has_method info"
  shows "concat (map op_metric_value_sets (new_operations env rb info)) =
    concat (map (row_values env False info) (rb_metrics rb)) @
    (if consumer_project_id (check_response_info info) \<noteq> []
     then concat (map (row_values env True info) (rb_metrics rb)) else [])"
proof -
  let ?now = "CreateTimestamp (current_time info)"
  let ?op = "SetOperationCommonFields info ?now (new_Operation :: 'd Operation)"
  obtain ls where ls: "FillMetricsAndLabels env rb False info ?op = (Status_OK,
      ?op\<lparr>op_labels := ls, op_metric_value_sets := concat (map (row_values env False info) (rb_metrics rb))\<rparr>)"
    using FillMetricsAndLabels_complete [OF assms, of False ?op] by auto
  obtain ls' where ls': "FillMetricsAndLabels env rb True info (?op\<lparr>op_operation_id := op_operation_id ?op @ ''1''\<rparr>) =
      (Status_OK, ?op\<lparr>op_operation_id := op_operation_id ?op @ ''1'', op_labels := ls',
         op_metric_value_sets := concat (map (row_values env True info) (rb_metrics rb))\<rparr>)"
    using FillMetricsAndLabels_complete [OF assms, of True "?op\<lparr>op_operation_id := op_operation_id ?op @ ''1''\<rparr>"]
    by auto
  show ?thesis
    by (simp add: new_operations_def FillReportRequest_def AppendByConsumerOperations_def
        VerifyRequiredReportFields_def Let_def ls ls')
qed

lemma row_not_by_consumer: "sm_mark m \<noteq> PRODUCER_BY_CONSUMER \<Longrightarrow> row_values env True info m = []"
  by (auto simp: row_values_def metric_due_def split: option.splits)

lemma metric_total_report:
  assumes "valid_builder rb" "distributions_ok env" "has_method info" "m \<in> set (rb_metrics rb)"
    and "sm_mark m \<noteq> PRODUCER_BY_CONSUMER"
  shows "metric_total (sm_name m) (new_operations env rb info) =
    sum_list (map set_total (row_values env False info m))"
proof -
  have d: "distinct (rb_metrics rb)" "set (rb_metrics rb) \<subseteq> set supported_metrics"
    using assms(1) by (simp_all add: valid_builder_def)
  note v = supported.values_of_metric [OF d assms(4)]
  show ?thesis
    by (simp add: metric_total_def new_operations_values [OF assms(1-3)] v row_not_by_consumer [OF assms(5)])
qed

lemma metric_total_stream:
  "metric_total n (stream_operations env rb infos) =
   sum_list (map (\<lambda>i. metric_total n (new_operations env rb i)) infos)"
  by (induction infos) (simp_all add: stream_operations_def metric_total_def new_operations_def)

text \<open>The rows that count requests, and what one report adds to them.\<close>

definition request_count_row :: "Mark \<Rightarrow> string \<Rightarrow> 'd SupportedMetric" where
  "request_count_row k n = SupportedMetric_row n DELTA INT64 START k (Some set_int64_metric_to_constant_1)"

lemma request_count_row_value:
  "k \<noteq> PRODUCER_BY_CONSUMER \<Longrightarrow>
   sum_list (map set_total (row_values env False info (request_count_row k n))) =
     (if is_first_report info \<and> (k = CONSUMER \<longrightarrow> api_key info \<noteq> []) then 1 else 0)"
  by (auto simp: request_count_row_def SupportedMetric_row_def row_values_def metric_due_def tag_due_def
      emitted_def set_int64_metric_to_constant_1_def AddInt64Metric_def AddMetricValue_sets set_total_def)

lemma request_count_rows:
  "request_count_row PRODUCER ''serviceruntime.googleapis.com/api/producer/request_count''
     \<in> set (rb_metrics (RequestBuilder_all logs n c))"
  "request_count_row CONSUMER ''serviceruntime.googleapis.com/api/consumer/request_count''
     \<in> set (rb_metrics (RequestBuilder_all logs n c))"
  by (simp_all add: RequestBuilder_all_def supported_metrics_def supported_metrics_counts_def
      request_count_row_def SupportedMetric_row_def)

lemma stream_counts_once:
  fixes env :: "'d env"
  assumes "distributions_ok env" "is_first_report i" "\<And>j. j \<in> set rest \<Longrightarrow> \<not> is_first_report j"
    and "\<And>j. j \<in> set (i # rest) \<Longrightarrow> has_method j"
  shows "metric_total ''serviceruntime.googleapis.com/api/producer/request_count''
       (stream_operations env (RequestBuilder_all logs n c) (i # rest)) = 1 \<and>
     metric_total ''serviceruntime.googleapis.com/api/consumer/request_count''
       (stream_operations env (RequestBuilder_all logs n c) (i # rest)) = (if api_key i = [] then 0 else 1)"
proof -
  let ?rb = "RequestBuilder_all logs n c :: 'd RequestBuilder"
  have one: "metric_total name (stream_operations env ?rb (i # rest)) =
      (if k = CONSUMER \<longrightarrow> api_key i \<noteq> [] then 1 else 0)"
    if k: "k \<noteq> PRODUCER_BY_CONSUMER" and m: "request_count_row k name \<in> set (rb_metrics ?rb)" for k name
  proof -
    have t: "metric_total name (new_operations env ?rb j) =
        (if is_first_report j \<and> (k = CONSUMER \<longrightarrow> api_key j \<noteq> []) then 1 else 0)"
      if "j \<in> set (i # rest)" for j
      using metric_total_report [OF valid_builders(1) assms(1) assms(4) [OF that] m] k
        request_count_row_value [OF k, of env j name]
      by (simp add: request_count_row_def SupportedMetric_row_def)
    have "map (\<lambda>j. metric_total name (new_operations env ?rb j)) rest = map (\<lambda>_. 0) rest"
      using t assms(3) by (intro map_cong) auto
    then have "sum_list (map (\<lambda>j. metric_total name (new_operations env ?rb j)) rest) = 0"
      by (simp only: sum_list_0)
    with t [of i] assms(2) show ?thesis by (simp add: metric_total_stream)
  qed
  show ?thesis
    using one [OF _ request_count_rows(1)] one [OF _ request_count_rows(2)] by simp
qed

section \<open>Check and quota requests\<close>

lemma map_of_put_nonempty:
  "map_of (put_nonempty k v ls) k' = (if k = k' \<and> v \<noteq> [] then Some v else map_of ls k')"
  by (simp add: put_nonempty_def)

lemma map_of_put: "map_of (put k v ls) k' = (if k = k' then Some v else map_of ls k')"
  by simp

lemma check_label_names:
  "distinct [kServiceControlCallerIp, kServiceControlReferer, kServiceControlServiceAgent,
     kServiceControlUserAgent, kServiceControlAndroidPackageName,
     kServiceControlAndroidCertFingerprint, kServiceControlIosBundleId]"
  "distinct [kServiceControlIosBundleId, kServiceControlAndroidCertFingerprint,
     kServiceControlAndroidPackageName, kServiceControlUserAgent, kServiceControlServiceAgent,
     kServiceControlReferer, kServiceControlCallerIp]"
  by code_simp+

lemmas check_label_names_neq = check_label_names [simplified]

definition check_labels :: "'d env \<Rightarrow> CheckRequestInfo \<Rightarrow> labels \<Rightarrow> labels" where
  "check_labels env info ls =
     put_nonempty kServiceControlIosBundleId (ios_bundle_id info)
    (put_nonempty kServiceControlAndroidCertFingerprint (android_cert_fingerprint info)
    (put_nonempty kServiceControlAndroidPackageName (android_package_name info)
    (put kServiceControlServiceAgent (get_service_agent env)
    (put kServiceControlUserAgent kUserAgent
    (put_nonempty kServiceControlReferer (referer info)
    (put_nonempty kServiceControlCallerIp (client_ip info) ls))))))"

lemma check_labels_lookup:
  "map_of (check_labels env info ls) kServiceControlUserAgent = Some ''ESPv2''"
  "map_of (check_labels env info ls) kServiceControlServiceAgent = Some (''ESPv2/'' @ env_version env)"
  "map_of (check_labels env info ls) kServiceControlCallerIp =
     (if client_ip info = [] then map_of ls kServiceControlCallerIp else Some (client_ip info))"
  "map_of (check_labels env info ls) kServiceControlReferer =
     (if referer info = [] then map_of ls kServiceControlReferer else Some (referer info))"
  "map_of (check_labels env info ls) kServiceControlIosBundleId =
     (if ios_bundle_id info = [] then map_of ls kServiceControlIosBundleId else Some (ios_bundle_id info))"
  "map_of (check_labels env info ls) kServiceControlAndroidPackageName =
     (if android_package_name info = [] then map_of ls kServiceControlAndroidPackageName
      else Some (android_package_name info))"
  "map_of (check_labels env info ls) kServiceControlAndroidCertFingerprint =
     (if android_cert_fingerprint info = [] then map_of ls kServiceControlAndroidCertFingerprint
      else Some (android_cert_fingerprint info))"
  by (simp_all add: check_labels_def map_of_put_nonempty map_of_put get_service_agent_def
      kServiceAgentPrefix_def kUserAgent_def check_label_names_neq del: map_of_update)

text \<open>
  A check request is refused exactly when the operation id or name is missing, and is then left
  as it was; otherwise it carries the API key as the consumer, one time stamp for start and end,
  the agent labels always, and each optional label exactly when its value is present.
\<close>

lemma FillCheckRequest_outcome:
  "let (st, req) = FillCheckRequest env rb info request in
   if operation_id info = [] \<or> operation_name info = []
   then st_code st = INVALID_ARGUMENT \<and> req = request
   else st_ok st \<and>
     (api_key info \<noteq> [] \<longrightarrow> op_consumer_id (cr_operation req) = ''api_key:'' @ api_key info) \<and>
     op_start_time (cr_operation req) = op_end_time (cr_operation req) \<and>
     (let l = map_of (op_labels (cr_operation req)); l0 = map_of (op_labels (cr_operation request)) in
      l kServiceControlUserAgent = Some ''ESPv2'' \<and>
      l kServiceControlServiceAgent = Some (''ESPv2/'' @ env_version env) \<and>
      l kServiceControlCallerIp = (if client_ip info = [] then l0 kServiceControlCallerIp else Some (client_ip info)) \<and>
      l kServiceControlReferer = (if referer info = [] then l0 kServiceControlReferer else Some (referer info)) \<and>
      l kServiceControlIosBundleId =
        (if ios_bundle_id info = [] then l0 kServiceControlIosBundleId else Some (ios_bundle_id info)) \<and>
      l kServiceControlAndroidPackageName =
        (if android_package_name info = [] then l0 kServiceControlAndroidPackageName
         else Some (android_package_name info)) \<and>
      l kServiceControlAndroidCertFingerprint =
        (if android_cert_fingerprint info = [] then l0 kServiceControlAndroidCertFingerprint
         else Some (android_cert_fingerprint info)))"
proof (cases "operation_id info = [] \<or> operation_name info = []")
  case True
  then show ?thesis by (auto simp: FillCheckRequest_def VerifyRequiredCheckFields_def Let_def)
next
  case False
  let ?op = "SetOperationCommonFields info (CreateTimestamp (current_time info)) (cr_operation request)"
  have "FillCheckRequest env rb info request =
      (Status_OK, request\<lparr>cr_service_name := rb_service_name rb, cr_service_config_id := rb_service_config_id rb,
         cr_operation := ?op\<lparr>op_labels := check_labels env info (op_labels (cr_operation request))\<rparr>\<rparr>)"
    using False by (simp add: FillCheckRequest_def VerifyRequiredCheckFields_def Let_def check_labels_def)
  with False show ?thesis
    by (simp add: Let_def check_labels_lookup common_fields_consumer kConsumerIdApiKey_def)
qed

text \<open>
  A quota request asks, in best-effort mode, for every configured metric in order and at a cost of
  at least one, on behalf of the API key if there is one and of the producer project otherwise.
\<close>

lemma FillAllocateQuotaRequest_costs:
  "let op = aq_allocate_operation (snd (FillAllocateQuotaRequest env rb info request));
       op0 = aq_allocate_operation request;
       costs = (case metric_cost_vector info of None \<Rightarrow> [] | Some cs \<Rightarrow> cs)
   in st_ok (fst (FillAllocateQuotaRequest env rb info request)) \<and>
      qo_quota_mode op = BEST_EFFORT \<and>
      qo_quota_metrics op = qo_quota_metrics op0 @
        map (\<lambda>(n, c). \<lparr>mvs_metric_name = n, mvs_metric_values = [Int64_value (max 1 c)]\<rparr>) costs \<and>
      qo_consumer_id op =
        (if api_key info \<noteq> [] then ''api_key:'' @ api_key info
         else if producer_project_id info \<noteq> [] then ''project:'' @ producer_project_id info
         else qo_consumer_id op0)"
  by (simp add: FillAllocateQuotaRequest_def Let_def kConsumerIdApiKey_def kConsumerIdProject_def
      max_def split: option.splits) (auto intro!: map_cong)

section \<open>Responses\<close>

definition unavailable_errors :: "CheckErrorCode list" where
  "unavailable_errors =
     [CE_NAMESPACE_LOOKUP_UNAVAILABLE, CE_SERVICE_STATUS_UNAVAILABLE, CE_BILLING_STATUS_UNAVAILABLE,
      CE_QUOTA_CHECK_UNAVAILABLE, CE_CLOUD_RESOURCE_MANAGER_BACKEND_UNAVAILABLE,
      CE_SECURITY_POLICY_BACKEND_UNAVAILABLE, CE_LOCATION_POLICY_BACKEND_UNAVAILABLE]"

definition api_key_errors :: "CheckErrorCode list" where
  "api_key_errors = [CE_API_KEY_NOT_FOUND, CE_API_KEY_EXPIRED, CE_API_KEY_INVALID]"

text \<open>
  C16: the check verdict: a call is let through exactly when Service Control reports no error or its
  first error says that a backend of Service Control is unavailable; the API key counts as invalid
  exactly after an API-key error, and the service as not activated exactly after that error; no
  other status code than invalid argument, permission denied or internal is produced.
\<close>

theorem ConvertCheckResponse_verdict:
  "let (st, i') = ConvertCheckResponse r service i; es = check_errors r in
   (st_ok st \<longleftrightarrow> es = [] \<or> hd es \<in> set unavailable_errors) \<and>
   (is_api_key_valid i' \<longleftrightarrow> is_api_key_valid i \<and> (es = [] \<or> hd es \<notin> set api_key_errors)) \<and>
   (service_is_activated i' \<longleftrightarrow> service_is_activated i \<and> (es = [] \<or> hd es \<noteq> CE_SERVICE_NOT_ACTIVATED)) \<and>
   (st_ok st \<or> st_code st \<in> {INVALID_ARGUMENT, PERMISSION_DENIED, INTERNAL}) \<and>
   consumer_project_id i' =
     (if 0 < consumer_project_number r then to_string (consumer_project_number r)
      else consumer_project_id i)"
proof (cases "check_errors r")
  case Nil
  then show ?thesis by (simp add: ConvertCheckResponse_def Let_def)
next
  case (Cons e es)
  define j where "j = (if 0 < consumer_project_number r
    then i\<lparr>consumer_project_id := to_string (consumer_project_number r)\<rparr> else i)"
  have "let (st, i') = ConvertCheckError e service j in
      (st_ok st \<longleftrightarrow> e \<in> set unavailable_errors) \<and>
      (is_api_key_valid i' \<longleftrightarrow> is_api_key_valid j \<and> e \<notin> set api_key_errors) \<and>
      (service_is_activated i' \<longleftrightarrow> service_is_activated j \<and> e \<noteq> CE_SERVICE_NOT_ACTIVATED) \<and>
      (st_ok st \<or> st_code st \<in> {INVALID_ARGUMENT, PERMISSION_DENIED, INTERNAL}) \<and>
      consumer_project_id i' = consumer_project_id j"
    by (cases e) (simp_all add: unavailable_errors_def api_key_errors_def)
  moreover have "ConvertCheckResponse r service i = ConvertCheckError e service j"
    by (simp add: ConvertCheckResponse_def j_def Let_def Cons)
  moreover have "is_api_key_valid j = is_api_key_valid i" "service_is_activated j = service_is_activated i"
    "consumer_project_id j = (if 0 < consumer_project_number r
       then to_string (consumer_project_number r) else consumer_project_id i)" by (simp_all add: j_def)
  ultimately show ?thesis
    by (cases "ConvertCheckError e service j") (auto simp: Let_def Cons)
qed

theorem ConvertCheckResponse_verdict_witness:
  "\<not> st_ok (fst (ConvertCheckResponse \<lparr>consumer_project_number = 7, check_errors = [CE_API_KEY_EXPIRED]\<rparr>
      ''svc'' new_CheckResponseInfo)) \<and>
   \<not> is_api_key_valid (snd (ConvertCheckResponse
      \<lparr>consumer_project_number = 7, check_errors = [CE_API_KEY_EXPIRED]\<rparr> ''svc'' new_CheckResponseInfo))"
  using ConvertCheckResponse_verdict [of "\<lparr>consumer_project_number = 7, check_errors = [CE_API_KEY_EXPIRED]\<rparr>"
      "''svc''" new_CheckResponseInfo]
  by (simp add: case_prod_beta Let_def unavailable_errors_def api_key_errors_def)

text \<open>
  The quota verdict: a call is let through exactly when there is no quota error or the first one
  is unspecified.
\<close>

lemma ConvertAllocateQuotaResponse_verdict:
  "st_ok (ConvertAllocateQuotaResponse r service) \<longleftrightarrow>
   allocate_errors r = [] \<or> qe_code (hd (allocate_errors r)) = QE_UNSPECIFIED"
  by (auto simp: ConvertAllocateQuotaResponse_def split: list.splits QuotaErrorCode.splits)

text \<open>
  A time stamp splits a time into whole seconds and the remaining nanoseconds.
\<close>

lemma CreateTimestamp_split:
  assumes "0 \<le> t"
  shows "ts_seconds (CreateTimestamp t) * 1000000000 + ts_nanos (CreateTimestamp t) = t \<and>
    0 \<le> ts_nanos (CreateTimestamp t) \<and> ts_nanos (CreateTimestamp t) < 1000000000"
  using assms by (simp add: CreateTimestamp_def signed_divide_int_def signed_modulo_int_def sgn_if)

section \<open>Labels of a report\<close>

lemma new_operations_labels:
  assumes "valid_builder rb" "has_method info"
  shows "op_labels (hd (new_operations env rb info)) = snd (set_labels env False (rb_labels rb) info [])"
proof -
  have sub: "set (rb_metrics rb) \<subseteq> set supported_metrics" "set (rb_labels rb) \<subseteq> set supported_labels"
    using assms(1) by (simp_all add: valid_builder_def)
  have keep: "op_labels (snd (set_metrics env False (rb_metrics rb) info op)) = op_labels op" for op
    using supported.set_metrics_sound [OF sub(1), of env False info op] by fastforce
  have "op_labels (snd (FillMetricsAndLabels env rb False info op)) =
      snd (set_labels env False (rb_labels rb) info (op_labels op))" for op
    using assms(2) by (simp add: FillMetricsAndLabels_def has_method_def case_prod_beta Let_def keep)
  then show ?thesis
    by (simp add: new_operations_def FillReportRequest_def AppendByConsumerOperations_def
        VerifyRequiredReportFields_def Let_def case_prod_beta)
qed

text \<open>
  The credential of a report is the API key if there is one, else the issuer of the token with
  its audience if known, and absent without either.
\<close>

lemma FillReportRequest_credential:
  fixes env :: "'d env"
  assumes "has_method info" "rr_operations (snd (FillReportRequest env (RequestBuilder_all logs n c) info request)) =
      rr_operations request @ op1 # ops2"
  shows "map_of (op_labels op1) ''/credential_id'' =
    (if api_key info \<noteq> [] then Some (''apikey:'' @ api_key info)
     else if auth_issuer info \<noteq> [] then
       Some (''jwtauth:issuer='' @ env_base64url env (auth_issuer info) @
         (if auth_audience info = [] then [] else ''&audience='' @ env_base64url env (auth_audience info)))
     else None)"
proof -
  let ?rb = "RequestBuilder_all logs n c :: 'd RequestBuilder"
  let ?l = "SupportedLabel_row ''/credential_id'' STRING USER (Some set_credential_id) False :: 'd SupportedLabel"
  have l: "?l \<in> set (rb_labels ?rb)" "sl_set ?l = Some set_credential_id" "sl_name ?l = ''/credential_id''"
    "\<not> sl_by_consumer_only ?l"
    by (simp_all add: RequestBuilder_all_def supported_labels_def supported_labels_request_def SupportedLabel_row_def)
  have "valid_builder ?rb" by simp
  then have v: "distinct (rb_labels ?rb)" "set (rb_labels ?rb) \<subseteq> set supported_labels"
    by (simp_all add: valid_builder_def)
  have "map_of (snd (set_labels env False (rb_labels ?rb) info [])) (sl_name ?l) =
      map_of (snd (set_credential_id env (sl_name ?l) info [])) (sl_name ?l)"
    by (rule supported_label.set_labels_own [OF v l(1,2)]) (simp_all add: l set_credential_id_def Let_def)
  moreover have "new_operations env ?rb info = op1 # ops2"
    using assms(2) by (simp add: FillReportRequest_operations)
  ultimately have "map_of (op_labels op1) ''/credential_id'' =
      map_of (snd (set_credential_id env ''/credential_id'' info [])) ''/credential_id''"
    using new_operations_labels [OF valid_builders(1) assms(1), of env logs n c] by (simp add: l(3))
  then show ?thesis by (simp add: set_credential_id_def Let_def)
qed

section \<open>Log entries\<close>

text \<open>
  A log entry as a table: each field with the value it has, or without one when the text is empty or
  the number negative.
\<close>

lemmas log_field_names = kLogFieldNameApiKey_def kLogFieldNameApiMethod_def kLogFieldNameApiName_def kLogFieldNameApiVersion_def kLogFieldNameHttpMethod_def kLogFieldNameHttpResponseCode_def kLogFieldNameJwtPayloads_def kLogFieldNameLocation_def kLogFieldNameLogMessage_def kLogFieldNameProducerProjectId_def kLogFieldNameReferer_def kLogFieldNameRequestHeaders_def kLogFieldNameRequestLatency_def kLogFieldNameRequestSize_def kLogFieldNameResponseHeaders_def kLogFieldNameResponseSize_def kLogFieldNameTimestamp_def kLogFieldNameUrl_def kLogFieldNameClientIp_def

definition text_field :: "string \<Rightarrow> log_value option" where
  "text_field v = (if v = [] then None else Some (String_value v))"

definition size_field :: "int \<Rightarrow> log_value option" where
  "size_field v = (if v < 0 then None else Some (Number_value (Of_int v)))"

definition log_table :: "ReportRequestInfo \<Rightarrow> Timestamp \<Rightarrow> (string \<times> log_value option) list" where
  "log_table info now =
    [(kLogFieldNameTimestamp, Some (Number_value (Secs_nanos (ts_seconds now) (ts_nanos now)))),
     (kLogFieldNameProducerProjectId, text_field (producer_project_id info)),
     (kLogFieldNameApiKey, text_field (api_key info)),
     (kLogFieldNameReferer, text_field (referer info)),
     (kLogFieldNameApiName, text_field (api_name info)),
     (kLogFieldNameApiVersion, text_field (api_version info)),
     (kLogFieldNameUrl, text_field (rri_url info)),
     (kLogFieldNameApiMethod, text_field (api_method info)),
     (kLogFieldNameLocation, text_field (location info)),
     (kLogFieldNameLogMessage, text_field (log_message info)),
     (kLogFieldNameHttpResponseCode, Some (Number_value (Of_int (response_code info)))),
     (kLogFieldNameRequestSize, size_field (request_size info)),
     (kLogFieldNameRequestHeaders, text_field (request_headers info)),
     (kLogFieldNameResponseSize, size_field (response_size info)),
     (kLogFieldNameResponseHeaders, text_field (response_headers info)),
     (kLogFieldNameRequestLatency, size_field (li_request_time_ms (latency info))),
     (kLogFieldNameHttpMethod, text_field (http_method info)),
     (kLogFieldNameClientIp, text_field (client_ip info)),
     (kLogFieldNameJwtPayloads, text_field (jwt_payloads info))]"

fun put_fields :: "(string \<times> log_value option) list \<Rightarrow> (string \<times> log_value) list \<Rightarrow> (string \<times> log_value) list" where
  "put_fields [] fs = fs"
| "put_fields ((k, None) # rows) fs = put_fields rows fs"
| "put_fields ((k, Some v) # rows) fs = put_fields rows (AList.update k v fs)"

lemma map_of_put_fields:
  "distinct (map fst rows) \<Longrightarrow> map_of (put_fields rows fs) k =
     (case map_of rows k of Some (Some v) \<Rightarrow> Some v | _ \<Rightarrow> map_of fs k)"
proof (induction rows fs rule: put_fields.induct)
  case (2 k' rows fs)
  then show ?case by (auto simp: map_of_eq_None_iff split: option.splits) (metis fst_conv image_eqI map_of_SomeD)+
next
  case (3 k' v rows fs)
  then show ?case
    by (auto simp: map_of_update map_of_eq_None_iff split: option.splits) (metis fst_conv image_eqI map_of_SomeD)+
qed simp

lemma log_table_distinct: "distinct (map fst (log_table info now))"
  by (simp add: log_table_def log_field_names)

lemma log_fields_put:
  "log_string k v fs = put_fields [(k, text_field v)] fs" "log_number k n fs = put_fields [(k, size_field n)] fs"
  by (simp_all add: log_string_def log_number_def text_field_def size_field_def)

lemma put_fields_Cons: "put_fields ((k, v) # rows) fs = put_fields rows (put_fields [(k, v)] fs)"
  by (cases v) simp_all

text \<open>
  What a log entry says: each of its fields has the value of the table, it has no other fields, and
  its severity is that of an error from 400 on.
\<close>

lemma FillLogEntry_fields:
  "map_of (le_fields (FillLogEntry info name now)) k =
     (case map_of (log_table info now) k of Some (Some v) \<Rightarrow> Some v | _ \<Rightarrow> None)"
  "le_severity (FillLogEntry info name now) = (if 400 \<le> response_code info then ERROR else INFO)"
  "le_name (FillLogEntry info name now) = name" "le_timestamp (FillLogEntry info name now) = now"
proof -
  have "le_fields (FillLogEntry info name now) = put_fields (log_table info now) []"
    unfolding log_table_def put_fields_Cons [of _ _ "_ # _"]
    by (simp add: FillLogEntry_def Let_def log_fields_put)
  then show "map_of (le_fields (FillLogEntry info name now)) k =
      (case map_of (log_table info now) k of Some (Some v) \<Rightarrow> Some v | _ \<Rightarrow> None)"
    using map_of_put_fields [OF log_table_distinct, of info now "[]" k] by (simp split: option.splits)
qed (simp_all add: FillLogEntry_def Let_def)

end
