(* ===== verification/LogsMetricsLoader.thy ===== *)
theory LogsMetricsLoader
  imports RequestBuilder_Props
begin

text \<open>
  Which logs, metrics and labels a service configuration selects:
  \<open>api_proxy/service_control/logs_metrics_loader.cc\<close>.

  The fields of \<open>google.api.Service\<close> that the loader reads are records. The sets that the
  caller passes are arguments and results; the two predicates of the loader object are arguments
  of its methods, and \<open>Load\<close> fixes them to those of the request builder. The maps from names to
  descriptors are association lists.
\<close>

section \<open>Configuration\<close>

record LogDescriptor =
  logd_name :: string
  logd_labels :: "LabelDescriptor list"

record MonitoredResourceDescriptor =
  mrd_type :: string
  mrd_labels :: "LabelDescriptor list"

record LoggingDestination =
  lgd_monitored_resource :: string
  lgd_logs :: "string list"

record MonitoringDestination =
  mnd_monitored_resource :: string
  mnd_metrics :: "string list"

record Service =
  svc_logging_producer_destinations :: "LoggingDestination list"
  svc_monitoring_producer_destinations :: "MonitoringDestination list"
  svc_monitoring_consumer_destinations :: "MonitoringDestination list"
  svc_monitored_resources :: "MonitoredResourceDescriptor list"
  svc_logs :: "LogDescriptor list"
  svc_metrics :: "MetricDescriptor list"

type_synonym label_map = "(string \<times> LabelDescriptor) list"
type_synonym metric_map = "(string \<times> MetricDescriptor) list"

section \<open>Labels\<close>

fun find_conflict :: "LabelDescriptor list \<Rightarrow> label_map \<Rightarrow> string option" where
  "find_conflict [] ls = None"
| "find_conflict (ld # lds) ls =
     (case map_of ls (ldesc_key ld) of
        Some existing \<Rightarrow>
          if ldesc_value_type existing \<noteq> ldesc_value_type ld then Some (ldesc_key ld)
          else find_conflict lds ls
      | None \<Rightarrow> find_conflict lds ls)"

fun insert_labels :: "(LabelDescriptor \<Rightarrow> bool) \<Rightarrow> LabelDescriptor list \<Rightarrow> label_map \<Rightarrow> label_map" where
  "insert_labels label_supported [] ls = ls"
| "insert_labels label_supported (ld # lds) ls =
     insert_labels label_supported lds
       (if label_supported ld then fst (map_insert (ldesc_key ld) ld ls) else ls)"

definition AddLabels ::
    "(LabelDescriptor \<Rightarrow> bool) \<Rightarrow> LabelDescriptor list \<Rightarrow> label_map \<Rightarrow> Status \<times> label_map" where
  "AddLabels label_supported descriptors ls =
     (case find_conflict descriptors ls of
        Some key \<Rightarrow> (Status_of INVALID_ARGUMENT (''Conflicting label in the configuration: '' @ key), ls)
      | None \<Rightarrow> (Status_OK, insert_labels label_supported descriptors ls))"

fun AddLogLabels ::
    "(LabelDescriptor \<Rightarrow> bool) \<Rightarrow> LogDescriptor list \<Rightarrow> string \<Rightarrow> label_map \<Rightarrow> Status \<times> label_map" where
  "AddLogLabels label_supported [] log_name ls =
     (Status_of INVALID_ARGUMENT (''Log not found: '' @ log_name), ls)"
| "AddLogLabels label_supported (ld # lds) log_name ls =
     (if logd_name ld = log_name then AddLabels label_supported (logd_labels ld) ls
      else AddLogLabels label_supported lds log_name ls)"

fun AddMonitoredResourceLabels ::
    "(LabelDescriptor \<Rightarrow> bool) \<Rightarrow> MonitoredResourceDescriptor list \<Rightarrow> string \<Rightarrow> label_map \<Rightarrow> Status \<times> label_map"
where
  "AddMonitoredResourceLabels label_supported [] monitored_resource_name ls =
     (Status_of INVALID_ARGUMENT (''Monitored resource not found: '' @ monitored_resource_name), ls)"
| "AddMonitoredResourceLabels label_supported (mr # mrs) monitored_resource_name ls =
     (if mrd_type mr = monitored_resource_name then AddLabels label_supported (mrd_labels mr) ls
      else AddMonitoredResourceLabels label_supported mrs monitored_resource_name ls)"

section \<open>Destinations\<close>

fun AddLogs ::
    "(LabelDescriptor \<Rightarrow> bool) \<Rightarrow> LogDescriptor list \<Rightarrow> string list \<Rightarrow> string set \<times> label_map \<Rightarrow> string set \<times> label_map"
where
  "AddLogs label_supported lds [] (logs, ls) = (logs, ls)"
| "AddLogs label_supported lds (log_name # names) (logs, ls) =
     (case AddLogLabels label_supported lds log_name ls of (s, ls) \<Rightarrow>
        AddLogs label_supported lds names (if \<not> st_ok s then (logs, ls) else (insert log_name logs, ls)))"

fun AddLoggingDestinations ::
    "(LabelDescriptor \<Rightarrow> bool) \<Rightarrow> LoggingDestination list \<Rightarrow> MonitoredResourceDescriptor list
     \<Rightarrow> LogDescriptor list \<Rightarrow> string set \<times> label_map \<Rightarrow> Status \<times> string set \<times> label_map" where
  "AddLoggingDestinations label_supported [] mrs lds (logs, ls) = (Status_OK, logs, ls)"
| "AddLoggingDestinations label_supported (d # ds) mrs lds (logs, ls) =
     (case AddMonitoredResourceLabels label_supported mrs (lgd_monitored_resource d) ls of (s, ls) \<Rightarrow>
        AddLoggingDestinations label_supported ds mrs lds
          (if \<not> st_ok s then (logs, ls) else AddLogs label_supported lds (lgd_logs d) (logs, ls)))"

definition FindMetricDescriptor :: "MetricDescriptor list \<Rightarrow> string \<Rightarrow> MetricDescriptor option" where
  "FindMetricDescriptor metric_descriptors metric_name =
     find (\<lambda>md. mdesc_name md = metric_name) metric_descriptors"

fun AddMetrics ::
    "(LabelDescriptor \<Rightarrow> bool) \<Rightarrow> (MetricDescriptor \<Rightarrow> bool) \<Rightarrow> MetricDescriptor list \<Rightarrow> string list
     \<Rightarrow> metric_map \<times> label_map \<Rightarrow> metric_map \<times> label_map" where
  "AddMetrics label_supported metric_supported mds [] (ms, ls) = (ms, ls)"
| "AddMetrics label_supported metric_supported mds (metric_name # names) (ms, ls) =
     AddMetrics label_supported metric_supported mds names
       (case FindMetricDescriptor mds metric_name of
          None \<Rightarrow> (ms, ls)
        | Some md \<Rightarrow>
            if \<not> metric_supported md then (ms, ls)
            else
              (case AddLabels label_supported (mdesc_labels md) ls of (s, ls) \<Rightarrow>
                 if \<not> st_ok s then (ms, ls) else (fst (map_insert metric_name md ms), ls)))"

fun AddMonitoringDestinations ::
    "(LabelDescriptor \<Rightarrow> bool) \<Rightarrow> (MetricDescriptor \<Rightarrow> bool) \<Rightarrow> MonitoringDestination list
     \<Rightarrow> MonitoredResourceDescriptor list \<Rightarrow> MetricDescriptor list \<Rightarrow> metric_map \<times> label_map
     \<Rightarrow> Status \<times> metric_map \<times> label_map" where
  "AddMonitoringDestinations label_supported metric_supported [] mrs mds (ms, ls) = (Status_OK, ms, ls)"
| "AddMonitoringDestinations label_supported metric_supported (d # ds) mrs mds (ms, ls) =
     (case AddMonitoredResourceLabels label_supported mrs (mnd_monitored_resource d) ls of (s, ls) \<Rightarrow>
        AddMonitoringDestinations label_supported metric_supported ds mrs mds
          (if \<not> st_ok s then (ms, ls)
           else AddMetrics label_supported metric_supported mds (mnd_metrics d) (ms, ls)))"

definition LoadLogsMetrics ::
    "(LabelDescriptor \<Rightarrow> bool) \<Rightarrow> (MetricDescriptor \<Rightarrow> bool) \<Rightarrow> Service
     \<Rightarrow> string set \<times> string set \<times> string set \<Rightarrow> Status \<times> string set \<times> string set \<times> string set" where
  "LoadLogsMetrics label_supported metric_supported service sets =
     (case sets of (logs, metrics, labels) \<Rightarrow>
      (case AddLoggingDestinations label_supported (svc_logging_producer_destinations service)
              (svc_monitored_resources service) (svc_logs service) (logs, []) of (s, logs, ls) \<Rightarrow>
         if \<not> st_ok s then (s, logs, metrics, labels)
         else
      (case AddMonitoringDestinations label_supported metric_supported
              (svc_monitoring_producer_destinations service)
              (svc_monitored_resources service) (svc_metrics service) ([], ls) of (s, ms, ls) \<Rightarrow>
         if \<not> st_ok s then (s, logs, metrics, labels)
         else
      (case AddMonitoringDestinations label_supported metric_supported
              (svc_monitoring_consumer_destinations service)
              (svc_monitored_resources service) (svc_metrics service) (ms, ls) of (s, ms, ls) \<Rightarrow>
         if \<not> st_ok s then (s, logs, metrics, labels)
         else (Status_OK, logs, metrics \<union> fst ` set ms, labels \<union> fst ` set ls)))))"

definition Load :: "Service \<Rightarrow> string set \<times> string set \<times> string set \<Rightarrow> Status \<times> string set \<times> string set \<times> string set" where
  "Load service sets = LoadLogsMetrics IsLabelSupported IsMetricSupported service sets"

section \<open>What the loader selects\<close>

text \<open>
  The contract between the loader and the two predicates it is given: the descriptors they accept
  have names from known sets.
\<close>

locale descriptor_filter =
  fixes label_supported :: "LabelDescriptor \<Rightarrow> bool"
    and metric_supported :: "MetricDescriptor \<Rightarrow> bool"
    and known_labels :: "string set"
    and known_metrics :: "string set"
  assumes labels_known: "label_supported ld \<Longrightarrow> ldesc_key ld \<in> known_labels"
    and metrics_known: "metric_supported md \<Longrightarrow> mdesc_name md \<in> known_metrics"
begin

lemma keys_map_insert: "fst ` set (fst (map_insert k v m)) = insert k (fst ` set m)"
  by (auto simp: map_insert_def split: option.splits dest!: map_of_SomeD) (metis fst_conv image_eqI)

lemma insert_labels_known:
  "fst ` set ls \<subseteq> known_labels \<Longrightarrow> fst ` set (insert_labels label_supported lds ls) \<subseteq> known_labels"
  by (induction lds arbitrary: ls) (simp_all add: keys_map_insert labels_known)

lemma AddLabels_known:
  "fst ` set ls \<subseteq> known_labels \<Longrightarrow> fst ` set (snd (AddLabels label_supported lds ls)) \<subseteq> known_labels"
  using insert_labels_known by (simp add: AddLabels_def split: option.splits)

lemma AddLogLabels_known:
  "fst ` set ls \<subseteq> known_labels \<Longrightarrow> fst ` set (snd (AddLogLabels label_supported lds n ls)) \<subseteq> known_labels"
  by (induction lds) (simp_all add: AddLabels_known)

lemma AddMonitoredResourceLabels_known:
  "fst ` set ls \<subseteq> known_labels \<Longrightarrow>
   fst ` set (snd (AddMonitoredResourceLabels label_supported mrs n ls)) \<subseteq> known_labels"
  by (induction mrs) (simp_all add: AddLabels_known)

lemma AddLogs_known:
  "fst ` set ls \<subseteq> known_labels \<Longrightarrow>
   fst ` set (snd (AddLogs label_supported lds ns (logs, ls))) \<subseteq> known_labels"
proof (induction ns arbitrary: logs ls)
  case (Cons n ns)
  from Cons.IH AddLogLabels_known [OF Cons.prems, of lds n] show ?case
    by (simp add: case_prod_beta)
qed simp

lemma AddLoggingDestinations_known:
  "fst ` set ls \<subseteq> known_labels \<Longrightarrow>
   st_ok (fst (AddLoggingDestinations label_supported ds mrs lds (logs, ls))) \<and>
   fst ` set (snd (snd (AddLoggingDestinations label_supported ds mrs lds (logs, ls)))) \<subseteq> known_labels"
proof (induction ds arbitrary: logs ls)
  case (Cons d ds)
  let ?a = "AddMonitoredResourceLabels label_supported mrs (lgd_monitored_resource d) ls"
  note a = AddMonitoredResourceLabels_known [OF Cons.prems, of mrs "lgd_monitored_resource d"]
  show ?case
  proof (cases "st_ok (fst ?a)")
    case True
    obtain logs' ls' where b: "AddLogs label_supported lds (lgd_logs d) (logs, snd ?a) = (logs', ls')"
      by fastforce
    with AddLogs_known [OF a, of lds "lgd_logs d" logs] Cons.IH [of ls' logs'] True show ?thesis
      by (simp add: case_prod_beta)
  next
    case False
    with Cons.IH [OF a] show ?thesis by (simp add: case_prod_beta)
  qed
qed simp

lemma AddMetrics_known:
  "fst ` set ls \<subseteq> known_labels \<Longrightarrow> fst ` set ms \<subseteq> known_metrics \<Longrightarrow>
   (case AddMetrics label_supported metric_supported mds ns (ms, ls) of
      (ms', ls') \<Rightarrow> fst ` set ms' \<subseteq> known_metrics \<and> fst ` set ls' \<subseteq> known_labels)"
proof (induction ns arbitrary: ms ls)
  case (Cons n ns)
  show ?case
  proof (cases "FindMetricDescriptor mds n")
    case None
    with Cons show ?thesis by simp
  next
    case (Some md)
    then have n: "mdesc_name md = n" by (auto simp: FindMetricDescriptor_def find_Some_iff)
    show ?thesis
    proof (cases "metric_supported md")
      case False
      with Some Cons show ?thesis by simp
    next
      case True
      note l = AddLabels_known [OF Cons.prems(1), of "mdesc_labels md"]
      have "fst ` set (fst (map_insert n md ms)) \<subseteq> known_metrics"
        using metrics_known [OF True] n Cons.prems(2) by (simp add: keys_map_insert)
      with Cons.IH [OF l] Cons.IH [OF l Cons.prems(2)] Some True show ?thesis
        by (simp add: case_prod_beta)
    qed
  qed
qed simp

lemma AddMonitoringDestinations_known:
  "fst ` set ls \<subseteq> known_labels \<Longrightarrow> fst ` set ms \<subseteq> known_metrics \<Longrightarrow>
   (case AddMonitoringDestinations label_supported metric_supported ds mrs mds (ms, ls) of
      (s, ms', ls') \<Rightarrow> st_ok s \<and> fst ` set ms' \<subseteq> known_metrics \<and> fst ` set ls' \<subseteq> known_labels)"
proof (induction ds arbitrary: ms ls)
  case (Cons d ds)
  let ?a = "AddMonitoredResourceLabels label_supported mrs (mnd_monitored_resource d) ls"
  note a = AddMonitoredResourceLabels_known [OF Cons.prems(1), of mrs "mnd_monitored_resource d"]
  show ?case
  proof (cases "st_ok (fst ?a)")
    case True
    obtain ms' ls' where b: "AddMetrics label_supported metric_supported mds (mnd_metrics d) (ms, snd ?a) = (ms', ls')"
      by fastforce
    with AddMetrics_known [OF a Cons.prems(2), of mds "mnd_metrics d"] Cons.IH [of ls' ms'] True show ?thesis
      by (simp add: case_prod_beta)
  next
    case False
    with Cons.IH [OF a Cons.prems(2)] show ?thesis by (simp add: case_prod_beta)
  qed
qed simp

lemma LoadLogsMetrics_known:
  "\<exists>logs' ms ls. LoadLogsMetrics label_supported metric_supported service (logs, metrics, labels) =
     (Status_OK, logs', metrics \<union> ms, labels \<union> ls) \<and> ms \<subseteq> known_metrics \<and> ls \<subseteq> known_labels"
proof -
  let ?P = "\<lambda>ds ms ls. AddMonitoringDestinations label_supported metric_supported ds
    (svc_monitored_resources service) (svc_metrics service) (ms, ls)"
  obtain s1 logs1 ls1 where a: "AddLoggingDestinations label_supported (svc_logging_producer_destinations service)
      (svc_monitored_resources service) (svc_logs service) (logs, []) = (s1, logs1, ls1)"
    using prod_cases3 by blast
  obtain s2 ms2 ls2 where b: "?P (svc_monitoring_producer_destinations service) [] ls1 = (s2, ms2, ls2)"
    using prod_cases3 by blast
  obtain s3 ms3 ls3 where c: "?P (svc_monitoring_consumer_destinations service) ms2 ls2 = (s3, ms3, ls3)"
    using prod_cases3 by blast
  have 1: "st_ok s1" "fst ` set ls1 \<subseteq> known_labels"
    using AddLoggingDestinations_known [of "[]"] a by (metis empty_set empty_subsetI image_empty fst_conv snd_conv)+
  have 2: "st_ok s2" "fst ` set ms2 \<subseteq> known_metrics" "fst ` set ls2 \<subseteq> known_labels"
    using AddMonitoringDestinations_known [OF 1(2), of "[]" "svc_monitoring_producer_destinations service"
        "svc_monitored_resources service" "svc_metrics service"] b by simp_all
  have 3: "st_ok s3" "fst ` set ms3 \<subseteq> known_metrics" "fst ` set ls3 \<subseteq> known_labels"
    using AddMonitoringDestinations_known [OF 2(3,2), of "svc_monitoring_consumer_destinations service"
        "svc_monitored_resources service" "svc_metrics service"] c by simp_all
  show ?thesis
    using 1 2 3 by (auto simp: LoadLogsMetrics_def a b c)
qed

end

lemma IsMetricSupported_loop_row:
  "IsMetricSupported_loop rows md \<Longrightarrow> \<exists>m\<in>set rows. sm_name m = mdesc_name md"
  by (induction rows) (auto split: if_splits)

lemma IsLabelSupported_loop_row:
  "IsLabelSupported_loop rows ld \<Longrightarrow> \<exists>l\<in>set rows. sl_name l = ldesc_key ld"
  by (induction rows) (auto split: if_splits)

definition known_label_names :: "string set" where
  "known_label_names = set (map sl_name (supported_labels :: unit SupportedLabel list))"

interpretation builder_filter:
  descriptor_filter IsLabelSupported IsMetricSupported known_label_names "fst ` set metric_rows"
proof
  fix md assume "IsMetricSupported md"
  then obtain m where "m \<in> set (supported_metrics :: unit SupportedMetric list)" "sm_name m = mdesc_name md"
    using IsMetricSupported_loop_row unfolding IsMetricSupported_def by blast
  then have "(mdesc_name md, sm_tag m, sm_mark m) \<in> set metric_rows"
    unfolding metric_rows_def by force
  then show "mdesc_name md \<in> fst ` set metric_rows" by force
next
  fix ld assume "IsLabelSupported ld"
  then obtain l where "l \<in> set (supported_labels :: unit SupportedLabel list)" "sl_name l = ldesc_key ld"
    using IsLabelSupported_loop_row unfolding IsLabelSupported_def by blast
  then show "ldesc_key ld \<in> known_label_names" unfolding known_label_names_def by force
qed

lemma all_rows_settable:
  "m \<in> set supported_metrics \<Longrightarrow> sm_set m \<noteq> None"
proof -
  have "list_all (\<lambda>m. sm_set m \<noteq> None) supported_metrics"
    by (simp add: supported_metrics_def supported_metrics_counts_def supported_metrics_times_def
        SupportedMetric_row_def)
  then show "m \<in> set supported_metrics \<Longrightarrow> sm_set m \<noteq> None" by (auto simp: list_all_iff)
qed

lemma builder_metric_names:
  assumes "ms \<subseteq> fst ` set metric_rows"
  shows "sm_name ` set (rb_metrics (RequestBuilder_some logs ms ls n c :: 'd RequestBuilder)) = ms"
proof -
  have rows: "fst ` set metric_rows = sm_name ` set (supported_metrics :: 'd SupportedMetric list)"
    unfolding metric_rows_eq [where ?'a = 'd, symmetric] by force
  have "set (rb_metrics (RequestBuilder_some logs ms ls n c :: 'd RequestBuilder)) =
      {m \<in> set supported_metrics. sm_name m \<in> ms}"
    using all_rows_settable by (auto simp: RequestBuilder_some_def split: option.splits)
  with assms rows show ?thesis by (auto simp: image_iff)
qed


end
