(* ===== verification/EnvoyUtils.thy ===== *)
theory EnvoyUtils
  imports ESP_Prelude
begin

text \<open>
  The part of a request that the ESPv2 filters share, and the helpers of
  \<open>envoy/utils/http_header_utils.cc\<close> and \<open>envoy/utils/filter_state_utils.cc\<close>.

  Envoy's header map is the list of its entries, with lower-case names: \<open>get\<close> returns the first
  entry of a name, \<open>remove\<close> drops them all, \<open>addCopy\<close> appends one. The filter state is a map
  from names to strings; the entries are read-only, so setting a name twice throws. \<open>sendLocalReply\<close> records the
  reply, after which the request goes no further.

  \<open>decoder_filter\<close> is the contract of a filter towards the filter chain: it stops the iteration
  exactly when it has sent a reply. The chain lemmas are proved from that contract alone; every
  filter below is an interpretation of it.
\<close>

section \<open>Requests\<close>

type_synonym headers = "(string \<times> string) list"

record local_reply =
  reply_code :: nat
  reply_body :: string
  reply_details :: string

record stream =
  req_headers :: headers
  filter_state :: "(string \<times> string) list"
  sent_reply :: "local_reply option"
  unauthorized_flag :: bool

datatype FilterHeadersStatus = Continue | StopIteration

definition header_get :: "string \<Rightarrow> headers \<Rightarrow> string option" where
  "header_get name hs = map_of hs name"

definition header_remove :: "string \<Rightarrow> headers \<Rightarrow> headers" where
  "header_remove name hs = filter (\<lambda>h. fst h \<noteq> name) hs"

definition header_addCopy :: "string \<Rightarrow> string \<Rightarrow> headers \<Rightarrow> headers" where
  "header_addCopy name v hs = hs @ [(name, v)]"

definition kMethod :: string where "kMethod = '':method''"
definition kPath :: string where "kPath = '':path''"
definition kAuthorization :: string where "kAuthorization = ''authorization''"

definition sendLocalReply :: "nat \<Rightarrow> string \<Rightarrow> string \<Rightarrow> stream \<Rightarrow> stream" where
  "sendLocalReply code body details s =
     s\<lparr>sent_reply := Some \<lparr>reply_code = code, reply_body = body, reply_details = details\<rparr>\<rparr>"

definition setResponseFlag :: "stream \<Rightarrow> stream" where
  "setResponseFlag s = s\<lparr>unauthorized_flag := True\<rparr>"

section \<open>Header and filter state helpers\<close>

definition kHttpMethodOverrideHeader :: string where
  "kHttpMethodOverrideHeader = ''x-http-method-override''"

definition kOperation :: string where
  "kOperation = ''envoy.filters.http.path_matcher.operation''"

definition kQueryParams :: string where
  "kQueryParams = ''envoy.filters.http.path_matcher.query_params''"

definition readHeaderEntry :: "string option \<Rightarrow> string" where
  "readHeaderEntry entry = (case entry of Some v \<Rightarrow> v | None \<Rightarrow> [])"

definition extractHeader :: "headers \<Rightarrow> string \<Rightarrow> string" where
  "extractHeader hs header = readHeaderEntry (header_get header hs)"

definition getRequestHTTPMethodWithOverride :: "string \<Rightarrow> headers \<Rightarrow> string" where
  "getRequestHTTPMethodWithOverride originalMethod hs =
     (case header_get kHttpMethodOverrideHeader hs of Some v \<Rightarrow> v | None \<Rightarrow> originalMethod)"

definition setStringFilterState :: "string \<Rightarrow> string \<Rightarrow> stream \<Rightarrow> stream option" where
  "setStringFilterState data_name v s =
     (if map_of (filter_state s) data_name = None
      then Some (s\<lparr>filter_state := (data_name, v) # filter_state s\<rparr>) else None)"

definition getStringFilterState :: "stream \<Rightarrow> string \<Rightarrow> string" where
  "getStringFilterState s data_name =
     (case map_of (filter_state s) data_name of None \<Rightarrow> [] | Some v \<Rightarrow> v)"

section \<open>Lemmas\<close>

lemma header_get_remove [simp]:
  "header_get n (header_remove m hs) = (if n = m then None else header_get n hs)"
  by (induction hs) (auto simp: header_get_def header_remove_def)

lemma header_get_addCopy [simp]:
  "header_get n (header_addCopy m v hs) =
     (case header_get n hs of Some w \<Rightarrow> Some w | None \<Rightarrow> if n = m then Some v else None)"
  by (simp add: header_get_def header_addCopy_def map_add_def split: option.splits)

lemma setString_sel:
  "setStringFilterState m v s = Some s' \<Longrightarrow> req_headers s' = req_headers s"
  "setStringFilterState m v s = Some s' \<Longrightarrow> sent_reply s' = sent_reply s"
  "setStringFilterState m v s = Some s' \<Longrightarrow>
     getStringFilterState s' n = (if n = m then v else getStringFilterState s n)"
  by (auto simp: setStringFilterState_def getStringFilterState_def split: if_splits)

lemma getString_cong: "filter_state s = filter_state t \<Longrightarrow> getStringFilterState s n = getStringFilterState t n"
  by (simp add: getStringFilterState_def)

lemma kOperation_kQueryParams [simp]: "kOperation \<noteq> kQueryParams" "kQueryParams \<noteq> kOperation"
  by (simp_all add: kOperation_def kQueryParams_def)

section \<open>Filters and chains of filters\<close>

text \<open>
  A decoder filter maps its own state (its counters) and the request to a status and the new
  state; \<open>None\<close> is a dereferenced null pointer.
\<close>

locale decoder_filter =
  fixes decode :: "'s \<Rightarrow> stream \<Rightarrow> (FilterHeadersStatus \<times> 's \<times> stream) option"
  assumes stops_iff_reply:
    "decode st s = Some (r, st', s') \<Longrightarrow> sent_reply s = None \<Longrightarrow> r = Continue \<longleftrightarrow> sent_reply s' = None"
begin

lemma continue_no_reply:
  "decode st s = Some (Continue, st', s') \<Longrightarrow> sent_reply s = None \<Longrightarrow> sent_reply s' = None"
  using stops_iff_reply by blast

end

text \<open>The chain calls the filters in order until one stops.\<close>

type_synonym chain_filter = "stream \<Rightarrow> (FilterHeadersStatus \<times> stream) option"

fun run_chain :: "chain_filter list \<Rightarrow> chain_filter" where
  "run_chain [] s = Some (Continue, s)"
| "run_chain (f # fs) s =
     (case f s of
        None \<Rightarrow> None
      | Some (r, s') \<Rightarrow> if r = Continue then run_chain fs s' else Some (r, s'))"

definition on_stream ::
    "('s \<Rightarrow> stream \<Rightarrow> (FilterHeadersStatus \<times> 's \<times> stream) option) \<Rightarrow> 's \<Rightarrow> chain_filter" where
  "on_stream decode st s = map_option (\<lambda>(r, st', s'). (r, s')) (decode st s)"

definition replies_iff_stops :: "chain_filter \<Rightarrow> bool" where
  "replies_iff_stops f \<longleftrightarrow>
     (\<forall>s r s'. f s = Some (r, s') \<longrightarrow> sent_reply s = None \<longrightarrow> (r = Continue \<longleftrightarrow> sent_reply s' = None))"

lemma replies_iff_stopsD:
  "replies_iff_stops f \<Longrightarrow> f s = Some (r, s') \<Longrightarrow> sent_reply s = None \<Longrightarrow> r = Continue \<longleftrightarrow> sent_reply s' = None"
  by (simp add: replies_iff_stops_def)

context decoder_filter
begin

lemma on_stream_replies: "replies_iff_stops (on_stream decode st)"
  unfolding replies_iff_stops_def on_stream_def
proof (intro allI impI)
  fix s r s'
  assume "map_option (\<lambda>(r, st', s'). (r, s')) (decode st s) = Some (r, s')" and s: "sent_reply s = None"
  then obtain st' where "decode st s = Some (r, st', s')" by auto
  from stops_iff_reply [OF this s] show "(r = Continue) = (sent_reply s' = None)" .
qed

end

lemma run_chain_replies:
  "(\<And>f. f \<in> set fs \<Longrightarrow> replies_iff_stops f) \<Longrightarrow> replies_iff_stops (run_chain fs)"
proof (induction fs)
  case (Cons f fs)
  then have f: "replies_iff_stops f" and fs: "replies_iff_stops (run_chain fs)" by simp_all
  show ?case
    unfolding replies_iff_stops_def
  proof (intro allI impI)
    fix s r s' assume run: "run_chain (f # fs) s = Some (r, s')" and s: "sent_reply s = None"
    then obtain r1 s1 where 1: "f s = Some (r1, s1)" by (cases "f s") auto
    note first = replies_iff_stopsD [OF f 1 s]
    show "(r = Continue) = (sent_reply s' = None)"
    proof (cases "r1 = Continue")
      case True
      with run 1 first show ?thesis by (simp add: replies_iff_stopsD [OF fs])
    next
      case False
      with run 1 have "r = r1" "s' = s1" by simp_all
      with first show ?thesis by simp
    qed
  qed
qed (simp add: replies_iff_stops_def)

end
