(* ===== verification/PathMatcherFilter.thy ===== *)
theory PathMatcherFilter
  imports PathMatcher EnvoyUtils
begin

text \<open>
  The path matcher filter (\<open>envoy/http/path_matcher\<close>): its configuration, built from the rules
  of the service (\<open>filter_config.cc\<close>), and the handler of a request (\<open>filter.cc\<close>).

  The configuration is accepted exactly when every template parses and no template is registered
  twice for one method. A request that matches a rule goes on with the operation of the winning
  rule in the filter state; any other request is answered with 404.
\<close>

section \<open>Configuration\<close>

record PathMatcherRule =
  pr_operation :: string
  pr_http_method :: string
  pr_uri_template :: string
  pr_extract_path_parameters :: bool

record PathMatcherConfig =
  pc_rules :: "PathMatcherRule list"
  pc_segment_names :: "(string \<times> string) list"

record PathMatcherStats =
  ps_allowed :: nat
  ps_denied :: nat

record PathMatcherFilterConfig =
  fc_path_matcher :: "string PathMatcher"
  fc_snake_to_json_map :: "(string \<times> string) list"
  fc_path_params_operations :: "string set"

text \<open>\<open>Inl\<close> is the \<open>ProtoValidationException\<close> for the rule.\<close>

fun FilterConfig_rules ::
    "PathMatcherRule list \<Rightarrow> string PathMatcher \<Rightarrow> string set
     \<Rightarrow> (PathMatcherRule + string PathMatcher \<times> string set) option" where
  "FilterConfig_rules [] pmb ops = Some (Inr (pmb, ops))"
| "FilterConfig_rules (rule # rules) pmb ops =
     (case Register (pr_http_method rule) (pr_uri_template rule) [] (pr_operation rule) pmb of
        None \<Rightarrow> None
      | Some (ok, pmb) \<Rightarrow>
          if \<not> ok then Some (Inl rule)
          else FilterConfig_rules rules pmb
                 (if pr_extract_path_parameters rule then insert (pr_operation rule) ops else ops))"

fun FilterConfig_segments :: "(string \<times> string) list \<Rightarrow> (string \<times> string) list \<Rightarrow> (string \<times> string) list" where
  "FilterConfig_segments [] snake_to_json = snake_to_json"
| "FilterConfig_segments ((snake, json) # names) snake_to_json =
     FilterConfig_segments names
       (if map_of snake_to_json snake = None then (snake, json) # snake_to_json else snake_to_json)"

definition PathMatcher_FilterConfig ::
    "PathMatcherConfig \<Rightarrow> (PathMatcherRule + PathMatcherFilterConfig) option" where
  "PathMatcher_FilterConfig proto =
     (case FilterConfig_rules (pc_rules proto) new_PathMatcherBuilder {} of
        None \<Rightarrow> None
      | Some (Inl rule) \<Rightarrow> Some (Inl rule)
      | Some (Inr (pmb, ops)) \<Rightarrow>
          Some (Inr \<lparr>fc_path_matcher = Build pmb,
                     fc_snake_to_json_map = FilterConfig_segments (pc_segment_names proto) [],
                     fc_path_params_operations = ops\<rparr>))"

definition findOperation :: "PathMatcherFilterConfig \<Rightarrow> string \<Rightarrow> string \<Rightarrow> string option option" where
  "findOperation config http_method path = Lookup http_method path (fc_path_matcher config)"

definition findOperation_bindings ::
    "PathMatcherFilterConfig \<Rightarrow> string \<Rightarrow> string \<Rightarrow> VariableBinding list
     \<Rightarrow> (string option \<times> VariableBinding list) option" where
  "findOperation_bindings config http_method path variable_bindings =
     Lookup_bindings http_method path variable_bindings (fc_path_matcher config)"

definition needParameterExtraction :: "PathMatcherFilterConfig \<Rightarrow> string \<Rightarrow> bool" where
  "needParameterExtraction config operation \<longleftrightarrow> operation \<in> fc_path_params_operations config"

section \<open>The filter\<close>

definition kPathNotDefined :: string where "kPathNotDefined = ''path_not_defined''"

definition PathMatcher_rejectRequest ::
    "nat \<Rightarrow> string \<Rightarrow> PathMatcherStats \<Rightarrow> stream \<Rightarrow> PathMatcherStats \<times> stream" where
  "PathMatcher_rejectRequest code error_msg stats s =
     (stats\<lparr>ps_denied := ps_denied stats + 1\<rparr>,
      setResponseFlag (sendLocalReply code error_msg kPathNotDefined s))"

text \<open>The branch for operations whose path parameters are forwarded.\<close>

definition PathMatcher_setQueryParams ::
    "PathMatcherFilterConfig \<Rightarrow> string \<Rightarrow> string \<Rightarrow> string \<Rightarrow> stream \<Rightarrow> stream option" where
  "PathMatcher_setQueryParams config operation method path s =
     (if needParameterExtraction config operation
      then (case findOperation_bindings config method path [] of
              None \<Rightarrow> None
            | Some (operation, variable_bindings) \<Rightarrow>
                if variable_bindings \<noteq> []
                then setStringFilterState kQueryParams
                       (VariableBindingsToQueryParameters variable_bindings (fc_snake_to_json_map config)) s
                else Some s)
      else Some s)"

definition PathMatcher_decodeHeaders ::
    "PathMatcherFilterConfig \<Rightarrow> PathMatcherStats \<Rightarrow> stream
     \<Rightarrow> (FilterHeadersStatus \<times> PathMatcherStats \<times> stream) option" where
  "PathMatcher_decodeHeaders config stats s =
     (case (header_get kMethod (req_headers s), header_get kPath (req_headers s)) of
        (Some original_method, Some path) \<Rightarrow>
          (let method = getRequestHTTPMethodWithOverride original_method (req_headers s)
           in case findOperation config method path of
                None \<Rightarrow> None
              | Some None \<Rightarrow>
                  Some (StopIteration,
                    PathMatcher_rejectRequest 404 ''Path does not match any requirement URI template.'' stats s)
              | Some (Some operation) \<Rightarrow>
                  (case setStringFilterState kOperation operation s of
                     None \<Rightarrow> None
                   | Some s \<Rightarrow>
                       (case PathMatcher_setQueryParams config operation method path s of
                          None \<Rightarrow> None
                        | Some s \<Rightarrow> Some (Continue, stats\<lparr>ps_allowed := ps_allowed stats + 1\<rparr>, s))))
      | _ \<Rightarrow> None)"

lemma setQueryParams_sel:
  "PathMatcher_setQueryParams config operation method path s = Some s' \<Longrightarrow>
   req_headers s' = req_headers s \<and> sent_reply s' = sent_reply s"
  by (auto simp: PathMatcher_setQueryParams_def split: option.splits if_splits prod.splits
      dest: setString_sel(1,2))

interpretation path_matcher: decoder_filter "PathMatcher_decodeHeaders config"
proof
  fix st s r st' s'
  assume "PathMatcher_decodeHeaders config st s = Some (r, st', s')" "sent_reply s = None"
  then show "(r = Continue) = (sent_reply s' = None)"
    by (auto simp: PathMatcher_decodeHeaders_def PathMatcher_rejectRequest_def
        sendLocalReply_def setResponseFlag_def Let_def split: option.splits if_splits prod.splits
        dest!: setString_sel(2) setQueryParams_sel)
qed

section \<open>Accepted configurations\<close>

definition config_rule :: "PathMatcherRule \<Rightarrow> string rule" where
  "config_rule r = (pr_http_method r, pr_uri_template r, [], pr_operation r)"

abbreviation config_rules :: "PathMatcherConfig \<Rightarrow> string rule list" where
  "config_rules proto \<equiv> map config_rule (pc_rules proto)"

definition parses :: "string \<Rightarrow> bool" where
  "parses t \<longleftrightarrow> (case HttpTemplate_Parse t of Some (Some ht) \<Rightarrow> True | _ \<Rightarrow> False)"

lemma Register_ok:
  assumes "HttpTemplate_Parse t = Some (Some ht)" "matcher_ok (no_verbs b)"
  shows "\<exists>b'. Register m t body meth b =
      Some (matcher_entry (no_verbs b) (TransformHttpTemplate ht) m = None, b') \<and>
    no_verbs b' = snd (matcher_insert (TransformHttpTemplate ht) m
      \<lparr>md_method = meth, md_variables = ht_variables ht, md_body_field_path = body\<rparr> (no_verbs b))"
proof -
  let ?md = "\<lparr>md_method = meth, md_variables = ht_variables ht, md_body_field_path = body\<rparr>"
  obtain ok b' where b': "Register m t body meth b = Some (ok, b')"
    "no_verbs b' = snd (matcher_insert (TransformHttpTemplate ht) m ?md (no_verbs b))"
    using Register_insert [OF assms(1), of m body meth b] by blast
  have "ok = fst (matcher_insert (TransformHttpTemplate ht) m ?md (no_verbs b))"
    using b'(1) assms(1) by (auto simp: Register_def matcher_insert_def Let_def split: prod.splits if_splits)
  with b' show ?thesis by (simp add: matcher.fst_ins [OF assms(2)])
qed

lemma registrations_Cons:
  "HttpTemplate_Parse t = Some (Some ht) \<Longrightarrow> registrations ((m, t, body, meth) # rules) =
     ((TransformHttpTemplate ht, m),
      \<lparr>md_method = meth, md_variables = ht_variables ht, md_body_field_path = body\<rparr>) # registrations rules"
  by (simp add: registrations_def)

lemma FilterConfig_rules_register_all:
  "FilterConfig_rules rules b ops = Some (Inr (b', ops')) \<Longrightarrow> register_all (map config_rule rules) b = Some b'"
  by (induction rules arbitrary: b ops) (auto simp: config_rule_def split: option.splits prod.splits if_splits)

lemma FilterConfig_rules_ops:
  "FilterConfig_rules rules b ops = Some (Inr (b', ops')) \<Longrightarrow>
   ops' = ops \<union> pr_operation ` {r \<in> set rules. pr_extract_path_parameters r}"
  by (induction rules arbitrary: b ops) (auto split: option.splits prod.splits if_splits)

lemma HttpTemplate_Parse_some: "length t < 2 ^ 31 \<Longrightarrow> \<exists>r. HttpTemplate_Parse t = Some r"
  using HttpTemplate_Parse_eq [of t] by (cases "t = ''/''") (auto simp: HttpTemplate_Parse_def)

definition all_new :: "'m PathMatcher \<Rightarrow> ((string list \<times> string) \<times> 'm MethodData) list \<Rightarrow> bool" where
  "all_new b regs \<longleftrightarrow> distinct (map fst regs) \<and>
     (\<forall>x\<in>set regs. matcher_entry b (fst (fst x)) (snd (fst x)) = None)"

lemma all_new_Cons:
  assumes "matcher_ok b"
  shows "all_new b (((ks, m), md) # regs) \<longleftrightarrow>
    matcher_entry b ks m = None \<and> all_new (snd (matcher_insert ks m md b)) regs"
  by (force simp: all_new_def matcher.ent_ins [OF assms] split: if_splits)

lemma FilterConfig_rules_accepts:
  assumes "list_all rule_ok (map config_rule rules)" "matcher_ok (no_verbs b)"
  shows "\<exists>res. FilterConfig_rules rules b ops = Some res \<and>
    (isl res \<longleftrightarrow> \<not> (list_all (\<lambda>r. parses (pr_uri_template r)) rules \<and>
      all_new (no_verbs b) (registrations (map config_rule rules))))"
  using assms
proof (induction rules arbitrary: b ops)
  case Nil
  show ?case by (simp add: registrations_def all_new_def)
next
  case (Cons r rules)
  let ?t = "pr_uri_template r" and ?m = "pr_http_method r" and ?op = "pr_operation r"
  have ok: "list_all rule_ok (map config_rule rules)" "length ?t < 2 ^ 31" "verb_ok ?t"
    using Cons.prems(1) unfolding list.map list.pred_inject by (simp_all add: config_rule_def rule_ok_def)
  obtain res where res: "HttpTemplate_Parse ?t = Some res" using HttpTemplate_Parse_some [OF ok(2)] by blast
  show ?case
  proof (cases res)
    case None
    with res show ?thesis by (simp add: Register_def parses_def)
  next
    case (Some ht)
    with res have p: "HttpTemplate_Parse ?t = Some (Some ht)" by simp
    then have v: "valid_path (TransformHttpTemplate ht)"
      using parsed_valid_path [OF p ok(2)] ok(3) by (simp add: verb_ok_def)
    obtain b' where b': "Register ?m ?t [] ?op b =
        Some (matcher_entry (no_verbs b) (TransformHttpTemplate ht) ?m = None, b')"
      "no_verbs b' = snd (matcher_insert (TransformHttpTemplate ht) ?m
        \<lparr>md_method = ?op, md_variables = ht_variables ht, md_body_field_path = []\<rparr> (no_verbs b))"
      using Register_ok [OF p Cons.prems(2), of ?m "[]" ?op] by blast
    have "matcher_ok (no_verbs b')" using matcher.ok_ins [OF Cons.prems(2) v] b'(2) by simp
    note IH = Cons.IH [OF ok(1) this, of "if pr_extract_path_parameters r then insert ?op ops else ops"]
    show ?thesis
      using IH p by (auto simp: b'(1) config_rule_def registrations_Cons [OF p]
          all_new_Cons [OF Cons.prems(2)] b'(2) [symmetric] parses_def)
  qed
qed

lemma FilterConfig_result:
  assumes "list_all rule_ok (config_rules proto)"
  obtains res where "PathMatcher_FilterConfig proto = Some res"
    "isl res \<longleftrightarrow> \<not> (list_all (\<lambda>r. parses (pr_uri_template r)) (pc_rules proto) \<and>
      distinct (map fst (registrations (config_rules proto))))"
proof -
  have "all_new (new_PathMatcherBuilder :: string PathMatcher) regs \<longleftrightarrow> distinct (map fst regs)" for regs
    by (simp add: all_new_def matcher.ent_new)
  with FilterConfig_rules_accepts [OF assms, of new_PathMatcherBuilder "{}"] matcher.ok_new
  obtain res where "FilterConfig_rules (pc_rules proto) new_PathMatcherBuilder {} = Some res"
    "isl res \<longleftrightarrow> \<not> (list_all (\<lambda>r. parses (pr_uri_template r)) (pc_rules proto) \<and>
      distinct (map fst (registrations (config_rules proto))))" by auto
  with that show ?thesis by (cases res) (auto simp: PathMatcher_FilterConfig_def)
qed

lemma FilterConfig_total:
  "list_all rule_ok (config_rules proto) \<Longrightarrow> \<exists>res. PathMatcher_FilterConfig proto = Some res"
  by (erule FilterConfig_result) blast


definition shelf_proto :: PathMatcherConfig where
  "shelf_proto =
     \<lparr>pc_rules = [\<lparr>pr_operation = ''GetShelf'', pr_http_method = ''GET'',
                   pr_uri_template = ''/shelves/{shelf_id}'', pr_extract_path_parameters = True\<rparr>],
      pc_segment_names = [(''shelf_id'', ''shelfId'')]\<rparr>"

lemma shelf_rule_ok: "list_all rule_ok (config_rules shelf_proto)"
proof -
  have "verb_ok ''/shelves/{shelf_id}''" by code_simp
  then show ?thesis by (simp add: shelf_proto_def config_rule_def rule_ok_def)
qed

lemma shelf_accepted: "\<exists>config. PathMatcher_FilterConfig shelf_proto = Some (Inr config)"
proof -
  have "case PathMatcher_FilterConfig shelf_proto of Some (Inr config) \<Rightarrow> True | _ \<Rightarrow> False" by code_simp
  then show ?thesis by (auto split: option.splits sum.splits)
qed


section \<open>Requests\<close>

lemma FilterConfig_parts:
  assumes "PathMatcher_FilterConfig proto = Some (Inr config)"
  shows "register_all (config_rules proto) new_PathMatcherBuilder = Some (fc_path_matcher config)"
    and "needParameterExtraction config op \<longleftrightarrow>
      (\<exists>r\<in>set (pc_rules proto). pr_extract_path_parameters r \<and> pr_operation r = op)"
    and "fc_snake_to_json_map config = FilterConfig_segments (pc_segment_names proto) []"
proof -
  obtain b ops where r: "FilterConfig_rules (pc_rules proto) new_PathMatcherBuilder {} = Some (Inr (b, ops))"
    "config = \<lparr>fc_path_matcher = Build b,
      fc_snake_to_json_map = FilterConfig_segments (pc_segment_names proto) [], fc_path_params_operations = ops\<rparr>"
    using assms by (auto simp: PathMatcher_FilterConfig_def split: option.splits sum.splits)
  note ops = FilterConfig_rules_ops [OF r(1)]
  show "register_all (config_rules proto) new_PathMatcherBuilder = Some (fc_path_matcher config)"
    using FilterConfig_rules_register_all [OF r(1)] r(2) by (simp add: Build_def)
  show "needParameterExtraction config op \<longleftrightarrow>
      (\<exists>r\<in>set (pc_rules proto). pr_extract_path_parameters r \<and> pr_operation r = op)"
    using r(2) by (auto simp: needParameterExtraction_def ops)
  show "fc_snake_to_json_map config = FilterConfig_segments (pc_segment_names proto) []" using r(2) by simp
qed

lemma setStringFilterState_fresh:
  "map_of (filter_state s) n = None \<Longrightarrow>
   setStringFilterState n v s = Some (s\<lparr>filter_state := (n, v) # filter_state s\<rparr>)"
  by (simp add: setStringFilterState_def)

lemma decodeHeaders_found:
  assumes "header_get kMethod (req_headers s) = Some om" "header_get kPath (req_headers s) = Some path"
    and "filter_state s = []"
    and "findOperation config (getRequestHTTPMethodWithOverride om (req_headers s)) path = Some (Some op)"
    and "findOperation_bindings config (getRequestHTTPMethodWithOverride om (req_headers s)) path [] = Some (Some op, bs)"
  shows "\<exists>s'. PathMatcher_decodeHeaders config stats s =
      Some (Continue, stats\<lparr>ps_allowed := ps_allowed stats + 1\<rparr>, s') \<and>
    req_headers s' = req_headers s \<and> sent_reply s' = sent_reply s \<and>
    getStringFilterState s' kOperation = op \<and>
    getStringFilterState s' kQueryParams =
      (if needParameterExtraction config op
       then VariableBindingsToQueryParameters bs (fc_snake_to_json_map config) else [])"
  using assms
  by (simp add: PathMatcher_decodeHeaders_def PathMatcher_setQueryParams_def setStringFilterState_fresh
      getStringFilterState_def Let_def)

lemma PathMatcher_outcome_cases:
  assumes "list_all rule_ok (config_rules proto)" "PathMatcher_FilterConfig proto = Some (Inr config)"
    and "header_get kMethod (req_headers s) = Some om" "header_get kPath (req_headers s) = Some path"
    and "length path < 2 ^ 62" "filter_state s = []"
  defines "ps \<equiv> ExtractRequestParts path (pm_custom_verbs (fc_path_matcher config))"
    and "m \<equiv> getRequestHTTPMethodWithOverride om (req_headers s)"
  obtains (denied) "best_match (\<lambda>ks m. map_of (registrations (config_rules proto)) (ks, m)) ps m None"
      "PathMatcher_decodeHeaders config stats s = Some (StopIteration, stats\<lparr>ps_denied := ps_denied stats + 1\<rparr>,
         s\<lparr>sent_reply := Some \<lparr>reply_code = 404, reply_body = ''Path does not match any requirement URI template.'',
             reply_details = ''path_not_defined''\<rparr>, unauthorized_flag := True\<rparr>)"
  | (allowed) md s' bs where
      "best_match (\<lambda>ks m. map_of (registrations (config_rules proto)) (ks, m)) ps m (Some md)"
      "PathMatcher_decodeHeaders config stats s = Some (Continue, stats\<lparr>ps_allowed := ps_allowed stats + 1\<rparr>, s')"
      "req_headers s' = req_headers s" "sent_reply s' = sent_reply s"
      "getStringFilterState s' kOperation = md_method md"
      "ExtractBindingsFromPath (md_variables md) ps [] True = Some bs"
      "getStringFilterState s' kQueryParams =
         (if \<exists>r\<in>set (pc_rules proto). pr_extract_path_parameters r \<and> pr_operation r = md_method md
          then VariableBindingsToQueryParameters bs (FilterConfig_segments (pc_segment_names proto) []) else [])"
proof -
  note c = FilterConfig_parts [OF assms(2)]
  show thesis
  proof (rule registered_lookup [OF assms(1,5) c(1), of m "[]", folded ps_def])
    assume "best_match (\<lambda>ks m. map_of (registrations (config_rules proto)) (ks, m)) ps m None"
      "Lookup m path (fc_path_matcher config) = Some None"
    then show thesis
      using assms(3,4)
      by (intro denied) (simp_all add: PathMatcher_decodeHeaders_def findOperation_def m_def
          PathMatcher_rejectRequest_def sendLocalReply_def setResponseFlag_def kPathNotDefined_def)
  next
    fix md bs
    assume f: "best_match (\<lambda>ks m. map_of (registrations (config_rules proto)) (ks, m)) ps m (Some md)"
      "ExtractBindingsFromPath (md_variables md) ps [] True = Some bs"
      "Lookup m path (fc_path_matcher config) = Some (Some (md_method md))"
      "Lookup_bindings m path [] (fc_path_matcher config) = Some (Some (md_method md), bs)"
    obtain s' where s': "PathMatcher_decodeHeaders config stats s =
        Some (Continue, stats\<lparr>ps_allowed := ps_allowed stats + 1\<rparr>, s')"
      "req_headers s' = req_headers s" "sent_reply s' = sent_reply s"
      "getStringFilterState s' kOperation = md_method md"
      "getStringFilterState s' kQueryParams =
        (if needParameterExtraction config (md_method md)
         then VariableBindingsToQueryParameters bs (fc_snake_to_json_map config) else [])"
      using f(3,4) decodeHeaders_found [OF assms(3,4,6), of config "md_method md" bs stats]
      by (auto simp: findOperation_def findOperation_bindings_def m_def)
    show thesis by (rule allowed [OF f(1) s'(1-4) f(2) s'(5) [unfolded c(2,3)]])
  qed
qed


definition shelf_request :: stream where
  "shelf_request =
     \<lparr>req_headers = [('':method'', ''GET''), ('':path'', ''/shelves/7?a=b'')], filter_state = [],
      sent_reply = None, unauthorized_flag = False\<rparr>"


end
