(* ===== verification/BackendRouting.thy ===== *)
theory BackendRouting
  imports PathMatcherFilter
begin

text \<open>
  The backend routing filter (\<open>envoy/http/backend_routing\<close>): the rule of an operation
  (\<open>filter_config.h\<close>) and the rewriting of the request path (\<open>filter.cc\<close>).
\<close>

section \<open>Configuration\<close>

record BackendRoutingRule =
  br_operation :: string
  br_is_const_address :: bool
  br_path_prefix :: string

record BackendRoutingStats =
  bs_append_path_to_address_request :: nat
  bs_constant_address_request :: nat

fun BackendRouting_FilterConfig ::
    "BackendRoutingRule list \<Rightarrow> (string \<rightharpoonup> BackendRoutingRule) \<Rightarrow> (string \<rightharpoonup> BackendRoutingRule)" where
  "BackendRouting_FilterConfig [] backend_routing_map = backend_routing_map"
| "BackendRouting_FilterConfig (rule # rules) backend_routing_map =
     BackendRouting_FilterConfig rules (backend_routing_map(br_operation rule \<mapsto> rule))"

definition findRule :: "(string \<rightharpoonup> BackendRoutingRule) \<Rightarrow> string \<Rightarrow> BackendRoutingRule option" where
  "findRule backend_routing_map operation = backend_routing_map operation"

section \<open>The filter\<close>

definition constant_address_path :: "string \<Rightarrow> string \<Rightarrow> string \<Rightarrow> string" where
  "constant_address_path path_prefix originalPath queryParamFromPathParam =
     (case find_first_of (CHR ''?'') originalPath of
        Some originalQueryParamPos \<Rightarrow>
          (let newPath = path_prefix @ drop originalQueryParamPos originalPath
           in if queryParamFromPathParam \<noteq> [] then newPath @ ''&'' @ queryParamFromPathParam else newPath)
      | None \<Rightarrow>
          if queryParamFromPathParam \<noteq> [] then path_prefix @ ''?'' @ queryParamFromPathParam else path_prefix)"

definition BackendRouting_decodeHeaders ::
    "(string \<rightharpoonup> BackendRoutingRule) \<Rightarrow> BackendRoutingStats \<Rightarrow> stream
     \<Rightarrow> (FilterHeadersStatus \<times> BackendRoutingStats \<times> stream) option" where
  "BackendRouting_decodeHeaders config stats s =
     (let operation = getStringFilterState s kOperation
      in if operation = [] then Some (Continue, stats, s)
         else case findRule config operation of
                None \<Rightarrow> Some (Continue, stats, s)
              | Some rule \<Rightarrow>
                  (case header_get kPath (req_headers s) of
                     None \<Rightarrow> Some (Continue, stats, s)
                   | Some original_path \<Rightarrow>
                       (let (newPath, stats) =
                              (if br_is_const_address rule
                               then (constant_address_path (br_path_prefix rule) original_path
                                       (getStringFilterState s kQueryParams),
                                     stats\<lparr>bs_constant_address_request := bs_constant_address_request stats + 1\<rparr>)
                               else (br_path_prefix rule @ original_path,
                                     stats\<lparr>bs_append_path_to_address_request :=
                                             bs_append_path_to_address_request stats + 1\<rparr>))
                        in Some (Continue, stats,
                             s\<lparr>req_headers := header_addCopy kPath newPath
                                                (header_remove kPath (req_headers s))\<rparr>))))"

interpretation backend_routing: decoder_filter "BackendRouting_decodeHeaders config"
  by unfold_locales
    (auto simp: BackendRouting_decodeHeaders_def Let_def split: if_splits option.splits)

section \<open>The rewritten path\<close>

text \<open>
  The reference: an address and the list of its query strings. The last rule of an operation is
  the one in force.
\<close>

definition url :: "string \<Rightarrow> string list \<Rightarrow> string" where
  "url address queries = (if queries = [] then address else address @ ''?'' @ join ''&'' queries)"

definition path_query :: "string \<Rightarrow> string list" where
  "path_query path = (if CHR ''?'' \<in> set path then [tl (dropWhile (\<lambda>c. c \<noteq> CHR ''?'') path)] else [])"

definition nonempty :: "string \<Rightarrow> string list" where
  "nonempty v = (if v = [] then [] else [v])"

definition routing_rule :: "BackendRoutingRule list \<Rightarrow> string \<Rightarrow> BackendRoutingRule option" where
  "routing_rule rules operation =
     (if operation = [] then None else find (\<lambda>r. br_operation r = operation) (rev rules))"

definition backend_path :: "BackendRoutingRule \<Rightarrow> string \<Rightarrow> string \<Rightarrow> string" where
  "backend_path rule path params =
     (if br_is_const_address rule then url (br_path_prefix rule) (path_query path @ nonempty params)
      else br_path_prefix rule @ path)"

lemma FilterConfig_routing_map:
  "BackendRouting_FilterConfig rules m op =
     (case find (\<lambda>r. br_operation r = op) (rev rules) of None \<Rightarrow> m op | Some r \<Rightarrow> Some r)"
proof (induction rules arbitrary: m)
  case (Cons r rules)
  then show ?case by (auto simp: find_snoc split: option.splits)
qed simp

lemma constant_address_path_url:
  "constant_address_path path_prefix path params = url path_prefix (path_query path @ nonempty params)"
proof (cases "CHR ''?'' \<in> set path")
  case True
  then obtain x y where p: "path = x @ CHR ''?'' # y" "CHR ''?'' \<notin> set x" by (meson split_list_first)
  then have "dropWhile (\<lambda>c. c \<noteq> CHR ''?'') path = CHR ''?'' # y"
    by (auto simp: dropWhile_append3 dropWhile_append2)
  with p True show ?thesis
    by (simp add: constant_address_path_def url_def path_query_def nonempty_def find_first_of_append)
next
  case False
  then have "find_first_of (CHR ''?'') path = None" by simp
  with False show ?thesis
    by (simp add: constant_address_path_def url_def path_query_def nonempty_def del: find_first_of_None)
qed

lemma BackendRouting_decodeHeaders_eq:
  "\<exists>stats'. BackendRouting_decodeHeaders (BackendRouting_FilterConfig rules Map.empty) stats s =
     Some (Continue, stats',
       case (routing_rule rules (getStringFilterState s kOperation), header_get kPath (req_headers s)) of
         (Some rule, Some path) \<Rightarrow>
           s\<lparr>req_headers := filter (\<lambda>h. fst h \<noteq> kPath) (req_headers s) @
               [(kPath, backend_path rule path (getStringFilterState s kQueryParams))]\<rparr>
       | _ \<Rightarrow> s)"
  by (auto simp: BackendRouting_decodeHeaders_def routing_rule_def findRule_def FilterConfig_routing_map
      constant_address_path_url backend_path_def header_addCopy_def header_remove_def Let_def
      split: option.splits)

text \<open>
  C22: the routing filter lets every request through and changes at most its path: where the
  operation has a rule, all \<open>:path\<close> entries are replaced by one, which for a constant address is
  the rule's address with the original query string followed by the forwarded path parameters, and
  otherwise the original path behind the rule's prefix.
\<close>

theorem BackendRouting_rewrites_path:
  "\<exists>stats'. BackendRouting_decodeHeaders (BackendRouting_FilterConfig rules Map.empty) stats s =
     Some (Continue, stats',
       case (routing_rule rules (getStringFilterState s kOperation), header_get kPath (req_headers s)) of
         (Some rule, Some path) \<Rightarrow>
           s\<lparr>req_headers := filter (\<lambda>h. fst h \<noteq> kPath) (req_headers s) @
               [(kPath, backend_path rule path (getStringFilterState s kQueryParams))]\<rparr>
       | _ \<Rightarrow> s)"
  by (rule BackendRouting_decodeHeaders_eq)

end
