(* ===== verification/TokenInfo.thy ===== *)
theory TokenInfo
  imports EnvoyUtils RequestInfo Complex_Main
begin

text \<open>
  Reading fields of a JSON object (\<open>envoy/utils/json_struct.cc\<close>), and the two token sources:
  the instance metadata server (\<open>envoy/token/imds_token_info.cc\<close>) and the IAM server
  (\<open>envoy/token/iam_token_info.cc\<close>), each with the request it sends and the responses it reads.

  What protobuf and Envoy provide is the argument \<open>env\<close>: the JSON parser and printer, the time
  stamp parser with the seconds left until a time stamp, and the split of a URI into host and path.
  A protobuf number is a double: a rational, an infinity or not a number.
\<close>

section \<open>Protobuf values\<close>

datatype json_number = NaN | Infinity bool | Finite rat

datatype pvalue =
    NullValue
  | NumberValue json_number
  | StringValue string
  | BoolValue bool
  | ListValue "pvalue list"
  | StructValue "(string \<times> pvalue) list"

record 't token_env =
  JsonStringToMessage :: "string \<Rightarrow> (string \<times> pvalue) list option"
  getJsonStringFromMessage :: "pvalue \<Rightarrow> string"
  TimeUtil_FromString :: "string \<Rightarrow> 't option"
  seconds_until :: "'t \<Rightarrow> int"
  extractHostPathFromUri :: "string \<Rightarrow> string \<times> string"

section \<open>Fields of a JSON object\<close>

definition INT_MIN :: int where "INT_MIN = - 2147483648"
definition INT_MAX :: int where "INT_MAX = 2147483647"

definition getString :: "(string \<times> pvalue) list \<Rightarrow> string \<Rightarrow> Status + string" where
  "getString js key =
     (case map_of js key of
        None \<Rightarrow> Inl (Status_of NOT_FOUND ''Field not found'')
      | Some (StringValue v) \<Rightarrow> Inr v
      | Some _ \<Rightarrow> Inl (Status_of INVALID_ARGUMENT ''Field is not a string''))"

text \<open>The cast from double to int drops the fraction.\<close>

definition double_to_int :: "rat \<Rightarrow> int" where
  "double_to_int x = (if x < 0 then - \<lfloor>- x\<rfloor> else \<lfloor>x\<rfloor>)"

definition getInteger :: "(string \<times> pvalue) list \<Rightarrow> string \<Rightarrow> Status + int" where
  "getInteger js key =
     (case map_of js key of
        None \<Rightarrow> Inl (Status_of NOT_FOUND ''Field not found'')
      | Some (NumberValue (Finite x)) \<Rightarrow>
          if x < of_int INT_MIN \<or> x > of_int INT_MAX
          then Inl (Status_of INVALID_ARGUMENT ''Field overflows an integer'')
          else Inr (double_to_int x)
      | Some (NumberValue _) \<Rightarrow> Inl (Status_of INVALID_ARGUMENT ''Field overflows an integer'')
      | Some _ \<Rightarrow> Inl (Status_of INVALID_ARGUMENT ''Field is not a number''))"

definition getTimestamp :: "'t token_env \<Rightarrow> (string \<times> pvalue) list \<Rightarrow> string \<Rightarrow> Status + 't" where
  "getTimestamp env js key =
     (case getString js key of
        Inl e \<Rightarrow> Inl e
      | Inr strValue \<Rightarrow>
          (case TimeUtil_FromString env strValue of
             Some t \<Rightarrow> Inr t
           | None \<Rightarrow> Inl (Status_of INVALID_ARGUMENT ''Field is not a Timestamp'')))"

section \<open>Token sources\<close>

record TokenResult =
  tr_token :: string
  tr_expiry_duration :: int

text \<open>
  \<open>IamTokenInfo\<close> has the delegates, the scopes and \<open>include_email\<close>; the function that
  returns its access token is called when a request is prepared, and its value passed there.
\<close>

datatype TokenInfo = ImdsTokenInfo | IamTokenInfo "string list" "string list" bool

record RequestMessage =
  rm_headers :: headers
  rm_body :: "string option"

definition kDelegatesField :: string where "kDelegatesField = ''delegates''"
definition kDelegatePrefix :: string where "kDelegatePrefix = ''projects/-/serviceAccounts/''"
definition kIncludeEmail :: string where "kIncludeEmail = ''includeEmail''"
definition kScopesField :: string where "kScopesField = ''scope''"
definition kDefaultTokenExpiry :: int where "kDefaultTokenExpiry = 3599"
definition kMetadataFlavorKey :: string where "kMetadataFlavorKey = ''metadata-flavor''"
definition kMetadataFlavor :: string where "kMetadataFlavor = ''Google''"
definition kHost :: string where "kHost = '':authority''"

definition insertStrListToProto ::
    "(string \<times> pvalue) list \<Rightarrow> string \<Rightarrow> string list \<Rightarrow> string \<Rightarrow> (string \<times> pvalue) list" where
  "insertStrListToProto body key val_list val_prefix =
     AList.update key (ListValue (map (\<lambda>v. StringValue (val_prefix @ v)) val_list)) body"

definition Iam_body :: "string list \<Rightarrow> string list \<Rightarrow> bool \<Rightarrow> (string \<times> pvalue) list" where
  "Iam_body delegates scopes include_email =
     (let body = (if delegates \<noteq> [] then insertStrListToProto [] kDelegatesField delegates kDelegatePrefix else []);
          body = (if scopes \<noteq> [] then insertStrListToProto body kScopesField scopes [] else body)
      in if include_email then AList.update kIncludeEmail (BoolValue True) body else body)"

definition Iam_prepareRequest ::
    "'t token_env \<Rightarrow> string list \<Rightarrow> string list \<Rightarrow> bool \<Rightarrow> string \<Rightarrow> string \<Rightarrow> RequestMessage option" where
  "Iam_prepareRequest env delegates scopes include_email access_token token_url =
     (if access_token = [] then None
      else
        (let (host, path) = extractHostPathFromUri env token_url;
             headers = [(kMethod, ''POST''), (kHost, host), (kPath, path),
                        (kAuthorization, ''Bearer '' @ access_token)]
         in Some \<lparr>rm_headers = headers,
                  rm_body = (if delegates \<noteq> [] \<or> scopes \<noteq> [] \<or> include_email
                             then Some (getJsonStringFromMessage env
                                          (StructValue (Iam_body delegates scopes include_email)))
                             else None)\<rparr>))"

definition Imds_prepareRequest :: "'t token_env \<Rightarrow> string \<Rightarrow> RequestMessage option" where
  "Imds_prepareRequest env token_url =
     (let (host, path) = extractHostPathFromUri env token_url
      in Some \<lparr>rm_headers = [(kMethod, ''GET''), (kHost, host), (kPath, path),
                             (kMetadataFlavorKey, kMetadataFlavor)],
               rm_body = None\<rparr>)"

fun prepareRequest :: "'t token_env \<Rightarrow> TokenInfo \<Rightarrow> string \<Rightarrow> string \<Rightarrow> RequestMessage option" where
  "prepareRequest env ImdsTokenInfo access_token token_url = Imds_prepareRequest env token_url"
| "prepareRequest env (IamTokenInfo delegates scopes include_email) access_token token_url =
     Iam_prepareRequest env delegates scopes include_email access_token token_url"

definition Iam_parseAccessToken :: "'t token_env \<Rightarrow> string \<Rightarrow> TokenResult option" where
  "Iam_parseAccessToken env response =
     (case JsonStringToMessage env response of
        None \<Rightarrow> None
      | Some js \<Rightarrow>
          (case getString js ''accessToken'' of
             Inl _ \<Rightarrow> None
           | Inr token \<Rightarrow>
               (case getTimestamp env js ''expireTime'' of
                  Inl _ \<Rightarrow> None
                | Inr expireTime \<Rightarrow>
                    Some \<lparr>tr_token = token, tr_expiry_duration = seconds_until env expireTime\<rparr>)))"

definition Iam_parseIdentityToken :: "'t token_env \<Rightarrow> string \<Rightarrow> TokenResult option" where
  "Iam_parseIdentityToken env response =
     (case JsonStringToMessage env response of
        None \<Rightarrow> None
      | Some js \<Rightarrow>
          (case getString js ''token'' of
             Inl _ \<Rightarrow> None
           | Inr token \<Rightarrow> Some \<lparr>tr_token = token, tr_expiry_duration = kDefaultTokenExpiry\<rparr>))"

definition Imds_parseAccessToken :: "'t token_env \<Rightarrow> string \<Rightarrow> TokenResult option" where
  "Imds_parseAccessToken env response =
     (case JsonStringToMessage env response of
        None \<Rightarrow> None
      | Some js \<Rightarrow>
          (case getString js ''access_token'' of
             Inl _ \<Rightarrow> None
           | Inr token \<Rightarrow>
               (case getInteger js ''expires_in'' of
                  Inl _ \<Rightarrow> None
                | Inr expires_seconds \<Rightarrow>
                    Some \<lparr>tr_token = token, tr_expiry_duration = expires_seconds\<rparr>)))"

definition Imds_parseIdentityToken :: "string \<Rightarrow> TokenResult option" where
  "Imds_parseIdentityToken response =
     Some \<lparr>tr_token = response, tr_expiry_duration = kDefaultTokenExpiry\<rparr>"

fun parseAccessToken :: "'t token_env \<Rightarrow> TokenInfo \<Rightarrow> string \<Rightarrow> TokenResult option" where
  "parseAccessToken env ImdsTokenInfo response = Imds_parseAccessToken env response"
| "parseAccessToken env (IamTokenInfo _ _ _) response = Iam_parseAccessToken env response"

fun parseIdentityToken :: "'t token_env \<Rightarrow> TokenInfo \<Rightarrow> string \<Rightarrow> TokenResult option" where
  "parseIdentityToken env ImdsTokenInfo response = Imds_parseIdentityToken response"
| "parseIdentityToken env (IamTokenInfo _ _ _) response = Iam_parseIdentityToken env response"

section \<open>Properties\<close>

lemma double_to_int_bounds:
  "of_int (double_to_int x) \<le> max x 0" "min x 0 \<le> of_int (double_to_int x)" "\<bar>x - of_int (double_to_int x)\<bar> < 1"
  unfolding double_to_int_def by (auto simp: max_def min_def) linarith+

text \<open>
  C28: reading an integer field either fails or returns a value that fits an \<open>int\<close>, lies between
  zero and the number of the field, and differs from it by less than one; it fails exactly when
  the field is absent, is not a number, or is a number outside the range of \<open>int\<close>.
\<close>

theorem getInteger_bounds:
  "case getInteger js key of
     Inr v \<Rightarrow> INT_MIN \<le> v \<and> v \<le> INT_MAX \<and>
       (\<exists>x. map_of js key = Some (NumberValue (Finite x)) \<and> \<bar>x - of_int v\<bar> < 1 \<and>
         of_int v \<le> max x 0 \<and> min x 0 \<le> of_int v)
   | Inl e \<Rightarrow> \<not> (\<exists>x. map_of js key = Some (NumberValue (Finite x)) \<and>
         of_int INT_MIN \<le> x \<and> x \<le> of_int INT_MAX)"
proof (cases "getInteger js key")
  case (Inl e)
  then show ?thesis
    by (auto simp: getInteger_def split: option.splits pvalue.splits json_number.splits if_splits)
next
  case (Inr v)
  then obtain x where x: "map_of js key = Some (NumberValue (Finite x))"
    "\<not> x < of_int INT_MIN" "\<not> x > of_int INT_MAX" "v = double_to_int x"
    by (auto simp: getInteger_def split: option.splits pvalue.splits json_number.splits if_splits)
  have "of_int INT_MIN \<le> (of_int v :: rat)" "of_int v \<le> (of_int INT_MAX :: rat)"
    using x(2-4) double_to_int_bounds(1,2) [of x] unfolding INT_MIN_def INT_MAX_def by linarith+
  then have "INT_MIN \<le> v" "v \<le> INT_MAX" by simp_all
  with Inr x(1,4) double_to_int_bounds [of x] show ?thesis by simp
qed

end
