(* ===== verification/TokenSubscriber.thy ===== *)
theory TokenSubscriber
  imports TokenInfo
begin

text \<open>
  The token subscriber (\<open>envoy/token/token_subscriber.cc\<close>): it fetches a token, hands it to its
  callback, and fetches the next one before the token expires, or again after a failure.

  The subscriber is a state machine. Its state has the request in flight, the delay the refresh
  timer is armed with, and whether initialisation was signalled; its events are the timer, a
  response and a failure. The asynchronous client answers a request once, after \<open>send\<close> has
  returned, and not after \<open>cancel\<close>; the timer fires once per \<open>enableTimer\<close>. A step returns
  the token it hands to the callback, if any.

  Every reachable state has either a request in flight or the timer armed, never both and never
  neither: the subscriber does not get stuck, and a good response always yields a token.
\<close>

section \<open>State\<close>

datatype TokenType = AccessToken | IdentityToken

record TokenSubscriber =
  ts_token_type :: TokenType
  ts_token_cluster :: string
  ts_token_url :: string
  ts_token_info :: TokenInfo
  ts_active_request :: "RequestMessage option"
  ts_refresh_timer :: "int option"
  ts_init_ready :: bool

record ResponseMessage =
  rs_status :: "nat option"
  rs_body :: string

definition kFailedRequestRetryTime :: int where "kFailedRequestRetryTime = 2"
definition kRefreshBuffer :: int where "kRefreshBuffer = 5"

definition new_TokenSubscriber :: "TokenType \<Rightarrow> string \<Rightarrow> string \<Rightarrow> TokenInfo \<Rightarrow> TokenSubscriber" where
  "new_TokenSubscriber token_type token_cluster token_url token_info =
     \<lparr>ts_token_type = token_type, ts_token_cluster = token_cluster, ts_token_url = token_url,
      ts_token_info = token_info, ts_active_request = None, ts_refresh_timer = None, ts_init_ready = False\<rparr>"

definition createImdsTokenSubscriber :: "TokenType \<Rightarrow> string \<Rightarrow> string \<Rightarrow> TokenSubscriber" where
  "createImdsTokenSubscriber token_type token_cluster token_url =
     new_TokenSubscriber token_type token_cluster token_url ImdsTokenInfo"

definition createIamTokenSubscriber ::
    "TokenType \<Rightarrow> string \<Rightarrow> string \<Rightarrow> string list \<Rightarrow> string list \<Rightarrow> TokenSubscriber" where
  "createIamTokenSubscriber token_type token_cluster token_url delegates scopes =
     new_TokenSubscriber token_type token_cluster token_url
       (IamTokenInfo delegates scopes (token_type = IdentityToken))"

section \<open>Operations\<close>

definition handleFailResponse :: "TokenSubscriber \<Rightarrow> TokenSubscriber" where
  "handleFailResponse ts =
     ts\<lparr>ts_active_request := None, ts_refresh_timer := Some kFailedRequestRetryTime\<rparr>"

definition refresh :: "'t token_env \<Rightarrow> string \<Rightarrow> TokenSubscriber \<Rightarrow> TokenSubscriber" where
  "refresh env access_token ts =
     (case prepareRequest env (ts_token_info ts) access_token (ts_token_url ts) of
        None \<Rightarrow> handleFailResponse ts
      | Some message \<Rightarrow> ts\<lparr>ts_active_request := Some message\<rparr>)"

definition handleSuccessResponse ::
    "'t token_env \<Rightarrow> string \<Rightarrow> string \<Rightarrow> int \<Rightarrow> TokenSubscriber \<Rightarrow> TokenSubscriber \<times> string option" where
  "handleSuccessResponse env access_token token expires_in ts =
     (let ts = ts\<lparr>ts_active_request := None\<rparr>;
          ts = (if expires_in \<le> kRefreshBuffer then refresh env access_token ts
                else ts\<lparr>ts_refresh_timer := Some (expires_in - kRefreshBuffer)\<rparr>)
      in (ts\<lparr>ts_init_ready := True\<rparr>, Some token))"

definition parse_token :: "'t token_env \<Rightarrow> TokenSubscriber \<Rightarrow> string \<Rightarrow> TokenResult option" where
  "parse_token env ts body =
     (case ts_token_type ts of
        IdentityToken \<Rightarrow> parseIdentityToken env (ts_token_info ts) body
      | AccessToken \<Rightarrow> parseAccessToken env (ts_token_info ts) body)"

definition processResponse ::
    "'t token_env \<Rightarrow> string \<Rightarrow> ResponseMessage \<Rightarrow> TokenSubscriber \<Rightarrow> TokenSubscriber \<times> string option" where
  "processResponse env access_token response ts =
     (if rs_status response \<noteq> Some 200 then (handleFailResponse ts, None)
      else case parse_token env ts (rs_body response) of
             None \<Rightarrow> (handleFailResponse ts, None)
           | Some result \<Rightarrow>
               handleSuccessResponse env access_token (tr_token result) (tr_expiry_duration result) ts)"

definition TokenSubscriber_onSuccess ::
    "'t token_env \<Rightarrow> string \<Rightarrow> ResponseMessage \<Rightarrow> TokenSubscriber \<Rightarrow> TokenSubscriber \<times> string option" where
  "TokenSubscriber_onSuccess env access_token response ts = processResponse env access_token response ts"

definition TokenSubscriber_onFailure :: "TokenSubscriber \<Rightarrow> TokenSubscriber" where
  "TokenSubscriber_onFailure ts = handleFailResponse ts"

definition timer_callback :: "'t token_env \<Rightarrow> string \<Rightarrow> TokenSubscriber \<Rightarrow> TokenSubscriber" where
  "timer_callback env access_token ts = refresh env access_token (ts\<lparr>ts_refresh_timer := None\<rparr>)"

text \<open>The destructor cancels the request, and the timer goes with the object.\<close>

definition TokenSubscriber_destructor :: "TokenSubscriber \<Rightarrow> TokenSubscriber" where
  "TokenSubscriber_destructor ts =
     (let ts = (case ts_active_request ts of Some _ \<Rightarrow> ts\<lparr>ts_active_request := None\<rparr> | None \<Rightarrow> ts)
      in ts\<lparr>ts_refresh_timer := None\<rparr>)"

section \<open>Runs\<close>

text \<open>
  \<open>token_step env access_token ts out ts'\<close>: an event takes \<open>ts\<close> to \<open>ts'\<close> and hands \<open>out\<close>
  to the callback. The access token is the one the function of the subscriber returns at that moment.
\<close>

inductive token_step ::
    "'t token_env \<Rightarrow> string \<Rightarrow> TokenSubscriber \<Rightarrow> string option \<Rightarrow> TokenSubscriber \<Rightarrow> bool"
  for env access_token where
  timer: "ts_refresh_timer ts \<noteq> None \<Longrightarrow>
     token_step env access_token ts None (timer_callback env access_token ts)"
| response: "ts_active_request ts \<noteq> None \<Longrightarrow>
     TokenSubscriber_onSuccess env access_token response ts = (ts', out) \<Longrightarrow>
     token_step env access_token ts out ts'"
| failure: "ts_active_request ts \<noteq> None \<Longrightarrow>
     token_step env access_token ts None (TokenSubscriber_onFailure ts)"

inductive_cases token_stepE: "token_step env a ts out ts'"

text \<open>\<open>token_run env ts0 toks ts\<close>: \<open>ts\<close> is reachable, after the tokens \<open>toks\<close> (latest first).\<close>

inductive token_run :: "'t token_env \<Rightarrow> TokenSubscriber \<Rightarrow> string list \<Rightarrow> TokenSubscriber \<Rightarrow> bool"
  for env ts0 where
  start: "token_run env ts0 [] (refresh env access_token ts0)"
| step: "token_run env ts0 toks ts \<Longrightarrow> token_step env access_token ts out ts' \<Longrightarrow>
     token_run env ts0 (case out of None \<Rightarrow> toks | Some tok \<Rightarrow> tok # toks) ts'"

section \<open>Lemmas\<close>

definition waiting :: "TokenSubscriber \<Rightarrow> bool" where
  "waiting ts \<longleftrightarrow> (ts_active_request ts = None) = (ts_refresh_timer ts \<noteq> None) \<and>
     (\<forall>d. ts_refresh_timer ts = Some d \<longrightarrow> d > 0)"

lemmas subscriber_defs = timer_callback_def refresh_def handleFailResponse_def handleSuccessResponse_def
  processResponse_def TokenSubscriber_onSuccess_def TokenSubscriber_onFailure_def
  kFailedRequestRetryTime_def kRefreshBuffer_def Let_def

lemma refresh_waiting: "ts_refresh_timer ts = None \<Longrightarrow> waiting (refresh env a ts)"
  by (auto simp: waiting_def subscriber_defs split: option.splits)

lemma refresh_ready [simp]: "ts_init_ready (refresh env a ts) = ts_init_ready ts"
  by (simp add: subscriber_defs split: option.splits)

lemma onSuccess_waiting:
  assumes "waiting ts" "ts_active_request ts \<noteq> None" "TokenSubscriber_onSuccess env a r ts = (ts', out)"
  shows "waiting ts'" "ts_init_ready ts' \<longleftrightarrow> ts_init_ready ts \<or> out \<noteq> None"
proof -
  have t: "ts_refresh_timer ts = None" using assms(1,2) by (auto simp: waiting_def)
  have fail: "waiting (handleFailResponse ts)" by (simp add: waiting_def subscriber_defs)
  have succ: "waiting (fst (handleSuccessResponse env a tok e ts))" for tok e
    using refresh_waiting [of "ts\<lparr>ts_active_request := None\<rparr>" env a] t
    by (auto simp: handleSuccessResponse_def Let_def waiting_def kRefreshBuffer_def)
  show "waiting ts'" "ts_init_ready ts' \<longleftrightarrow> ts_init_ready ts \<or> out \<noteq> None"
    using assms(3) fail succ
    by (auto simp: TokenSubscriber_onSuccess_def processResponse_def split: if_splits option.splits
        dest: arg_cong [of _ _ fst])
      (auto simp: handleSuccessResponse_def handleFailResponse_def Let_def)
qed

lemma token_step_waiting: "token_step env a ts out ts' \<Longrightarrow> waiting ts \<Longrightarrow> waiting ts'"
  by (induction rule: token_step.induct)
    (auto simp: timer_callback_def refresh_waiting TokenSubscriber_onFailure_def onSuccess_waiting(1),
     simp add: waiting_def subscriber_defs)

lemma token_step_ready:
  "token_step env a ts out ts' \<Longrightarrow> waiting ts \<Longrightarrow> ts_init_ready ts' \<longleftrightarrow> ts_init_ready ts \<or> out \<noteq> None"
  by (erule token_stepE)
    (auto simp: timer_callback_def TokenSubscriber_onFailure_def handleFailResponse_def
      dest: onSuccess_waiting(2))

text \<open>No step changes what the subscriber was created with.\<close>

definition same_source :: "TokenSubscriber \<Rightarrow> TokenSubscriber \<Rightarrow> bool" where
  "same_source ts ts' \<longleftrightarrow> ts_token_type ts' = ts_token_type ts \<and> ts_token_cluster ts' = ts_token_cluster ts \<and>
     ts_token_url ts' = ts_token_url ts \<and> ts_token_info ts' = ts_token_info ts"

lemma same_source_parse: "same_source ts ts' \<Longrightarrow> parse_token env ts' body = parse_token env ts body"
  by (cases "ts_token_type ts") (simp_all add: same_source_def parse_token_def)

lemma refresh_same_source: "same_source ts (refresh env a ts)"
  by (simp add: same_source_def subscriber_defs split: option.splits)

text \<open>Nothing calls back a subscriber that is gone.\<close>

lemma destroyed_no_step: "\<not> token_step env a (TokenSubscriber_destructor ts) out ts'"
  by (auto simp: TokenSubscriber_destructor_def Let_def elim!: token_stepE split: option.splits)

lemma token_step_same_source: "token_step env a ts out ts' \<Longrightarrow> same_source ts ts'"
  by (erule token_stepE)
    (auto simp: same_source_def subscriber_defs split: option.splits if_splits)

lemma token_run_same_source: "token_run env ts0 toks ts \<Longrightarrow> same_source ts0 ts"
proof (induction rule: token_run.induct)
  case (start a)
  show ?case by (rule refresh_same_source)
next
  case (step toks ts a out ts')
  then show ?case using token_step_same_source [OF step(2)] by (simp add: same_source_def)
qed

text \<open>A fresh subscriber has no request and no timer.\<close>

definition fresh_subscriber :: "TokenSubscriber \<Rightarrow> bool" where
  "fresh_subscriber ts \<longleftrightarrow> ts_active_request ts = None \<and> ts_refresh_timer ts = None \<and> \<not> ts_init_ready ts"

lemma fresh_new [simp]: "fresh_subscriber (new_TokenSubscriber t c u i)"
  by (simp add: fresh_subscriber_def new_TokenSubscriber_def)

lemma token_run_waiting:
  "token_run env ts0 toks ts \<Longrightarrow> fresh_subscriber ts0 \<Longrightarrow> waiting ts \<and> (ts_init_ready ts \<longleftrightarrow> toks \<noteq> [])"
proof (induction rule: token_run.induct)
  case (start a)
  then show ?case by (simp add: refresh_waiting fresh_subscriber_def)
next
  case (step toks ts a out ts')
  then show ?case
    using token_step_waiting [OF step(2)] token_step_ready [OF step(2)] by (auto split: option.splits)
qed

section \<open>Properties\<close>

text \<open>An environment for examples: every response is a JSON object with a token of one hour.\<close>

definition sample_env :: "nat token_env" where
  "sample_env =
     \<lparr>JsonStringToMessage = (\<lambda>s. Some [(''access_token'', StringValue s), (''token'', StringValue s),
        (''expires_in'', NumberValue (Finite 3600))]),
      getJsonStringFromMessage = (\<lambda>v. ''{}''), TimeUtil_FromString = (\<lambda>s. Some (length s)),
      seconds_until = int, extractHostPathFromUri = (\<lambda>u. (u, ''/''))\<rparr>"

text \<open>
  C26: in every state a subscriber can reach, exactly one of two things holds: a request is in
  flight, or the refresh timer is armed with a positive delay. It has signalled that it is ready
  exactly when it has handed a token to its callback.
\<close>

theorem token_run_invariant:
  assumes "token_run env (new_TokenSubscriber ty cluster url info) toks ts"
  shows "((ts_active_request ts \<noteq> None) \<noteq> (ts_refresh_timer ts \<noteq> None)) \<and>
    ts_refresh_timer ts \<notin> Some ` {..0} \<and> (ts_init_ready ts \<longleftrightarrow> toks \<noteq> [])"
  using token_run_waiting [OF assms fresh_new] by (auto simp: waiting_def)

theorem token_run_invariant_witness:
  "\<exists>env :: nat token_env. \<exists>ts.
     token_run env (new_TokenSubscriber AccessToken ''c'' ''u'' ImdsTokenInfo) [] ts \<and>
     ((ts_active_request ts \<noteq> None) \<noteq> (ts_refresh_timer ts \<noteq> None))"
proof -
  let ?ts = "new_TokenSubscriber AccessToken ''c'' ''u'' ImdsTokenInfo"
  have "token_run sample_env ?ts [] (refresh sample_env [] ?ts)" by (rule token_run.start)
  with token_run_invariant [OF this] show ?thesis by blast
qed

text \<open>
  When a response delivers a token, the next fetch is due five seconds before the token
  expires, and at once if it expires sooner; the next fetch is either the request already in
  flight or, when no request can be prepared yet, one in two seconds.
\<close>

lemma onSuccess_refresh_due:
  assumes "TokenSubscriber_onSuccess env a resp ts = (ts', Some tok)"
  shows "\<exists>e. parse_token env ts (rs_body resp) = Some \<lparr>tr_token = tok, tr_expiry_duration = e\<rparr> \<and>
    rs_status resp = Some 200 \<and>
    (if e > 5 then ts_active_request ts' = None \<and> ts_refresh_timer ts' = Some (e - 5)
     else case prepareRequest env (ts_token_info ts) a (ts_token_url ts) of
            Some message \<Rightarrow> ts_active_request ts' = Some message
          | None \<Rightarrow> ts_active_request ts' = None \<and> ts_refresh_timer ts' = Some 2)"
proof -
  obtain res where res: "parse_token env ts (rs_body resp) = Some res" "rs_status resp = Some 200"
    "handleSuccessResponse env a (tr_token res) (tr_expiry_duration res) ts = (ts', Some tok)"
    using assms by (auto simp: TokenSubscriber_onSuccess_def processResponse_def split: if_splits option.splits)
  moreover have "tr_token res = tok" using res(3) by (simp add: handleSuccessResponse_def Let_def)
  ultimately show ?thesis
    by (cases res, intro exI [of _ "tr_expiry_duration res"])
      (auto simp: subscriber_defs split: if_splits option.splits)
qed

text \<open>
  C27: the subscriber always recovers: from every reachable state, if a request can be prepared and
  the server then gives a good answer, its token is delivered after at most two more events (the
  timer and the answer), whatever failed before.
\<close>

theorem token_run_recovers:
  fixes resp :: ResponseMessage and result :: TokenResult
  assumes "token_run env (new_TokenSubscriber ty cluster url info) toks ts"
    and "prepareRequest env info a url \<noteq> None"
    and "rs_status resp = Some 200"
    and "parse_token env (new_TokenSubscriber ty cluster url info) (rs_body resp) = Some result"
  shows "\<exists>ts1 ts2. ts1 \<in> {ts, timer_callback env a ts} \<and> (ts1 \<noteq> ts \<longrightarrow> token_step env a ts None ts1) \<and>
    token_step env a ts1 (Some (tr_token result)) ts2 \<and>
    token_run env (new_TokenSubscriber ty cluster url info) (tr_token result # toks) ts2"
proof -
  let ?ts0 = "new_TokenSubscriber ty cluster url info"
  have w: "waiting ts" using token_run_waiting [OF assms(1)] by simp
  have same: "same_source ?ts0 ts" by (rule token_run_same_source [OF assms(1)])
  define ts1 where "ts1 = (if ts_active_request ts \<noteq> None then ts else timer_callback env a ts)"
  have timer: "ts_refresh_timer ts \<noteq> None" if "ts1 \<noteq> ts"
    using that w by (auto simp: ts1_def waiting_def split: if_splits)
  have s1: "ts1 \<noteq> ts \<longrightarrow> token_step env a ts None ts1"
    using token_step.timer [of ts env a] timer by (auto simp: ts1_def)
  have r1: "token_run env ?ts0 toks ts1"
    using assms(1) s1 token_run.step [OF assms(1), of a None ts1] by (cases "ts1 = ts") auto
  have src: "same_source ?ts0 ts1" by (rule token_run_same_source [OF r1])
  have act: "ts_active_request ts1 \<noteq> None"
    using assms(2) same by (auto simp: ts1_def timer_callback_def refresh_def same_source_def new_TokenSubscriber_def)
  obtain ts2 where "TokenSubscriber_onSuccess env a resp ts1 = (ts2, Some (tr_token result))"
    using assms(3,4)
    by (simp add: TokenSubscriber_onSuccess_def processResponse_def same_source_parse [OF src]
        handleSuccessResponse_def Let_def)
  then have s2: "token_step env a ts1 (Some (tr_token result)) ts2" using act by (intro token_step.response)
  then have "token_run env ?ts0 (tr_token result # toks) ts2" using token_run.step [OF r1 s2] by simp
  with s1 s2 show ?thesis by (intro exI [of _ ts1] exI [of _ ts2]) (auto simp: ts1_def)
qed

theorem token_run_recovers_witness:
  "\<exists>ts2. token_run sample_env (new_TokenSubscriber IdentityToken ''c'' ''u'' ImdsTokenInfo) [''tok''] ts2"
proof -
  let ?ts = "new_TokenSubscriber IdentityToken ''c'' ''u'' ImdsTokenInfo"
  have r: "token_run sample_env ?ts [] (refresh sample_env [] ?ts)" by (rule token_run.start)
  have p: "prepareRequest sample_env ImdsTokenInfo [] ''u'' \<noteq> None"
    "parse_token sample_env ?ts (rs_body \<lparr>rs_status = Some 200, rs_body = ''tok''\<rparr>) =
       Some \<lparr>tr_token = ''tok'', tr_expiry_duration = 3599\<rparr>" by code_simp+
  show ?thesis
    using token_run_recovers [OF r p(1) _ p(2)] by auto
qed

section \<open>Tokens from a service account key\<close>

text \<open>
  \<open>ServiceAccountTokenGenerator\<close> signs a token locally (with \<open>get_auth_token\<close>, an argument here and
  modelled in \<open>AuthToken\<close>) and refreshes it when the timer fires. \<open>get_auth_token\<close> may return a
  null pointer; the callback takes a \<open>std::string\<close>, which cannot be made from one: \<open>None\<close>.
  The constructor posts the first refresh to the dispatcher, which runs it later, once.
\<close>

record ServiceAccountTokenGenerator =
  sa_service_account_key :: string
  sa_audience :: string
  sa_refresh_timer :: "int option"
  sa_posted :: bool

definition new_ServiceAccountTokenGenerator :: "string \<Rightarrow> string \<Rightarrow> ServiceAccountTokenGenerator" where
  "new_ServiceAccountTokenGenerator service_account_key audience =
     \<lparr>sa_service_account_key = service_account_key, sa_audience = audience, sa_refresh_timer = None,
      sa_posted = True\<rparr>"

definition createServiceAccountTokenGenerator :: "string \<Rightarrow> string \<Rightarrow> ServiceAccountTokenGenerator" where
  "createServiceAccountTokenGenerator service_account_key audience =
     new_ServiceAccountTokenGenerator service_account_key audience"

definition kRefresherDefaultTokenExpiry :: int where "kRefresherDefaultTokenExpiry = 3600 - 5"

definition ServiceAccount_refresh ::
    "(string \<Rightarrow> string \<Rightarrow> string option) \<Rightarrow> ServiceAccountTokenGenerator
     \<Rightarrow> (ServiceAccountTokenGenerator \<times> string) option" where
  "ServiceAccount_refresh get_auth_token gen =
     (case get_auth_token (sa_service_account_key gen) (sa_audience gen) of
        None \<Rightarrow> None
      | Some token \<Rightarrow> Some (gen\<lparr>sa_refresh_timer := Some kRefresherDefaultTokenExpiry\<rparr>, token))"

text \<open>The functions that the dispatcher runs: the posted one, and that of the timer.\<close>

definition ServiceAccount_posted ::
    "(string \<Rightarrow> string \<Rightarrow> string option) \<Rightarrow> ServiceAccountTokenGenerator
     \<Rightarrow> (ServiceAccountTokenGenerator \<times> string) option" where
  "ServiceAccount_posted get_auth_token gen = ServiceAccount_refresh get_auth_token (gen\<lparr>sa_posted := False\<rparr>)"

definition ServiceAccount_timer ::
    "(string \<Rightarrow> string \<Rightarrow> string option) \<Rightarrow> ServiceAccountTokenGenerator
     \<Rightarrow> (ServiceAccountTokenGenerator \<times> string) option" where
  "ServiceAccount_timer get_auth_token gen = ServiceAccount_refresh get_auth_token (gen\<lparr>sa_refresh_timer := None\<rparr>)"

end
