(* ===== verification/TokenCell.thy ===== *)
theory TokenCell
  imports TokenSubscriber
begin

text \<open>
  A token subscriber together with the place its callback writes the tokens to.

  The locale \<open>token_cell\<close> is the contract between a subscriber and its client: an event of the
  client's state is an event of the subscriber in it, and the callback stores the token that the event
  delivers, if any. Its lemmas say what the client can rely on in every run: the subscriber is in
  a state it can reach from the one it was created in, the stored token is the latest delivered
  one, and once the subscriber has signalled that it is ready there is one. The clients are the
  configuration of the backend authentication filter and the Service Control calls.
\<close>

section \<open>Tokens a run delivers\<close>

definition latest :: "string list \<Rightarrow> string option" where
  "latest toks = (case toks of [] \<Rightarrow> None | tok # _ \<Rightarrow> Some tok)"

fun push_token :: "string option \<Rightarrow> string list \<Rightarrow> string list" where
  "push_token None toks = toks"
| "push_token (Some tok) toks = tok # toks"

lemma latest_simps [simp]: "latest [] = None" "latest (tok # toks) = Some tok"
  by (simp_all add: latest_def)

lemma latest_eq_None [simp]: "latest toks = None \<longleftrightarrow> toks = []"
  by (cases toks) simp_all

lemma token_run_push:
  "token_run env ts0 toks ts \<Longrightarrow> token_step env a ts out ts' \<Longrightarrow> token_run env ts0 (push_token out toks) ts'"
  using token_run.step [of env ts0 toks ts a out ts'] by (cases out) simp_all

text \<open>A token comes from a response of the source that the subscriber was created for.\<close>

lemma token_step_token:
  "token_step env a ts (Some tok) ts' \<Longrightarrow> \<exists>body res. parse_token env ts body = Some res \<and> tr_token res = tok"
  by (erule token_stepE)
    (auto simp: TokenSubscriber_onSuccess_def processResponse_def handleSuccessResponse_def Let_def
      split: if_splits option.splits)

lemma token_run_tokens:
  "token_run env ts0 toks ts \<Longrightarrow> tok \<in> set toks \<Longrightarrow>
   \<exists>body res. parse_token env ts0 body = Some res \<and> tr_token res = tok"
proof (induction rule: token_run.induct)
  case (step toks ts a out ts')
  have p: "parse_token env ts body = parse_token env ts0 body" for body
    by (rule same_source_parse [OF token_run_same_source [OF step(1)]])
  from step show ?case
    using token_step_token [of env a ts tok ts'] unfolding p by (cases out) auto
qed simp

section \<open>Requests a run sends\<close>

text \<open>A request in flight was prepared with one of the access tokens \<open>A\<close>.\<close>

definition requested :: "'t token_env \<Rightarrow> string set \<Rightarrow> TokenSubscriber \<Rightarrow> bool" where
  "requested env A ts \<longleftrightarrow>
     (\<forall>m. ts_active_request ts = Some m \<longrightarrow> (\<exists>a\<in>A. prepareRequest env (ts_token_info ts) a (ts_token_url ts) = Some m))"

lemma requested_mono: "requested env A ts \<Longrightarrow> A \<subseteq> B \<Longrightarrow> requested env B ts"
  by (auto simp: requested_def)

lemma refresh_requested: "requested env {a} (refresh env a ts)"
  by (auto simp: requested_def refresh_def handleFailResponse_def split: option.splits)

lemma token_step_requested: "token_step env a ts out ts' \<Longrightarrow> waiting ts \<Longrightarrow> requested env {a} ts'"
proof (erule token_stepE, goal_cases timer response failure)
  case timer
  then show ?case by (simp add: timer_callback_def refresh_requested)
next
  case (response resp)
  then show ?case
    using refresh_requested [of env a "ts\<lparr>ts_active_request := None\<rparr>"]
    by (auto simp: TokenSubscriber_onSuccess_def processResponse_def handleSuccessResponse_def
        handleFailResponse_def requested_def Let_def split: if_splits option.splits)
next
  case failure
  then show ?case by (simp add: TokenSubscriber_onFailure_def handleFailResponse_def requested_def)
qed

text \<open>IAM is asked only with an access token, and is given that token.\<close>

lemma iam_requested:
  assumes "requested env A ts" "ts_token_info ts = IamTokenInfo delegates scopes include_email"
    "ts_active_request ts = Some m"
  shows "\<exists>a\<in>A. a \<noteq> [] \<and> map_of (rm_headers m) kAuthorization = Some (''Bearer '' @ a)"
proof -
  obtain a where "a \<in> A" "Iam_prepareRequest env delegates scopes include_email a (ts_token_url ts) = Some m"
    using assms by (auto simp: requested_def)
  then show ?thesis
    by (intro bexI [of _ a])
      (auto simp: Iam_prepareRequest_def kMethod_def kHost_def kPath_def kAuthorization_def
        split: if_splits prod.splits)
qed

section \<open>The contract\<close>

text \<open>
  What a client knows of its subscriber \<open>sub\<close> and its cell \<open>c\<close>: the subscriber runs since it was
  created as \<open>ts0\<close>, it delivered the tokens \<open>toks\<close> (latest first), and asked with access tokens from
  \<open>A\<close>; the cell has the latest token, as \<open>stored\<close> puts it there.
\<close>

definition cell_holds ::
    "'t token_env \<Rightarrow> (string option \<Rightarrow> 'c) \<Rightarrow> TokenSubscriber \<Rightarrow> string set \<Rightarrow> string list
     \<Rightarrow> TokenSubscriber option \<Rightarrow> 'c \<Rightarrow> bool" where
  "cell_holds env stored ts0 A toks sub c \<longleftrightarrow> fresh_subscriber ts0 \<and> c = stored (latest toks) \<and>
     (\<exists>ts. sub = Some ts \<and> token_run env ts0 toks ts \<and> requested env A ts)"

lemma cell_holds_start:
  assumes "fresh_subscriber ts0" "sub = Some (refresh env a ts0)" "c = stored None" "a \<in> A"
  shows "cell_holds env stored ts0 A [] sub c"
  using assms requested_mono [OF refresh_requested, of a A env ts0] token_run.start [of env ts0 a]
  by (auto simp: cell_holds_def)

lemma cell_holds_mono: "cell_holds env stored ts0 A toks sub c \<Longrightarrow> A \<subseteq> B \<Longrightarrow> cell_holds env stored ts0 B toks sub c"
  by (auto simp: cell_holds_def dest: requested_mono)

lemma cell_holds_cell: "cell_holds env stored ts0 A toks sub c \<Longrightarrow> c = stored (latest toks)"
  by (simp add: cell_holds_def)

lemma cell_holds_ready:
  "cell_holds env stored ts0 A toks sub c \<Longrightarrow> sub = Some ts \<Longrightarrow> ts_init_ready ts \<longleftrightarrow> toks \<noteq> []"
  using token_run_waiting by (auto simp: cell_holds_def)

lemma cell_holds_tokens:
  "cell_holds env stored ts0 A toks sub c \<Longrightarrow> tok \<in> set toks \<Longrightarrow>
   \<exists>body res. parse_token env ts0 body = Some res \<and> tr_token res = tok"
  using token_run_tokens by (auto simp: cell_holds_def)

lemma cell_holds_sub: "cell_holds env stored ts0 A toks sub c \<Longrightarrow> \<exists>ts. sub = Some ts \<and> same_source ts0 ts"
  using token_run_same_source by (auto simp: cell_holds_def)

lemma cell_holds_iam_request:
  assumes "cell_holds env stored ts0 A toks (Some ts) c" "ts_token_info ts0 = IamTokenInfo delegates scopes include_email"
    "ts_active_request ts = Some m"
  shows "\<exists>a\<in>A. a \<noteq> [] \<and> map_of (rm_headers m) kAuthorization = Some (''Bearer '' @ a)"
  using assms cell_holds_sub [OF assms(1)] by (intro iam_requested) (auto simp: cell_holds_def same_source_def)

text \<open>The subscriber \<open>sub\<close> in force, against the one it was created as, if any.\<close>

definition sub_holds ::
    "'t token_env \<Rightarrow> (string option \<Rightarrow> 'c) \<Rightarrow> TokenSubscriber option \<Rightarrow> string set \<Rightarrow> string list
     \<Rightarrow> TokenSubscriber option \<Rightarrow> 'c \<Rightarrow> bool" where
  "sub_holds env stored sub0 A toks sub c =
     (case sub0 of None \<Rightarrow> sub = None | Some ts0 \<Rightarrow> cell_holds env stored ts0 A toks sub c)"

lemma sub_holds_None: "sub_holds env stored sub0 A toks sub c \<Longrightarrow> sub = None \<longleftrightarrow> sub0 = None"
  by (auto simp: sub_holds_def cell_holds_def split: option.splits)

lemma sub_holds_mono: "sub_holds env stored sub0 A toks sub c \<Longrightarrow> A \<subseteq> B \<Longrightarrow> sub_holds env stored sub0 B toks sub c"
  by (auto simp: sub_holds_def dest: cell_holds_mono split: option.splits)

lemma sub_holds_start:
  assumes "\<And>ts0. sub0 = Some ts0 \<Longrightarrow> fresh_subscriber ts0" "c = stored None" "a \<in> A"
  shows "sub_holds env stored sub0 A [] (map_option (refresh env a) sub0) c"
  using assms by (auto simp: sub_holds_def intro: cell_holds_start split: option.splits)

definition stored_access :: "string option \<Rightarrow> string" where
  "stored_access out = (case out of None \<Rightarrow> [] | Some tok \<Rightarrow> tok)"

lemma stored_access_in: "stored_access (latest ats) \<in> insert [] (set ats)"
  by (cases ats) (simp_all add: stored_access_def)

lemma set_push_token: "set ats \<subseteq> set (push_token out ats)"
  by (cases out) auto

lemma sub_holds_SomeE:
  assumes "sub_holds env stored sub0 A toks sub c" "sub \<noteq> None"
  obtains ts0 where "sub0 = Some ts0" "cell_holds env stored ts0 A toks sub c"
  using assms by (auto simp: sub_holds_def split: option.splits)

lemma fresh_created [simp]:
  "fresh_subscriber (createImdsTokenSubscriber ty c u)"
  "fresh_subscriber (createIamTokenSubscriber ty c u ds ss)"
  by (simp_all add: createImdsTokenSubscriber_def createIamTokenSubscriber_def)

fun sub_ready :: "TokenSubscriber option \<Rightarrow> bool" where
  "sub_ready None = True"
| "sub_ready (Some ts) = ts_init_ready ts"

locale token_cell =
  fixes env :: "'t token_env"
    and sub :: "'s \<Rightarrow> TokenSubscriber option"
    and cell :: "'s \<Rightarrow> 'c"
    and stored :: "string option \<Rightarrow> 'c"
    and event :: "string \<Rightarrow> 's \<Rightarrow> string option \<Rightarrow> 's \<Rightarrow> bool"
  assumes event_step: "event a s out s' \<Longrightarrow>
      \<exists>ts ts'. sub s = Some ts \<and> sub s' = Some ts' \<and> token_step env a ts out ts'"
    and event_cell: "event a s out s' \<Longrightarrow>
      cell s' = (case out of None \<Rightarrow> cell s | Some tok \<Rightarrow> stored (Some tok))"
begin

lemma event_holds:
  assumes "cell_holds env stored ts0 A toks (sub s) (cell s)" "event a s out s'" "a \<in> A"
  shows "cell_holds env stored ts0 A (push_token out toks) (sub s') (cell s')"
proof -
  obtain ts where ts: "fresh_subscriber ts0" "sub s = Some ts" "token_run env ts0 toks ts" "cell s = stored (latest toks)"
    using assms(1) by (auto simp: cell_holds_def)
  then obtain ts' where ts': "sub s' = Some ts'" "token_step env a ts out ts'"
    using event_step [OF assms(2)] by auto
  have "waiting ts" using token_run_waiting [OF ts(3,1)] by simp
  then have "requested env A ts'"
    using requested_mono [OF token_step_requested [OF ts'(2)]] assms(3) by blast
  moreover have "cell s' = stored (latest (push_token out toks))"
    using event_cell [OF assms(2)] ts(4) by (cases out) simp_all
  ultimately show ?thesis using ts ts' token_run_push [OF ts(3) ts'(2)] by (auto simp: cell_holds_def)
qed

lemma event_sub: "event a s out s' \<Longrightarrow> sub s \<noteq> None \<and> sub s' \<noteq> None"
  using event_step by fastforce

end

end
