(* ===== verification/BackendAuth.thy ===== *)
theory BackendAuth
  imports TokenSubscriber
begin

text \<open>
  The backend authentication filter (\<open>envoy/http/backend_auth\<close>): its configuration, with one
  token cache and one token subscriber per audience (\<open>config_parser_impl.cc\<close>), and the handler
  that puts the token of an operation's audience into the request (\<open>filter.cc\<close>).

  A token cache is thread local; the model is the view of one worker thread, to which
  \<open>runOnAllThreads\<close> brings the updates in their order.
\<close>

section \<open>Configuration\<close>

record BackendAuthRule =
  ba_operation :: string
  ba_jwt_audience :: string

datatype access_token_source = RemoteToken string string | OtherAccessToken

text \<open>URI, cluster, source of the access token and delegates for IAM; URI and cluster for IMDS.\<close>

datatype id_token_info =
    IamToken string string access_token_source "string list"
  | ImdsToken string string
  | NoIdTokenInfo

record BackendAuthConfig =
  bc_rules :: "BackendAuthRule list"
  bc_id_token_info :: id_token_info

record AudienceContext =
  ac_token :: "string option"
  ac_iam_token_sub :: "TokenSubscriber option"
  ac_imds_token_sub :: "TokenSubscriber option"

record FilterConfigParser =
  cp_access_token :: string
  cp_access_token_sub :: "TokenSubscriber option"
  cp_operation_map :: "(string \<times> string) list"
  cp_audience_map :: "(string \<times> AudienceContext) list"

definition new_AudienceContext :: "BackendAuthRule \<Rightarrow> id_token_info \<Rightarrow> AudienceContext" where
  "new_AudienceContext rule info =
     (let ctx = \<lparr>ac_token = None, ac_iam_token_sub = None, ac_imds_token_sub = None\<rparr>
      in case info of
           IamToken uri cluster access_token delegates \<Rightarrow>
             ctx\<lparr>ac_iam_token_sub := Some (createIamTokenSubscriber IdentityToken cluster
                    (uri @ ''?audience='' @ ba_jwt_audience rule) delegates [])\<rparr>
         | ImdsToken uri cluster \<Rightarrow>
             ctx\<lparr>ac_imds_token_sub := Some (createImdsTokenSubscriber IdentityToken cluster
                    (uri @ ''?format=standard&audience='' @ ba_jwt_audience rule))\<rparr>
         | NoIdTokenInfo \<Rightarrow> ctx)"

definition AudienceContext_token :: "AudienceContext \<Rightarrow> string option" where
  "AudienceContext_token ctx = ac_token ctx"

fun FilterConfigParser_rules ::
    "id_token_info \<Rightarrow> BackendAuthRule list \<Rightarrow> FilterConfigParser \<Rightarrow> FilterConfigParser" where
  "FilterConfigParser_rules info [] p = p"
| "FilterConfigParser_rules info (rule # rules) p =
     FilterConfigParser_rules info rules
       (let p = p\<lparr>cp_operation_map := AList.update (ba_operation rule) (ba_jwt_audience rule) (cp_operation_map p)\<rparr>
        in if map_of (cp_audience_map p) (ba_jwt_audience rule) = None
           then p\<lparr>cp_audience_map :=
                    AList.update (ba_jwt_audience rule) (new_AudienceContext rule info) (cp_audience_map p)\<rparr>
           else p)"

definition new_FilterConfigParserImpl :: "BackendAuthConfig \<Rightarrow> FilterConfigParser" where
  "new_FilterConfigParserImpl config =
     (let p = \<lparr>cp_access_token = [], cp_access_token_sub = None, cp_operation_map = [], cp_audience_map = []\<rparr>
      in case bc_id_token_info config of
           IamToken _ _ (RemoteToken uri cluster) _ \<Rightarrow>
             FilterConfigParser_rules (bc_id_token_info config) (bc_rules config)
               (p\<lparr>cp_access_token_sub := Some (createImdsTokenSubscriber AccessToken cluster uri)\<rparr>)
         | IamToken _ _ OtherAccessToken _ \<Rightarrow> p
         | _ \<Rightarrow> FilterConfigParser_rules (bc_id_token_info config) (bc_rules config) p)"

definition getAudience :: "FilterConfigParser \<Rightarrow> string \<Rightarrow> string" where
  "getAudience p operation = (case map_of (cp_operation_map p) operation of None \<Rightarrow> [] | Some a \<Rightarrow> a)"

definition getJwtToken :: "FilterConfigParser \<Rightarrow> string \<Rightarrow> string option" where
  "getJwtToken p audience =
     (case map_of (cp_audience_map p) audience of None \<Rightarrow> None | Some ctx \<Rightarrow> AudienceContext_token ctx)"

text \<open>The callbacks of the subscribers: of the access token, and of an audience.\<close>

definition access_token_callback :: "string \<Rightarrow> FilterConfigParser \<Rightarrow> FilterConfigParser" where
  "access_token_callback access_token p = p\<lparr>cp_access_token := access_token\<rparr>"

definition audience_callback :: "string \<Rightarrow> string \<Rightarrow> FilterConfigParser \<Rightarrow> FilterConfigParser" where
  "audience_callback audience token p =
     (case map_of (cp_audience_map p) audience of
        None \<Rightarrow> p
      | Some ctx \<Rightarrow>
          p\<lparr>cp_audience_map := AList.update audience (ctx\<lparr>ac_token := Some token\<rparr>) (cp_audience_map p)\<rparr>)"

section \<open>The filter\<close>

record BackendAuthStats =
  as_token_added :: nat

definition kBearer :: string where "kBearer = ''Bearer ''"
definition kMissingBackendToken :: string where "kMissingBackendToken = ''missing_backend_token''"

definition BackendAuth_decodeHeaders ::
    "FilterConfigParser \<Rightarrow> BackendAuthStats \<Rightarrow> stream
     \<Rightarrow> (FilterHeadersStatus \<times> BackendAuthStats \<times> stream) option" where
  "BackendAuth_decodeHeaders p stats s =
     (let operation = getStringFilterState s kOperation
      in if operation = [] then Some (Continue, stats, s)
         else
           (let audience = getAudience p operation
            in if audience = [] then Some (Continue, stats, s)
               else case getJwtToken p audience of
                      None \<Rightarrow>
                        Some (StopIteration, stats,
                          setResponseFlag (sendLocalReply 500 ''missing tokens'' kMissingBackendToken s))
                    | Some jwt_token \<Rightarrow>
                        Some (Continue, stats\<lparr>as_token_added := as_token_added stats + 1\<rparr>,
                          s\<lparr>req_headers := header_addCopy kAuthorization (kBearer @ jwt_token)
                                             (header_remove kAuthorization (req_headers s))\<rparr>)))"

interpretation backend_auth: decoder_filter "BackendAuth_decodeHeaders p"
  by unfold_locales
    (auto simp: BackendAuth_decodeHeaders_def sendLocalReply_def setResponseFlag_def Let_def
      split: if_splits option.splits)

section \<open>Audiences and tokens\<close>

text \<open>
  The reference: the audience of an operation is that of its last rule; a configuration that asks
  for IAM identity tokens without a remote access token has none.
\<close>

definition serves_tokens :: "BackendAuthConfig \<Rightarrow> bool" where
  "serves_tokens config \<longleftrightarrow>
     (case bc_id_token_info config of IamToken _ _ OtherAccessToken _ \<Rightarrow> False | _ \<Rightarrow> True)"

definition operation_audience :: "BackendAuthConfig \<Rightarrow> string \<Rightarrow> string" where
  "operation_audience config operation =
     (if operation \<noteq> [] \<and> serves_tokens config
      then (case find (\<lambda>r. ba_operation r = operation) (rev (bc_rules config)) of
              None \<Rightarrow> [] | Some r \<Rightarrow> ba_jwt_audience r)
      else [])"

text \<open>The token in force after a sequence of deliveries: the last one of its audience.\<close>

definition latest_token :: "(string \<times> string) list \<Rightarrow> string \<Rightarrow> string option" where
  "latest_token deliveries audience = map_of (rev deliveries) audience"

definition parser_after :: "BackendAuthConfig \<Rightarrow> (string \<times> string) list \<Rightarrow> FilterConfigParser" where
  "parser_after config deliveries =
     fold (\<lambda>(audience, token). audience_callback audience token) deliveries (new_FilterConfigParserImpl config)"

lemma rules_operation_map:
  "map_of (cp_operation_map (FilterConfigParser_rules info rules p)) op =
     (case find (\<lambda>r. ba_operation r = op) (rev rules) of
        None \<Rightarrow> map_of (cp_operation_map p) op | Some r \<Rightarrow> Some (ba_jwt_audience r))"
proof (induction rules arbitrary: p)
  case (Cons r rules)
  then show ?case by (auto simp: find_snoc Let_def update_conv' split: option.splits)
qed simp

lemma rules_audience_map:
  "map_of (cp_audience_map (FilterConfigParser_rules info rules p)) a =
     (case map_of (cp_audience_map p) a of
        Some ctx \<Rightarrow> Some ctx
      | None \<Rightarrow> map_option (\<lambda>r. new_AudienceContext r info) (find (\<lambda>r. ba_jwt_audience r = a) rules))"
  by (induction rules arbitrary: p) (auto simp: Let_def update_conv' split: option.splits if_splits)

lemma parser_operation_map:
  "operation \<noteq> [] \<Longrightarrow> getAudience (new_FilterConfigParserImpl config) operation = operation_audience config operation"
  by (auto simp: getAudience_def new_FilterConfigParserImpl_def operation_audience_def serves_tokens_def
      rules_operation_map Let_def split: id_token_info.splits access_token_source.splits option.splits)

lemma audience_callback_sel [simp]:
  "cp_operation_map (audience_callback a t p) = cp_operation_map p"
  by (simp add: audience_callback_def split: option.splits)

lemma audience_callback_token:
  "getJwtToken (audience_callback a t p) b =
     (if a = b \<and> map_of (cp_audience_map p) b \<noteq> None then Some t else getJwtToken p b)"
  by (auto simp: getJwtToken_def audience_callback_def AudienceContext_token_def update_conv'
      split: option.splits)

lemma audience_callback_known:
  "map_of (cp_audience_map (audience_callback a t p)) b = None \<longleftrightarrow> map_of (cp_audience_map p) b = None"
  by (auto simp: audience_callback_def update_conv' split: option.splits)

lemma after_snoc: "parser_after config (ds @ [(a, t)]) = audience_callback a t (parser_after config ds)"
  by (simp add: parser_after_def)

lemma after_operation_map: "cp_operation_map (parser_after config ds) = cp_operation_map (new_FilterConfigParserImpl config)"
  by (induction ds rule: rev_induct) (auto simp: after_snoc, simp add: parser_after_def)

lemma after_known:
  "map_of (cp_audience_map (parser_after config ds)) a = None \<longleftrightarrow>
   map_of (cp_audience_map (new_FilterConfigParserImpl config)) a = None"
  by (induction ds rule: rev_induct) (auto simp: after_snoc audience_callback_known, auto simp: parser_after_def)

lemma new_token_None: "getJwtToken (new_FilterConfigParserImpl config) a = None"
  by (auto simp: getJwtToken_def new_FilterConfigParserImpl_def rules_audience_map AudienceContext_token_def
      new_AudienceContext_def Let_def
      split: option.splits id_token_info.splits access_token_source.splits)

lemma after_token:
  assumes "map_of (cp_audience_map (new_FilterConfigParserImpl config)) a \<noteq> None"
  shows "getJwtToken (parser_after config ds) a = latest_token ds a"
proof (induction ds rule: rev_induct)
  case Nil
  show ?case by (simp add: parser_after_def latest_token_def new_token_None)
next
  case (snoc d ds)
  then show ?case
    using assms by (cases d) (simp add: after_snoc audience_callback_token after_known latest_token_def)
qed

lemma audience_known:
  assumes "operation_audience config op \<noteq> []"
  shows "map_of (cp_audience_map (new_FilterConfigParserImpl config)) (operation_audience config op) \<noteq> None"
proof -
  obtain r where r: "find (\<lambda>r. ba_operation r = op) (rev (bc_rules config)) = Some r"
    "operation_audience config op = ba_jwt_audience r" and s: "serves_tokens config"
    using assms by (auto simp: operation_audience_def split: if_splits option.splits)
  have "r \<in> set (bc_rules config)" using r(1) by (metis find_Some_iff nth_mem set_rev)
  then have "find (\<lambda>r'. ba_jwt_audience r' = ba_jwt_audience r) (bc_rules config) \<noteq> None"
    by (auto simp: find_None_iff)
  with s r(2) show ?thesis
    by (auto simp: new_FilterConfigParserImpl_def serves_tokens_def rules_audience_map Let_def
        split: id_token_info.splits access_token_source.splits)
qed

lemma BackendAuth_decodeHeaders_eq:
  "BackendAuth_decodeHeaders (parser_after config deliveries) stats s =
     (let audience = operation_audience config (getStringFilterState s kOperation)
      in if audience = [] then Some (Continue, stats, s)
         else case latest_token deliveries audience of
                None \<Rightarrow> Some (StopIteration, stats,
                  s\<lparr>sent_reply := Some \<lparr>reply_code = 500, reply_body = ''missing tokens'',
                      reply_details = ''missing_backend_token''\<rparr>, unauthorized_flag := True\<rparr>)
              | Some token \<Rightarrow> Some (Continue, stats\<lparr>as_token_added := as_token_added stats + 1\<rparr>,
                  s\<lparr>req_headers := filter (\<lambda>h. fst h \<noteq> ''authorization'') (req_headers s) @
                      [(''authorization'', ''Bearer '' @ token)]\<rparr>))"
proof -
  let ?op = "getStringFilterState s kOperation"
  have a: "getAudience (parser_after config deliveries) ?op = operation_audience config ?op" if "?op \<noteq> []"
    using parser_operation_map [OF that] by (simp add: getAudience_def after_operation_map)
  show ?thesis
  proof (cases "operation_audience config ?op = []")
    case True
    with a show ?thesis by (auto simp: BackendAuth_decodeHeaders_def Let_def)
  next
    case False
    then have "?op \<noteq> []" by (auto simp: operation_audience_def)
    with False a after_token [OF audience_known [OF False]] show ?thesis
      by (simp add: BackendAuth_decodeHeaders_def Let_def sendLocalReply_def setResponseFlag_def
          header_addCopy_def header_remove_def kAuthorization_def kBearer_def kMissingBackendToken_def
          split: option.splits)
  qed
qed

section \<open>Properties\<close>

text \<open>
  C23: what the filter does with a request, after any sequence of token deliveries: an operation
  without audience passes unchanged; an operation with an audience gets exactly one
  \<open>authorization\<close> header, the latest token delivered for that audience, in place of whatever the
  client sent, and all other headers as they were; before the first delivery the request is
  answered with 500 and goes no further.
\<close>

theorem BackendAuth_decodeHeaders_outcome:
  "BackendAuth_decodeHeaders (parser_after config deliveries) stats s =
     (let audience = operation_audience config (getStringFilterState s kOperation)
      in if audience = [] then Some (Continue, stats, s)
         else case latest_token deliveries audience of
                None \<Rightarrow> Some (StopIteration, stats,
                  s\<lparr>sent_reply := Some \<lparr>reply_code = 500, reply_body = ''missing tokens'',
                      reply_details = ''missing_backend_token''\<rparr>, unauthorized_flag := True\<rparr>)
              | Some token \<Rightarrow> Some (Continue, stats\<lparr>as_token_added := as_token_added stats + 1\<rparr>,
                  s\<lparr>req_headers := filter (\<lambda>h. fst h \<noteq> ''authorization'') (req_headers s) @
                      [(''authorization'', ''Bearer '' @ token)]\<rparr>))"
  by (rule BackendAuth_decodeHeaders_eq)

text \<open>
  Every audience an operation can ask for has a subscriber that fetches identity tokens for
  this very audience, from the server the configuration names.
\<close>

lemma audience_subscriber:
  assumes "operation_audience config op = audience" "audience \<noteq> []"
  shows "\<exists>ctx. map_of (cp_audience_map (new_FilterConfigParserImpl config)) audience = Some ctx \<and>
    (case bc_id_token_info config of
       IamToken uri cluster access_token delegates \<Rightarrow> ac_iam_token_sub ctx =
         Some (createIamTokenSubscriber IdentityToken cluster (uri @ ''?audience='' @ audience) delegates [])
     | ImdsToken uri cluster \<Rightarrow> ac_imds_token_sub ctx =
         Some (createImdsTokenSubscriber IdentityToken cluster (uri @ ''?format=standard&audience='' @ audience))
     | NoIdTokenInfo \<Rightarrow> ac_iam_token_sub ctx = None \<and> ac_imds_token_sub ctx = None)"
proof -
  from audience_known assms obtain ctx
    where ctx: "map_of (cp_audience_map (new_FilterConfigParserImpl config)) audience = Some ctx" by blast
  then obtain r where "ba_jwt_audience r = audience" "ctx = new_AudienceContext r (bc_id_token_info config)"
    by (auto simp: new_FilterConfigParserImpl_def rules_audience_map find_Some_iff Let_def
        split: id_token_info.splits access_token_source.splits option.splits)
  with ctx show ?thesis by (auto simp: new_AudienceContext_def Let_def split: id_token_info.splits)
qed

end
