(* ===== verification/BackendAuthTokens.thy ===== *)
theory BackendAuthTokens
  imports BackendAuth TokenCell
begin

text \<open>
  The backend authentication filter with its token subscribers running: the access token that IAM
  asks for, and one identity token per audience (\<open>config_parser_impl.cc\<close> over
  \<open>token_subscriber.cc\<close>).

  The subscribers live in the configuration and run at the same time, in any order of their events:
  the init manager starts each with a first fetch, then timers fire and servers answer. A token goes
  to the callback the subscriber was created with. The access token subscriber feeds the others:
  an IAM subscriber reads \<open>access_token_\<close> whenever it prepares a request, and retries later
  while there is none.

  The contract \<open>token_cell\<close> is interpreted for the access token and for the token cache of an
  audience. It gives the invariant of the whole system, and that the filter behaves as
  \<open>parser_after\<close> says for the deliveries that the subscribers really make.
\<close>

section \<open>The running configuration\<close>

definition start_context :: "'t token_env \<Rightarrow> string \<Rightarrow> AudienceContext \<Rightarrow> AudienceContext" where
  "start_context env access_token ctx =
     ctx\<lparr>ac_iam_token_sub := map_option (refresh env access_token) (ac_iam_token_sub ctx),
         ac_imds_token_sub := map_option (refresh env access_token) (ac_imds_token_sub ctx)\<rparr>"

text \<open>The init manager runs the target of every subscriber, before any answer arrives.\<close>

definition start_parser :: "'t token_env \<Rightarrow> FilterConfigParser \<Rightarrow> FilterConfigParser" where
  "start_parser env p =
     p\<lparr>cp_access_token_sub := map_option (refresh env (cp_access_token p)) (cp_access_token_sub p),
       cp_audience_map := map (\<lambda>(a, ctx). (a, start_context env (cp_access_token p) ctx)) (cp_audience_map p)\<rparr>"

definition context_of :: "string \<Rightarrow> FilterConfigParser \<Rightarrow> AudienceContext option" where
  "context_of a p = map_of (cp_audience_map p) a"

text \<open>
  An event of the access token subscriber, and of the subscriber of an audience, with what the
  callback does.
\<close>

fun deliver_access :: "string option \<Rightarrow> FilterConfigParser \<Rightarrow> FilterConfigParser" where
  "deliver_access None p = p"
| "deliver_access (Some token) p = access_token_callback token p"

fun deliver_audience :: "string \<Rightarrow> string option \<Rightarrow> FilterConfigParser \<Rightarrow> FilterConfigParser" where
  "deliver_audience a None p = p"
| "deliver_audience a (Some token) p = audience_callback a token p"

inductive access_event ::
    "'t token_env \<Rightarrow> string \<Rightarrow> FilterConfigParser \<Rightarrow> string option \<Rightarrow> FilterConfigParser \<Rightarrow> bool"
  for env access_token p out where
  access_eventI: "cp_access_token_sub p = Some ts \<Longrightarrow> token_step env access_token ts out ts' \<Longrightarrow>
     access_event env access_token p out (deliver_access out (p\<lparr>cp_access_token_sub := Some ts'\<rparr>))"

inductive iam_event ::
    "'t token_env \<Rightarrow> string \<Rightarrow> string \<Rightarrow> FilterConfigParser \<Rightarrow> string option \<Rightarrow> FilterConfigParser \<Rightarrow> bool"
  for env a access_token p out where
  iam_eventI: "context_of a p = Some ctx \<Longrightarrow> ac_iam_token_sub ctx = Some ts \<Longrightarrow>
     token_step env access_token ts out ts' \<Longrightarrow>
     iam_event env a access_token p out (deliver_audience a out
       (p\<lparr>cp_audience_map := AList.update a (ctx\<lparr>ac_iam_token_sub := Some ts'\<rparr>) (cp_audience_map p)\<rparr>))"

inductive imds_event ::
    "'t token_env \<Rightarrow> string \<Rightarrow> string \<Rightarrow> FilterConfigParser \<Rightarrow> string option \<Rightarrow> FilterConfigParser \<Rightarrow> bool"
  for env a access_token p out where
  imds_eventI: "context_of a p = Some ctx \<Longrightarrow> ac_imds_token_sub ctx = Some ts \<Longrightarrow>
     token_step env access_token ts out ts' \<Longrightarrow>
     imds_event env a access_token p out (deliver_audience a out
       (p\<lparr>cp_audience_map := AList.update a (ctx\<lparr>ac_imds_token_sub := Some ts'\<rparr>) (cp_audience_map p)\<rparr>))"

inductive_cases access_eventE: "access_event env t p out p'"
inductive_cases iam_eventE: "iam_event env a t p out p'"
inductive_cases imds_eventE: "imds_event env a t p out p'"

fun log_audience :: "string \<Rightarrow> string option \<Rightarrow> (string \<times> string) list \<Rightarrow> (string \<times> string) list" where
  "log_audience a None ds = ds"
| "log_audience a (Some token) ds = ds @ [(a, token)]"

text \<open>
  \<open>tokens_run env config ats ds p\<close>: the configuration can be in state \<open>p\<close> after the access
  tokens \<open>ats\<close> (latest first) and the deliveries \<open>ds\<close> of an audience and its token (latest last).
\<close>

inductive tokens_run ::
    "'t token_env \<Rightarrow> BackendAuthConfig \<Rightarrow> string list \<Rightarrow> (string \<times> string) list \<Rightarrow> FilterConfigParser \<Rightarrow> bool"
  for env config where
  start: "tokens_run env config [] [] (start_parser env (new_FilterConfigParserImpl config))"
| access: "tokens_run env config ats ds p \<Longrightarrow> access_event env (cp_access_token p) p out p' \<Longrightarrow>
     tokens_run env config (push_token out ats) ds p'"
| iam: "tokens_run env config ats ds p \<Longrightarrow> iam_event env a (cp_access_token p) p out p' \<Longrightarrow>
     tokens_run env config ats (log_audience a out ds) p'"
| imds: "tokens_run env config ats ds p \<Longrightarrow> imds_event env a (cp_access_token p) p out p' \<Longrightarrow>
     tokens_run env config ats (log_audience a out ds) p'"

section \<open>The contract of the subscribers\<close>

definition iam_sub :: "string \<Rightarrow> FilterConfigParser \<Rightarrow> TokenSubscriber option" where
  "iam_sub a p = Option.bind (context_of a p) ac_iam_token_sub"

definition imds_sub :: "string \<Rightarrow> FilterConfigParser \<Rightarrow> TokenSubscriber option" where
  "imds_sub a p = Option.bind (context_of a p) ac_imds_token_sub"

lemma deliver_access_sel [simp]:
  "cp_access_token_sub (deliver_access out p) = cp_access_token_sub p"
  "cp_audience_map (deliver_access out p) = cp_audience_map p"
  "cp_operation_map (deliver_access out p) = cp_operation_map p"
  "cp_access_token (deliver_access out p) = (case out of None \<Rightarrow> cp_access_token p | Some tok \<Rightarrow> tok)"
  by (cases out; simp add: access_token_callback_def)+

lemma deliver_audience_sel [simp]:
  "cp_access_token_sub (deliver_audience a out p) = cp_access_token_sub p"
  "cp_operation_map (deliver_audience a out p) = cp_operation_map p"
  "cp_access_token (deliver_audience a out p) = cp_access_token p"
  by (cases out; simp add: audience_callback_def split: option.splits)+

lemma context_of_deliver:
  "context_of b (deliver_audience a out p) =
     (case out of Some tok \<Rightarrow>
        if a = b then map_option (\<lambda>ctx. ctx\<lparr>ac_token := Some tok\<rparr>) (context_of b p) else context_of b p
      | None \<Rightarrow> context_of b p)"
  by (cases out) (auto simp: context_of_def audience_callback_def update_conv' split: option.splits)

lemma context_of_update:
  "context_of b (p\<lparr>cp_audience_map := AList.update a ctx (cp_audience_map p)\<rparr>) =
     (if a = b then Some ctx else context_of b p)"
  by (simp add: context_of_def update_conv')

declare deliver_access.simps [simp del] deliver_audience.simps [simp del]

lemma getJwtToken_context: "getJwtToken p a = Option.bind (context_of a p) ac_token"
  by (simp add: getJwtToken_def context_of_def AudienceContext_token_def split: option.splits)

lemmas cell_simps = iam_sub_def imds_sub_def getJwtToken_context context_of_deliver context_of_update

interpretation access_cell: token_cell env cp_access_token_sub cp_access_token stored_access "access_event env"
  by unfold_locales (auto elim!: access_eventE simp: stored_access_def split: option.splits)

interpretation iam_cell: token_cell env "iam_sub a" "\<lambda>p. getJwtToken p a" id "iam_event env a"
  by unfold_locales (auto elim!: iam_eventE simp: cell_simps split: option.splits)

interpretation imds_cell: token_cell env "imds_sub a" "\<lambda>p. getJwtToken p a" id "imds_event env a"
  by unfold_locales (auto elim!: imds_eventE simp: cell_simps split: option.splits)

text \<open>What an event leaves alone.\<close>

lemma access_event_frame:
  "access_event env t p out p' \<Longrightarrow> context_of a p' = context_of a p \<and> cp_operation_map p' = cp_operation_map p"
  by (auto elim!: access_eventE simp: context_of_def)

lemma iam_event_frame:
  assumes "iam_event env a t p out p'"
  shows "cp_operation_map p' = cp_operation_map p" "cp_access_token p' = cp_access_token p"
    "cp_access_token_sub p' = cp_access_token_sub p" "imds_sub b p' = imds_sub b p"
    "b \<noteq> a \<Longrightarrow> context_of b p' = context_of b p" "context_of a p' \<noteq> None" "iam_sub a p \<noteq> None"
  using assms
  by (auto elim!: iam_eventE simp: cell_simps split: option.splits)

lemma imds_event_frame:
  assumes "imds_event env a t p out p'"
  shows "cp_operation_map p' = cp_operation_map p" "cp_access_token p' = cp_access_token p"
    "cp_access_token_sub p' = cp_access_token_sub p" "iam_sub b p' = iam_sub b p"
    "b \<noteq> a \<Longrightarrow> context_of b p' = context_of b p" "context_of a p' \<noteq> None" "imds_sub a p \<noteq> None"
  using assms
  by (auto elim!: imds_eventE simp: cell_simps split: option.splits)

section \<open>The invariant\<close>

text \<open>The tokens of one audience, latest first.\<close>

definition tokens_of :: "(string \<times> string) list \<Rightarrow> string \<Rightarrow> string list" where
  "tokens_of ds a = rev (map snd (filter (\<lambda>d. fst d = a) ds))"

lemma tokens_of_Nil [simp]: "tokens_of [] a = []"
  by (simp add: tokens_of_def)

lemma tokens_of_log: "tokens_of (log_audience a out ds) b = (if a = b then push_token out (tokens_of ds b) else tokens_of ds b)"
  by (cases out) (simp_all add: tokens_of_def)

lemma latest_tokens_of: "latest (tokens_of ds a) = latest_token ds a"
  by (induction ds rule: rev_induct) (auto simp: latest_token_def tokens_of_def)

text \<open>The subscribers that the constructor creates.\<close>

lemma new_parser_context:
  assumes "context_of a (new_FilterConfigParserImpl config) = Some ctx"
  shows "\<exists>r. ba_jwt_audience r = a \<and> ctx = new_AudienceContext r (bc_id_token_info config)"
  using assms
  by (auto simp: context_of_def new_FilterConfigParserImpl_def rules_audience_map find_Some_iff Let_def
      split: id_token_info.splits access_token_source.splits option.splits)

lemma new_parser_iam:
  assumes "iam_sub a (new_FilterConfigParserImpl config) = Some ts0"
  obtains uri cluster acc delegates where "bc_id_token_info config = IamToken uri cluster acc delegates"
    "ts0 = createIamTokenSubscriber IdentityToken cluster (uri @ ''?audience='' @ a) delegates []"
    "imds_sub a (new_FilterConfigParserImpl config) = None"
  using assms new_parser_context [of a config]
  by (cases "bc_id_token_info config")
    (auto simp: iam_sub_def imds_sub_def new_AudienceContext_def Let_def bind_eq_Some_conv)

lemma new_parser_imds:
  assumes "imds_sub a (new_FilterConfigParserImpl config) = Some ts0"
  obtains uri cluster where "bc_id_token_info config = ImdsToken uri cluster"
    "ts0 = createImdsTokenSubscriber IdentityToken cluster (uri @ ''?format=standard&audience='' @ a)"
    "iam_sub a (new_FilterConfigParserImpl config) = None"
  using assms new_parser_context [of a config]
  by (cases "bc_id_token_info config")
    (auto simp: iam_sub_def imds_sub_def new_AudienceContext_def Let_def bind_eq_Some_conv)

lemma new_parser_access_token [simp]: "cp_access_token (new_FilterConfigParserImpl config) = []"
proof -
  have "cp_access_token (FilterConfigParser_rules info rules p) = cp_access_token p" for info rules p
    by (induction rules arbitrary: p) (simp_all add: Let_def)
  then show ?thesis
    by (simp add: new_FilterConfigParserImpl_def Let_def split: id_token_info.splits access_token_source.splits)
qed

lemma new_parser_access_sub:
  "cp_access_token_sub (new_FilterConfigParserImpl config) = Some ts0 \<Longrightarrow> fresh_subscriber ts0"
proof -
  have "cp_access_token_sub (FilterConfigParser_rules info rules p) = cp_access_token_sub p" for info rules p
    by (induction rules arbitrary: p) (simp_all add: Let_def)
  then show "cp_access_token_sub (new_FilterConfigParserImpl config) = Some ts0 \<Longrightarrow> fresh_subscriber ts0"
    by (auto simp: new_FilterConfigParserImpl_def Let_def split: id_token_info.splits access_token_source.splits)
qed

text \<open>
  What holds of the subscribers of one audience, and of the whole configuration. An IAM subscriber
  asks with access tokens that were delivered.
\<close>

definition audience_inv ::
    "'t token_env \<Rightarrow> FilterConfigParser \<Rightarrow> string list \<Rightarrow> (string \<times> string) list \<Rightarrow> FilterConfigParser \<Rightarrow> string \<Rightarrow> bool"
  where
  "audience_inv env p0 ats ds p a \<longleftrightarrow>
     (context_of a p = None \<longleftrightarrow> context_of a p0 = None) \<and> getJwtToken p a = latest (tokens_of ds a) \<and>
     sub_holds env id (iam_sub a p0) (insert [] (set ats)) (tokens_of ds a) (iam_sub a p) (getJwtToken p a) \<and>
     sub_holds env id (imds_sub a p0) UNIV (tokens_of ds a) (imds_sub a p) (getJwtToken p a)"

definition tokens_inv ::
    "'t token_env \<Rightarrow> BackendAuthConfig \<Rightarrow> string list \<Rightarrow> (string \<times> string) list \<Rightarrow> FilterConfigParser \<Rightarrow> bool" where
  "tokens_inv env config ats ds p \<longleftrightarrow>
     (let p0 = new_FilterConfigParserImpl config in
      cp_operation_map p = cp_operation_map p0 \<and> cp_access_token p = stored_access (latest ats) \<and>
      sub_holds env stored_access (cp_access_token_sub p0) UNIV ats (cp_access_token_sub p) (cp_access_token p) \<and>
      (\<forall>a. audience_inv env p0 ats ds p a))"

lemma tokens_invD:
  assumes "tokens_inv env config ats ds p"
  shows "cp_operation_map p = cp_operation_map (new_FilterConfigParserImpl config)"
    "cp_access_token p = stored_access (latest ats)"
    "sub_holds env stored_access (cp_access_token_sub (new_FilterConfigParserImpl config)) UNIV ats
       (cp_access_token_sub p) (cp_access_token p)"
    "audience_inv env (new_FilterConfigParserImpl config) ats ds p a"
  using assms unfolding tokens_inv_def Let_def by blast+

lemma start_parser_simps [simp]:
  "cp_operation_map (start_parser env p) = cp_operation_map p"
  "cp_access_token (start_parser env p) = cp_access_token p"
  "cp_access_token_sub (start_parser env p) = map_option (refresh env (cp_access_token p)) (cp_access_token_sub p)"
  "context_of a (start_parser env p) = map_option (start_context env (cp_access_token p)) (context_of a p)"
  by (simp_all add: start_parser_def context_of_def map_of_map [of "start_context env (cp_access_token p)"]
      case_prod_beta)

lemma start_subs [simp]:
  "iam_sub a (start_parser env p) = map_option (refresh env (cp_access_token p)) (iam_sub a p)"
  "imds_sub a (start_parser env p) = map_option (refresh env (cp_access_token p)) (imds_sub a p)"
  "getJwtToken (start_parser env p) a = getJwtToken p a"
  by (cases "context_of a p"; simp add: iam_sub_def imds_sub_def getJwtToken_context start_context_def)+

lemma tokens_inv_start: "tokens_inv env config [] [] (start_parser env (new_FilterConfigParserImpl config))"
proof -
  let ?p = "new_FilterConfigParserImpl config"
  have "fresh_subscriber ts0" if "iam_sub a ?p = Some ts0" for a ts0
    using that by (auto elim: new_parser_iam)
  moreover have "fresh_subscriber ts0" if "imds_sub a ?p = Some ts0" for a ts0
    using that by (auto elim: new_parser_imds)
  ultimately show ?thesis
    by (auto simp: tokens_inv_def audience_inv_def Let_def stored_access_def new_token_None intro!: sub_holds_start
        dest: new_parser_access_sub)
qed

lemma context_frame:
  assumes "context_of a p' = context_of a p"
  shows "iam_sub a p' = iam_sub a p" "imds_sub a p' = imds_sub a p" "getJwtToken p' a = getJwtToken p a"
  using assms by (simp_all add: iam_sub_def imds_sub_def getJwtToken_context)

lemma audience_inv_mono:
  assumes "audience_inv env p0 ats ds p a" "context_of a p' = context_of a p" "set ats \<subseteq> set ats'"
    "tokens_of ds' a = tokens_of ds a"
  shows "audience_inv env p0 ats' ds' p' a"
proof -
  have "insert [] (set ats) \<subseteq> insert [] (set ats')" using assms(3) by blast
  then show ?thesis
    using assms(1) unfolding audience_inv_def context_frame [OF assms(2)] assms(2,4)
    by (blast intro: sub_holds_mono)
qed

lemma tokens_inv_access:
  assumes inv: "tokens_inv env config ats ds p" and e: "access_event env t p out p'"
  shows "tokens_inv env config (push_token out ats) ds p'"
proof -
  let ?p0 = "new_FilterConfigParserImpl config"
  obtain ts0 where ts0: "cp_access_token_sub ?p0 = Some ts0"
    "cell_holds env stored_access ts0 UNIV ats (cp_access_token_sub p) (cp_access_token p)"
    using access_cell.event_sub [OF e] by (auto intro: sub_holds_SomeE [OF tokens_invD(3) [OF inv]])
  have h: "cell_holds env stored_access ts0 UNIV (push_token out ats) (cp_access_token_sub p') (cp_access_token p')"
    by (rule access_cell.event_holds [OF ts0(2) e]) simp
  have "\<forall>a. audience_inv env ?p0 (push_token out ats) ds p' a"
    by (rule allI, rule audience_inv_mono [OF tokens_invD(4) [OF inv]])
      (use access_event_frame [OF e] set_push_token in auto)
  then show ?thesis
    using h cell_holds_cell [OF h] access_event_frame [OF e] ts0(1) tokens_invD(1) [OF inv]
    unfolding tokens_inv_def Let_def sub_holds_def by simp
qed

text \<open>An event of one audience leaves the others as they are.\<close>

lemma tokens_inv_audience:
  assumes inv: "tokens_inv env config ats ds p"
    and "cp_operation_map p' = cp_operation_map p" "cp_access_token p' = cp_access_token p"
    "cp_access_token_sub p' = cp_access_token_sub p" "\<And>b. b \<noteq> a \<Longrightarrow> context_of b p' = context_of b p"
    and own: "audience_inv env (new_FilterConfigParserImpl config) ats (log_audience a out ds) p' a"
  shows "tokens_inv env config ats (log_audience a out ds) p'"
proof -
  have "\<forall>b. audience_inv env (new_FilterConfigParserImpl config) ats (log_audience a out ds) p' b"
  proof
    fix b
    show "audience_inv env (new_FilterConfigParserImpl config) ats (log_audience a out ds) p' b"
    proof (cases "b = a")
      case False
      then show ?thesis
        using assms(5) by (intro audience_inv_mono [OF tokens_invD(4) [OF inv]]) (auto simp: tokens_of_log)
    qed (simp add: own)
  qed
  then show ?thesis using tokens_invD(1-3) [OF inv] assms(2-4) unfolding tokens_inv_def Let_def by simp
qed

lemma tokens_inv_iam:
  assumes inv: "tokens_inv env config ats ds p" and e: "iam_event env a (cp_access_token p) p out p'"
  shows "tokens_inv env config ats (log_audience a out ds) p'"
proof (rule tokens_inv_audience [OF inv iam_event_frame(1-3,5) [OF e]])
  let ?p0 = "new_FilterConfigParserImpl config" and ?A = "insert [] (set ats)"
  have i: "sub_holds env id (iam_sub a ?p0) ?A (tokens_of ds a) (iam_sub a p) (getJwtToken p a)"
    "sub_holds env id (imds_sub a ?p0) UNIV (tokens_of ds a) (imds_sub a p) (getJwtToken p a)"
    using tokens_invD(4) [OF inv, of a] unfolding audience_inv_def by blast+
  have acc: "cp_access_token p \<in> ?A" unfolding tokens_invD(2) [OF inv] by (rule stored_access_in)
  obtain ts0 where ts0: "iam_sub a ?p0 = Some ts0"
    "cell_holds env id ts0 ?A (tokens_of ds a) (iam_sub a p) (getJwtToken p a)"
    using iam_cell.event_sub [OF e] by (auto intro: sub_holds_SomeE [OF i(1)])
  have h: "cell_holds env id ts0 ?A (push_token out (tokens_of ds a)) (iam_sub a p') (getJwtToken p' a)"
    by (rule iam_cell.event_holds [OF ts0(2) e acc])
  have none: "imds_sub a ?p0 = None" using ts0(1) by (auto elim: new_parser_iam)
  then have "imds_sub a p' = None" using i(2) iam_event_frame(4) [OF e, of a] by (simp add: sub_holds_def)
  moreover have "context_of a ?p0 \<noteq> None" using ts0(1) by (cases "context_of a ?p0") (auto simp: iam_sub_def)
  ultimately show "audience_inv env ?p0 ats (log_audience a out ds) p' a"
    using h cell_holds_cell [OF h] none ts0(1) iam_event_frame(6) [OF e]
    by (auto simp: audience_inv_def tokens_of_log sub_holds_def)
qed

lemma tokens_inv_imds:
  assumes inv: "tokens_inv env config ats ds p" and e: "imds_event env a t p out p'"
  shows "tokens_inv env config ats (log_audience a out ds) p'"
proof (rule tokens_inv_audience [OF inv imds_event_frame(1-3,5) [OF e]])
  let ?p0 = "new_FilterConfigParserImpl config"
  have i: "sub_holds env id (iam_sub a ?p0) (insert [] (set ats)) (tokens_of ds a) (iam_sub a p) (getJwtToken p a)"
    "sub_holds env id (imds_sub a ?p0) UNIV (tokens_of ds a) (imds_sub a p) (getJwtToken p a)"
    using tokens_invD(4) [OF inv, of a] unfolding audience_inv_def by blast+
  obtain ts0 where ts0: "imds_sub a ?p0 = Some ts0"
    "cell_holds env id ts0 UNIV (tokens_of ds a) (imds_sub a p) (getJwtToken p a)"
    using imds_cell.event_sub [OF e] by (auto intro: sub_holds_SomeE [OF i(2)])
  have h: "cell_holds env id ts0 UNIV (push_token out (tokens_of ds a)) (imds_sub a p') (getJwtToken p' a)"
    by (rule imds_cell.event_holds [OF ts0(2) e]) simp
  have none: "iam_sub a ?p0 = None" using ts0(1) by (auto elim: new_parser_imds)
  then have "iam_sub a p' = None" using i(1) imds_event_frame(4) [OF e, of a] by (simp add: sub_holds_def)
  moreover have "context_of a ?p0 \<noteq> None" using ts0(1) by (cases "context_of a ?p0") (auto simp: imds_sub_def)
  ultimately show "audience_inv env ?p0 ats (log_audience a out ds) p' a"
    using h cell_holds_cell [OF h] none ts0(1) imds_event_frame(6) [OF e]
    by (auto simp: audience_inv_def tokens_of_log sub_holds_def)
qed

lemma tokens_run_inv: "tokens_run env config ats ds p \<Longrightarrow> tokens_inv env config ats ds p"
  by (induction rule: tokens_run.induct)
    (rule tokens_inv_start, (erule (1) tokens_inv_access tokens_inv_iam tokens_inv_imds)+)

section \<open>What the filter sends\<close>

text \<open>The filter sees of the running system the deliveries, and nothing else.\<close>

lemma tokens_run_refines:
  assumes "tokens_run env config ats ds p"
  shows "BackendAuth_decodeHeaders p stats s = BackendAuth_decodeHeaders (parser_after config ds) stats s"
proof -
  have inv: "tokens_inv env config ats ds p" by (rule tokens_run_inv [OF assms])
  have aud: "getAudience p x = getAudience (parser_after config ds) x" for x
    using tokens_invD(1) [OF inv] by (simp add: getAudience_def after_operation_map)
  have jwt: "getJwtToken p a = getJwtToken (parser_after config ds) a" for a
  proof (cases "map_of (cp_audience_map (new_FilterConfigParserImpl config)) a")
    case None
    then have "context_of a p = None" "map_of (cp_audience_map (parser_after config ds)) a = None"
      using tokens_invD(4) [OF inv, of a] after_known [of config ds a] by (simp_all add: audience_inv_def context_of_def)
    then show ?thesis by (simp add: getJwtToken_context context_of_def)
  next
    case (Some ctx)
    then show ?thesis
      using after_token [of config a ds] tokens_invD(4) [OF inv, of a]
      by (simp add: audience_inv_def latest_tokens_of)
  qed
  show ?thesis by (simp only: BackendAuth_decodeHeaders_def aud jwt)
qed

text \<open>
  The server accepts requests once the targets of the init manager are ready: every subscriber has
  called \<open>ready\<close>.
\<close>

definition context_ready :: "AudienceContext \<Rightarrow> bool" where
  "context_ready ctx \<longleftrightarrow> sub_ready (ac_iam_token_sub ctx) \<and>
     sub_ready (ac_imds_token_sub ctx)"

definition all_ready :: "FilterConfigParser \<Rightarrow> bool" where
  "all_ready p \<longleftrightarrow> sub_ready (cp_access_token_sub p) \<and>
     list_all (\<lambda>(a, ctx). context_ready ctx) (cp_audience_map p)"

text \<open>The subscriber that the constructor makes for an audience.\<close>

definition audience_source :: "BackendAuthConfig \<Rightarrow> string \<Rightarrow> TokenSubscriber option" where
  "audience_source config a =
     (case bc_id_token_info config of
        IamToken uri cluster _ delegates \<Rightarrow>
          Some (createIamTokenSubscriber IdentityToken cluster (uri @ ''?audience='' @ a) delegates [])
      | ImdsToken uri cluster \<Rightarrow>
          Some (createImdsTokenSubscriber IdentityToken cluster (uri @ ''?format=standard&audience='' @ a))
      | NoIdTokenInfo \<Rightarrow> None)"

lemma all_ready_sub:
  assumes "all_ready p" "iam_sub a p = Some ts \<or> imds_sub a p = Some ts"
  shows "ts_init_ready ts"
proof -
  obtain ctx where ctx: "context_of a p = Some ctx" "ac_iam_token_sub ctx = Some ts \<or> ac_imds_token_sub ctx = Some ts"
    using assms(2) by (auto simp: iam_sub_def imds_sub_def bind_eq_Some_conv)
  then have "(a, ctx) \<in> set (cp_audience_map p)" by (simp add: context_of_def map_of_SomeD)
  with assms(1) have "context_ready ctx" by (auto simp: all_ready_def list_all_iff)
  with ctx(2) show ?thesis by (auto simp: context_ready_def)
qed

lemma ready_source:
  assumes "tokens_run env config ats ds p" "all_ready p" "context_of a (new_FilterConfigParserImpl config) \<noteq> None"
    and "bc_id_token_info config \<noteq> NoIdTokenInfo"
  shows "\<exists>ts0 A tok rest sub. audience_source config a = Some ts0 \<and> tokens_of ds a = tok # rest \<and>
    cell_holds env id ts0 A (tok # rest) sub (getJwtToken p a)"
proof -
  let ?p0 = "new_FilterConfigParserImpl config"
  have inv: "audience_inv env ?p0 ats ds p a" by (rule tokens_invD(4) [OF tokens_run_inv [OF assms(1)]])
  obtain ctx r where ctx: "context_of a ?p0 = Some ctx" "ba_jwt_audience r = a"
    "ctx = new_AudienceContext r (bc_id_token_info config)" using assms(3) new_parser_context by blast
  consider ts0 where "iam_sub a ?p0 = Some ts0" "audience_source config a = Some ts0"
    | ts0 where "imds_sub a ?p0 = Some ts0" "audience_source config a = Some ts0"
    using ctx assms(4)
    by (cases "bc_id_token_info config")
      (auto simp: iam_sub_def imds_sub_def new_AudienceContext_def audience_source_def)
  then obtain ts0 A sub where h: "audience_source config a = Some ts0"
    "cell_holds env id ts0 A (tokens_of ds a) sub (getJwtToken p a)" "sub = iam_sub a p \<or> sub = imds_sub a p"
    using inv by cases (auto simp: audience_inv_def sub_holds_def)
  obtain ts where "sub = Some ts" using cell_holds_sub [OF h(2)] by blast
  with h(3) all_ready_sub [OF assms(2)] have "tokens_of ds a \<noteq> []" using cell_holds_ready [OF h(2)] by metis
  with h show ?thesis by (cases "tokens_of ds a") auto
qed

text \<open>
  C24: once the subscribers are ready, no request is refused for want of a token. In every state that
  the running subscribers can reach in which all have signalled readiness, whatever failed and was
  retried on the way, a request to an operation with an audience goes on with exactly one
  \<open>authorization\<close> header: the latest token that the subscriber of this audience delivered, and
  that token was in a response to the subscriber created for this audience.
\<close>

theorem tokens_served:
  assumes "tokens_run env config ats ds p" "all_ready p" "bc_id_token_info config \<noteq> NoIdTokenInfo"
    and "operation_audience config (getStringFilterState s kOperation) = audience" "audience \<noteq> []"
  shows "\<exists>tok ts0 body res.
    BackendAuth_decodeHeaders p stats s = Some (Continue, stats\<lparr>as_token_added := as_token_added stats + 1\<rparr>,
      s\<lparr>req_headers := filter (\<lambda>h. fst h \<noteq> ''authorization'') (req_headers s) @
          [(''authorization'', ''Bearer '' @ tok)]\<rparr>) \<and>
    latest_token ds audience = Some tok \<and>
    audience_source config audience = Some ts0 \<and> parse_token env ts0 body = Some res \<and> tr_token res = tok"
proof -
  have "context_of audience (new_FilterConfigParserImpl config) \<noteq> None"
    using audience_known [of config "getStringFilterState s kOperation"] assms(4,5) by (simp add: context_of_def)
  then obtain ts0 A tok rest sub where h: "audience_source config audience = Some ts0"
    "tokens_of ds audience = tok # rest" "cell_holds env id ts0 A (tok # rest) sub (getJwtToken p audience)"
    using ready_source [OF assms(1,2) _ assms(3), of audience] by blast
  then have "latest_token ds audience = Some tok" using latest_tokens_of [of ds audience] by simp
  with h cell_holds_tokens [OF h(3), of tok] assms(4,5) show ?thesis
    by (auto simp: tokens_run_refines [OF assms(1)] BackendAuth_decodeHeaders_eq)
qed

text \<open>A configuration with one audience, and the first answer of its subscriber.\<close>

definition imds_config :: BackendAuthConfig where
  "imds_config = \<lparr>bc_rules = [\<lparr>ba_operation = ''GetShelf'', ba_jwt_audience = ''aud''\<rparr>],
     bc_id_token_info = ImdsToken ''uri'' ''c''\<rparr>"

definition shelf_stream :: "headers \<Rightarrow> stream" where
  "shelf_stream hs = \<lparr>req_headers = hs, filter_state = [(kOperation, ''GetShelf'')], sent_reply = None,
     unauthorized_flag = False\<rparr>"

definition imds_started :: FilterConfigParser where
  "imds_started = start_parser sample_env (new_FilterConfigParserImpl imds_config)"

definition imds_context :: AudienceContext where
  "imds_context = the (context_of ''aud'' imds_started)"

definition imds_answered :: TokenSubscriber where
  "imds_answered = fst (TokenSubscriber_onSuccess sample_env [] \<lparr>rs_status = Some 200, rs_body = ''tok''\<rparr>
     (the (ac_imds_token_sub imds_context)))"

definition imds_served :: FilterConfigParser where
  "imds_served = deliver_audience ''aud'' (Some ''tok'') (imds_started\<lparr>cp_audience_map :=
     AList.update ''aud'' (imds_context\<lparr>ac_imds_token_sub := Some imds_answered\<rparr>) (cp_audience_map imds_started)\<rparr>)"

lemma imds_facts:
  "context_of ''aud'' imds_started \<noteq> None" "ac_imds_token_sub imds_context \<noteq> None"
  "ts_active_request (the (ac_imds_token_sub imds_context)) \<noteq> None" "cp_access_token imds_started = []"
  "snd (TokenSubscriber_onSuccess sample_env [] \<lparr>rs_status = Some 200, rs_body = ''tok''\<rparr>
     (the (ac_imds_token_sub imds_context))) = Some ''tok''"
  "all_ready imds_served" "operation_audience imds_config ''GetShelf'' = ''aud''"
  "bc_id_token_info imds_config \<noteq> NoIdTokenInfo"
  by code_simp+

lemma imds_served_run: "tokens_run sample_env imds_config [] [(''aud'', ''tok'')] imds_served"
proof -
  have s: "tokens_run sample_env imds_config [] [] imds_started"
    unfolding imds_started_def by (rule tokens_run.start)
  obtain ts where ts: "ac_imds_token_sub imds_context = Some ts" using imds_facts(2) by blast
  have ctx: "context_of ''aud'' imds_started = Some imds_context" using imds_facts(1) by (auto simp: imds_context_def)
  have "token_step sample_env (cp_access_token imds_started) ts (Some ''tok'') imds_answered"
    using imds_facts(3-5) ts
    by (intro token_step.response [where response = "\<lparr>rs_status = Some 200, rs_body = ''tok''\<rparr>"])
      (simp_all add: imds_answered_def prod_eq_iff)
  from imds_eventI [OF ctx ts this] have "imds_event sample_env ''aud'' (cp_access_token imds_started) imds_started
      (Some ''tok'') imds_served" unfolding imds_served_def .
  from tokens_run.imds [OF s this] show ?thesis by simp
qed

theorem tokens_served_witness:
  "\<exists>s'. BackendAuth_decodeHeaders imds_served \<lparr>as_token_added = 0\<rparr>
      (shelf_stream [(''authorization'', ''mine'')]) = Some (Continue, \<lparr>as_token_added = 1\<rparr>, s') \<and>
    req_headers s' = [(''authorization'', ''Bearer tok'')]"
proof -
  let ?s = "shelf_stream [(''authorization'', ''mine'')]"
  have "operation_audience imds_config (getStringFilterState ?s kOperation) = ''aud''" by code_simp
  moreover have "latest_token [(''aud'', ''tok'')] ''aud'' = Some ''tok''" by code_simp
  ultimately show ?thesis
    using tokens_served [OF imds_served_run imds_facts(6,8), of ?s "''aud''" "\<lparr>as_token_added = 0\<rparr>"]
    by (auto simp: shelf_stream_def)
qed

text \<open>
  C25: IAM is never asked without an access token: every request for an identity token that an IAM
  subscriber has in flight carries, as its bearer token, a non-empty access token that the access
  token subscriber had delivered.
\<close>

theorem iam_request_bearer:
  assumes "tokens_run env config ats ds p" "iam_sub a p = Some ts" "ts_active_request ts = Some m"
  shows "\<exists>t\<in>set ats. t \<noteq> [] \<and> map_of (rm_headers m) kAuthorization = Some (''Bearer '' @ t)"
proof -
  let ?p0 = "new_FilterConfigParserImpl config"
  have inv: "sub_holds env id (iam_sub a ?p0) (insert [] (set ats)) (tokens_of ds a) (iam_sub a p) (getJwtToken p a)"
    using tokens_invD(4) [OF tokens_run_inv [OF assms(1)], of a] unfolding audience_inv_def by blast
  obtain ts0 where ts0: "iam_sub a ?p0 = Some ts0"
    "cell_holds env id ts0 (insert [] (set ats)) (tokens_of ds a) (iam_sub a p) (getJwtToken p a)"
    using assms(2) by (auto intro: sub_holds_SomeE [OF inv])
  obtain delegates scopes e where "ts_token_info ts0 = IamTokenInfo delegates scopes e"
    using ts0(1) by (auto elim!: new_parser_iam simp: createIamTokenSubscriber_def new_TokenSubscriber_def)
  from cell_holds_iam_request [OF ts0(2) [unfolded assms(2)] this assms(3)] show ?thesis by auto
qed

text \<open>
  An IAM configuration: the identity token subscriber finds no access token and arms its timer; the
  access token arrives; the timer fires.
\<close>

definition iam_config :: BackendAuthConfig where
  "iam_config = imds_config\<lparr>bc_id_token_info := IamToken ''iam'' ''c'' (RemoteToken ''uri'' ''c'') []\<rparr>"

definition iam_started :: FilterConfigParser where
  "iam_started = start_parser sample_env (new_FilterConfigParserImpl iam_config)"

definition iam_access :: FilterConfigParser where
  "iam_access = deliver_access (Some ''acc'') (iam_started\<lparr>cp_access_token_sub :=
     Some (fst (TokenSubscriber_onSuccess sample_env [] \<lparr>rs_status = Some 200, rs_body = ''acc''\<rparr>
       (the (cp_access_token_sub iam_started))))\<rparr>)"

definition iam_context :: AudienceContext where
  "iam_context = the (context_of ''aud'' iam_access)"

definition iam_asking :: FilterConfigParser where
  "iam_asking = deliver_audience ''aud'' None (iam_access\<lparr>cp_audience_map :=
     AList.update ''aud'' (iam_context\<lparr>ac_iam_token_sub :=
         Some (timer_callback sample_env ''acc'' (the (ac_iam_token_sub iam_context)))\<rparr>)
       (cp_audience_map iam_access)\<rparr>)"

lemma iam_facts:
  "cp_access_token_sub iam_started \<noteq> None" "ts_active_request (the (cp_access_token_sub iam_started)) \<noteq> None"
  "cp_access_token iam_started = []"
  "snd (TokenSubscriber_onSuccess sample_env [] \<lparr>rs_status = Some 200, rs_body = ''acc''\<rparr>
     (the (cp_access_token_sub iam_started))) = Some ''acc''"
  "context_of ''aud'' iam_access \<noteq> None" "ac_iam_token_sub iam_context \<noteq> None"
  "ts_refresh_timer (the (ac_iam_token_sub iam_context)) \<noteq> None" "cp_access_token iam_access = ''acc''"
  "iam_sub ''aud'' iam_asking \<noteq> None" "ts_active_request (the (iam_sub ''aud'' iam_asking)) \<noteq> None"
  by code_simp+

lemma iam_access_run: "tokens_run sample_env iam_config [''acc''] [] iam_access"
proof -
  have s: "tokens_run sample_env iam_config [] [] iam_started"
    unfolding iam_started_def by (rule tokens_run.start)
  obtain ts where ts: "cp_access_token_sub iam_started = Some ts" using iam_facts(1) by blast
  have "token_step sample_env (cp_access_token iam_started) ts (Some ''acc'')
      (fst (TokenSubscriber_onSuccess sample_env [] \<lparr>rs_status = Some 200, rs_body = ''acc''\<rparr> ts))"
    using iam_facts(2-4) ts
    by (intro token_step.response [where response = "\<lparr>rs_status = Some 200, rs_body = ''acc''\<rparr>"])
      (simp_all add: prod_eq_iff)
  from access_eventI [OF ts this] have "access_event sample_env (cp_access_token iam_started) iam_started
      (Some ''acc'') iam_access" by (simp add: iam_access_def ts)
  from tokens_run.access [OF s this] show ?thesis by simp
qed

lemma iam_asking_run: "tokens_run sample_env iam_config [''acc''] [] iam_asking"
proof -
  obtain ts where ts: "ac_iam_token_sub iam_context = Some ts" using iam_facts(6) by blast
  have ctx: "context_of ''aud'' iam_access = Some iam_context" using iam_facts(5) by (auto simp: iam_context_def)
  have "token_step sample_env (cp_access_token iam_access) ts None (timer_callback sample_env ''acc'' ts)"
    using token_step.timer [of ts sample_env "''acc''"] iam_facts(7,8) ts by simp
  from iam_eventI [OF ctx ts this] have "iam_event sample_env ''aud'' (cp_access_token iam_access) iam_access
      None iam_asking" by (simp add: iam_asking_def ts)
  from tokens_run.iam [OF iam_access_run this] show ?thesis by simp
qed

theorem iam_request_bearer_witness:
  "\<exists>ts m. iam_sub ''aud'' iam_asking = Some ts \<and> ts_active_request ts = Some m \<and>
     map_of (rm_headers m) kAuthorization = Some ''Bearer acc''"
proof -
  obtain ts m where "iam_sub ''aud'' iam_asking = Some ts" "ts_active_request ts = Some m"
    using iam_facts(9,10) by auto
  with iam_request_bearer [OF iam_asking_run this] show ?thesis by auto
qed

end
