(* ===== verification/JsonUtil.thy ===== *)
theory JsonUtil
  imports ESP_Prelude
begin

text \<open>
  Reading and building JSON with gRPC's nodes (\<open>api_proxy/auth/json_util.cc\<close>). The nodes are linked
  by pointers, which the code follows and sets, so they live in a heap: a function from addresses
  to nodes, with a null pointer \<open>None\<close>. The result \<open>None\<close> of an operation is a dereferenced null
  pointer (or a walk along a cycle). gRPC's parser is a parameter.

  What a heap holds is given by the relation \<open>represents\<close> to trees; reading a field by its path is
  proved to be the lookup in the tree.
\<close>

section \<open>Nodes\<close>

datatype grpc_json_type = GRPC_JSON_OBJECT | GRPC_JSON_ARRAY | GRPC_JSON_STRING | GRPC_JSON_NUMBER
  | GRPC_JSON_TRUE | GRPC_JSON_FALSE | GRPC_JSON_NULL

record grpc_json =
  gj_next :: "nat option"
  gj_child :: "nat option"
  gj_parent :: "nat option"
  gj_type :: grpc_json_type
  gj_key :: "string option"
  gj_value :: "string option"

type_synonym json_heap = "nat \<Rightarrow> grpc_json"

text \<open>A node filled with zero bytes; the first type is that of an object.\<close>

definition zero_json :: grpc_json where
  "zero_json = \<lparr>gj_next = None, gj_child = None, gj_parent = None, gj_type = GRPC_JSON_OBJECT,
     gj_key = None, gj_value = None\<rparr>"

text \<open>What a function that takes a pointer to characters sees of a string.\<close>

definition c_str :: "string \<Rightarrow> string" where
  "c_str s = takeWhile (\<lambda>c. c \<noteq> CHR 0x00) s"

definition kJwtPayloadsDelimeter :: char where "kJwtPayloadsDelimeter = CHR ''.''"

definition isNullOrEmpty :: "string option \<Rightarrow> bool" where
  "isNullOrEmpty str \<longleftrightarrow> (case str of None \<Rightarrow> True | Some s \<Rightarrow> s = [])"

section \<open>Reading\<close>

text \<open>The loop over the children; \<open>strcmp\<close> of a null key is undefined.\<close>

partial_function (option) find_child :: "json_heap \<Rightarrow> string \<Rightarrow> nat option \<Rightarrow> nat option option" where
  "find_child h key cur =
     (case cur of
        None \<Rightarrow> Some None
      | Some a \<Rightarrow>
          (case gj_key (h a) of
             None \<Rightarrow> None
           | Some k \<Rightarrow> if k = key then Some (Some a) else find_child h key (gj_next (h a))))"

declare find_child.simps [code]

definition GetProperty :: "json_heap \<Rightarrow> nat option \<Rightarrow> string option \<Rightarrow> nat option option" where
  "GetProperty h json key =
     (case (json, key) of
        (Some a, Some k) \<Rightarrow> find_child h k (gj_child (h a))
      | _ \<Rightarrow> Some None)"

definition GetPropertyValue ::
    "json_heap \<Rightarrow> nat option \<Rightarrow> string option \<Rightarrow> grpc_json_type \<Rightarrow> string option option" where
  "GetPropertyValue h json key type =
     (case GetProperty h json key of
        None \<Rightarrow> None
      | Some None \<Rightarrow> Some None
      | Some (Some cur) \<Rightarrow> if gj_type (h cur) \<noteq> type then Some None else Some (gj_value (h cur)))"

definition GetStringValue :: "json_heap \<Rightarrow> nat option \<Rightarrow> string option \<Rightarrow> string option option" where
  "GetStringValue h json key = GetPropertyValue h json key GRPC_JSON_STRING"

definition GetNumberValue :: "json_heap \<Rightarrow> nat option \<Rightarrow> string option \<Rightarrow> string option option" where
  "GetNumberValue h json key = GetPropertyValue h json key GRPC_JSON_NUMBER"

text \<open>Pieces as \<open>std::getline\<close> gives them: none is left behind a last delimiter.\<close>

function Split :: "string \<Rightarrow> char \<Rightarrow> string list \<Rightarrow> string list" where
  "Split [] delim elems = elems"
| "Split (c # s) delim elems =
     Split (drop 1 (dropWhile (\<lambda>x. x \<noteq> delim) (c # s))) delim
       (elems @ [takeWhile (\<lambda>x. x \<noteq> delim) (c # s)])"
  by pat_completeness auto

termination
proof (relation "measure (\<lambda>(s, _, _). length s)", simp)
  fix c delim :: char and s and elems :: "string list"
  have "length (dropWhile (\<lambda>x. x \<noteq> delim) (c # s)) \<le> length (c # s)" by (rule length_dropWhile_le)
  then show "((drop 1 (dropWhile (\<lambda>x. x \<noteq> delim) (c # s)), delim, elems @ [takeWhile (\<lambda>x. x \<noteq> delim) (c # s)]),
      (c # s, delim, elems)) \<in> measure (\<lambda>(s, _, _). length s)" by simp
qed

fun walk :: "json_heap \<Rightarrow> string list \<Rightarrow> nat option \<Rightarrow> nat option option" where
  "walk h [] json = Some json"
| "walk h (path_field # path_fields) json =
     (case GetProperty h json (Some (c_str path_field)) of
        None \<Rightarrow> None
      | Some json \<Rightarrow> walk h path_fields json)"

text \<open>The \<open>switch\<close> on the type of the node found.\<close>

definition primitive_value :: "json_heap \<Rightarrow> nat \<Rightarrow> string \<Rightarrow> (bool \<times> string) option" where
  "primitive_value h json payload_value =
     (case gj_type (h json) of
        GRPC_JSON_STRING \<Rightarrow> map_option (\<lambda>v. (True, v)) (gj_value (h json))
      | GRPC_JSON_NUMBER \<Rightarrow> map_option (\<lambda>v. (True, v)) (gj_value (h json))
      | GRPC_JSON_TRUE \<Rightarrow> Some (True, ''true'')
      | GRPC_JSON_FALSE \<Rightarrow> Some (True, ''false'')
      | _ \<Rightarrow> Some (False, payload_value))"

definition GetPrimitiveFieldValue ::
    "(string \<Rightarrow> (json_heap \<times> nat) option) \<Rightarrow> string \<Rightarrow> string \<Rightarrow> string \<Rightarrow> (bool \<times> string) option" where
  "GetPrimitiveFieldValue parse json_str payload_path payload_value =
     (case parse (c_str json_str) of
        None \<Rightarrow> Some (False, payload_value)
      | Some (h, json_root) \<Rightarrow>
          (case walk h (Split payload_path kJwtPayloadsDelimeter []) (Some json_root) of
             None \<Rightarrow> None
           | Some None \<Rightarrow> Some (False, payload_value)
           | Some (Some json) \<Rightarrow> primitive_value h json payload_value))"

section \<open>Building\<close>

definition FillChild ::
    "nat \<Rightarrow> nat option \<Rightarrow> nat \<Rightarrow> string option \<Rightarrow> string option \<Rightarrow> grpc_json_type \<Rightarrow> json_heap \<Rightarrow> json_heap" where
  "FillChild child brother parent key value type h =
     (if isNullOrEmpty key \<or> isNullOrEmpty value then h
      else
        (let h = h(child := zero_json);
             h = (case brother of None \<Rightarrow> h | Some b \<Rightarrow> h(b := (h b)\<lparr>gj_next := Some child\<rparr>));
             h = (if gj_child (h parent) = None then h(parent := (h parent)\<lparr>gj_child := Some child\<rparr>) else h)
         in h(child := (h child)\<lparr>gj_parent := Some parent, gj_key := key, gj_value := value, gj_type := type\<rparr>)))"

section \<open>Trees\<close>

datatype jtree = JObject "(string \<times> jtree) list" | JArray "jtree list" | JString string | JNumber string
  | JTrue | JFalse | JNull

inductive represents :: "json_heap \<Rightarrow> nat \<Rightarrow> jtree \<Rightarrow> bool"
  and rep_fields :: "json_heap \<Rightarrow> nat option \<Rightarrow> (string \<times> jtree) list \<Rightarrow> bool"
  and rep_items :: "json_heap \<Rightarrow> nat option \<Rightarrow> jtree list \<Rightarrow> bool" for h where
  object: "gj_type (h a) = GRPC_JSON_OBJECT \<Longrightarrow> rep_fields h (gj_child (h a)) fs \<Longrightarrow> represents h a (JObject fs)"
| array: "gj_type (h a) = GRPC_JSON_ARRAY \<Longrightarrow> rep_items h (gj_child (h a)) ts \<Longrightarrow> represents h a (JArray ts)"
| string: "gj_type (h a) = GRPC_JSON_STRING \<Longrightarrow> gj_child (h a) = None \<Longrightarrow> gj_value (h a) = Some v \<Longrightarrow>
    represents h a (JString v)"
| number: "gj_type (h a) = GRPC_JSON_NUMBER \<Longrightarrow> gj_child (h a) = None \<Longrightarrow> gj_value (h a) = Some v \<Longrightarrow>
    represents h a (JNumber v)"
| "true": "gj_type (h a) = GRPC_JSON_TRUE \<Longrightarrow> gj_child (h a) = None \<Longrightarrow> represents h a JTrue"
| "false": "gj_type (h a) = GRPC_JSON_FALSE \<Longrightarrow> gj_child (h a) = None \<Longrightarrow> represents h a JFalse"
| null: "gj_type (h a) = GRPC_JSON_NULL \<Longrightarrow> gj_child (h a) = None \<Longrightarrow> represents h a JNull"
| no_field: "rep_fields h None []"
| field: "gj_key (h b) = Some k \<Longrightarrow> represents h b t \<Longrightarrow> rep_fields h (gj_next (h b)) fs \<Longrightarrow>
    rep_fields h (Some b) ((k, t) # fs)"
| no_item: "rep_items h None []"
| item: "gj_key (h b) = None \<Longrightarrow> represents h b t \<Longrightarrow> rep_items h (gj_next (h b)) ts \<Longrightarrow>
    rep_items h (Some b) (t # ts)"

inductive_simps represents_simps: "represents h a (JObject fs)" "represents h a (JArray ts)"
  "represents h a (JString v)" "represents h a (JNumber v)" "represents h a JTrue" "represents h a JFalse"
  "represents h a JNull"
inductive_simps rep_fields_simps: "rep_fields h cur []" "rep_fields h cur ((k, t) # fs)"
inductive_simps rep_items_simps: "rep_items h cur []" "rep_items h cur (t # ts)"

text \<open>Lookup of a key; an array with elements has no keys to compare with.\<close>

fun jtree_field :: "jtree \<Rightarrow> string \<Rightarrow> jtree option option" where
  "jtree_field (JObject fs) k = Some (map_of fs k)"
| "jtree_field (JArray (t # ts)) k = None"
| "jtree_field t k = Some None"

fun jtree_path :: "jtree \<Rightarrow> string list \<Rightarrow> jtree option option" where
  "jtree_path t [] = Some (Some t)"
| "jtree_path t (f # fs) =
     (case jtree_field t (c_str f) of
        None \<Rightarrow> None
      | Some None \<Rightarrow> Some None
      | Some (Some t) \<Rightarrow> jtree_path t fs)"

fun primitive :: "jtree \<Rightarrow> string option" where
  "primitive (JString v) = Some v"
| "primitive (JNumber v) = Some v"
| "primitive JTrue = Some ''true''"
| "primitive JFalse = Some ''false''"
| "primitive t = None"

text \<open>The fields a path names: its pieces between dots, less an empty last one.\<close>

definition path_fields :: "string \<Rightarrow> string list" where
  "path_fields path =
     (let ps = StrSplit (CHR ''.'') path in if last ps = [] then butlast ps else ps)"

lemma StrSplit_takeWhile:
  "StrSplit d s = takeWhile (\<lambda>x. x \<noteq> d) s #
     (if d \<in> set s then StrSplit d (drop 1 (dropWhile (\<lambda>x. x \<noteq> d) s)) else [])"
  by (induction s) (auto split: list.splits)

lemma Split_pieces:
  "Split s d elems = elems @ (let ps = StrSplit d s in if last ps = [] then butlast ps else ps)"
proof (induction s d elems rule: Split.induct)
  case (2 c s d elems)
  let ?s = "c # s" and ?r = "drop 1 (dropWhile (\<lambda>x. x \<noteq> d) (c # s))"
  show ?case
  proof (cases "d \<in> set ?s")
    case True
    then have "StrSplit d ?s = takeWhile (\<lambda>x. x \<noteq> d) ?s # StrSplit d ?r"
      using StrSplit_takeWhile [of d ?s] by simp
    with 2 show ?thesis by (simp add: Let_def del: StrSplit.simps)
  next
    case False
    then have p: "StrSplit d ?s = [?s]" by (rule StrSplit_no_sep)
    from False have "takeWhile (\<lambda>x. x \<noteq> d) ?s = ?s" "dropWhile (\<lambda>x. x \<noteq> d) ?s = []"
      by (auto simp: takeWhile_eq_all_conv dropWhile_eq_Nil_conv)
    then have "Split ?s d elems = Split (drop 1 []) d (elems @ [?s])" by (simp only: Split.simps)
    with p show ?thesis by (simp del: StrSplit.simps)
  qed
qed simp

lemma find_child_None: "find_child h key None = Some None"
  by (simp add: find_child.simps)

lemma find_child_fields:
  assumes "rep_fields h cur fs"
  shows "\<exists>r. find_child h k cur = Some r \<and>
    (case r of None \<Rightarrow> map_of fs k = None | Some a \<Rightarrow> \<exists>t. map_of fs k = Some t \<and> represents h a t)"
  using assms
proof (induction fs arbitrary: cur rule: list.induct)
  case Nil
  then show ?case by (simp add: rep_fields_simps find_child_None)
next
  case (Cons f fs)
  obtain k' t where f: "f = (k', t)" by fastforce
  with Cons.prems obtain b where b: "cur = Some b" "gj_key (h b) = Some k'" "represents h b t"
    "rep_fields h (gj_next (h b)) fs" by (auto simp: rep_fields_simps)
  show ?case
  proof (cases "k' = k")
    case True
    with b f show ?thesis by (simp add: find_child.simps [of h k "Some b"])
  next
    case False
    with f have "map_of (f # fs) k = map_of fs k" by simp
    with False Cons.IH [OF b(4)] b show ?thesis by (simp only: find_child.simps [of h k "Some b"] option.case if_False)
  qed
qed

lemma GetProperty_field:
  assumes "represents h a t"
  shows "case jtree_field t k of
     None \<Rightarrow> GetProperty h (Some a) (Some k) = None
   | Some None \<Rightarrow> GetProperty h (Some a) (Some k) = Some None
   | Some (Some t') \<Rightarrow> \<exists>b. GetProperty h (Some a) (Some k) = Some (Some b) \<and> represents h b t'"
proof (cases t)
  case (JObject fs)
  with assms find_child_fields [of h "gj_child (h a)" fs k] show ?thesis
    by (auto simp: represents_simps GetProperty_def split: option.splits)
next
  case (JArray ts)
  with assms show ?thesis
    by (cases ts) (auto simp: represents_simps GetProperty_def rep_items_simps find_child_None
        find_child.simps [of h k "Some _"])
qed (use assms in \<open>simp_all add: represents_simps GetProperty_def find_child_None\<close>)

lemma walk_None: "walk h fs None = Some None"
  by (induction fs) (simp_all add: GetProperty_def)

lemma walk_path:
  "represents h a t \<Longrightarrow>
   (case jtree_path t fs of
      None \<Rightarrow> walk h fs (Some a) = None
    | Some None \<Rightarrow> walk h fs (Some a) = Some None
    | Some (Some t') \<Rightarrow> \<exists>b. walk h fs (Some a) = Some (Some b) \<and> represents h b t')"
proof (induction fs arbitrary: a t rule: list.induct)
  case (Cons f fs)
  note p = GetProperty_field [OF Cons.prems, of "c_str f"]
  show ?case
  proof (cases "jtree_field t (c_str f)")
    case None
    with p show ?thesis by simp
  next
    case (Some r)
    show ?thesis
    proof (cases r)
      case None
      with Some p show ?thesis by (simp add: walk_None)
    next
      case (Some t')
      with \<open>jtree_field t (c_str f) = Some r\<close> p obtain b
        where "GetProperty h (Some a) (Some (c_str f)) = Some (Some b)" "represents h b t'" by auto
      with Cons.IH [OF this(2)] Some \<open>jtree_field t (c_str f) = Some r\<close> show ?thesis
        by (auto split: option.splits)
    qed
  qed
qed simp

lemma primitive_value_tree:
  "represents h b t \<Longrightarrow>
   primitive_value h b v = Some (case primitive t of Some w \<Rightarrow> (True, w) | None \<Rightarrow> (False, v))"
  by (cases t) (auto simp: represents_simps primitive_value_def)

text \<open>
  C40: a field read by its path is the one the path leads to in the parsed tree: strings and numbers
  as they are written, truth values by name, and failure without touching the result for anything
  else or if there is no such field. A null pointer is dereferenced exactly when the path asks for
  a field of an array that has elements.
\<close>

theorem GetPrimitiveFieldValue_path:
  assumes "parse (c_str json_str) = Some (h, root)" "represents h root t"
  shows "GetPrimitiveFieldValue parse json_str path v =
    map_option (\<lambda>r. case Option.bind r primitive of Some w \<Rightarrow> (True, w) | None \<Rightarrow> (False, v))
      (jtree_path t (path_fields path))"
proof -
  have split: "Split path kJwtPayloadsDelimeter [] = path_fields path"
    by (simp add: Split_pieces path_fields_def kJwtPayloadsDelimeter_def)
  show ?thesis
    using walk_path [OF assms(2), of "path_fields path"] assms(1)
    by (auto simp: GetPrimitiveFieldValue_def split primitive_value_tree split: option.splits)
qed

text \<open>A document for examples: \<open>{"a": {"b": 7}, "c": ["x"]}\<close>.\<close>

definition example_doc :: json_heap where
  "example_doc a = [
     zero_json\<lparr>gj_child := Some 1\<rparr>,
     zero_json\<lparr>gj_key := Some ''a'', gj_child := Some 2, gj_next := Some 3\<rparr>,
     zero_json\<lparr>gj_key := Some ''b'', gj_type := GRPC_JSON_NUMBER, gj_value := Some ''7''\<rparr>,
     zero_json\<lparr>gj_key := Some ''c'', gj_type := GRPC_JSON_ARRAY, gj_child := Some 4\<rparr>,
     zero_json\<lparr>gj_type := GRPC_JSON_STRING, gj_value := Some ''x''\<rparr>] ! a"

lemma example_doc_tree:
  "represents example_doc 0 (JObject [(''a'', JObject [(''b'', JNumber ''7'')]), (''c'', JArray [JString ''x''])])"
  by (auto intro!: represents_rep_fields_rep_items.intros simp: example_doc_def zero_json_def rep_fields_simps rep_items_simps)

theorem GetPrimitiveFieldValue_path_witness:
  "GetPrimitiveFieldValue (\<lambda>s. Some (example_doc, 0)) ''{...}'' ''a.b'' [] = Some (True, ''7'') \<and>
   GetPrimitiveFieldValue (\<lambda>s. Some (example_doc, 0)) ''{...}'' ''c.d'' [] = None"
proof -
  have p: "path_fields ''a.b'' = [''a'', ''b'']" "path_fields ''c.d'' = [''c'', ''d'']" by code_simp+
  show ?thesis
    using GetPrimitiveFieldValue_path [OF _ example_doc_tree, of "\<lambda>s. Some (example_doc, 0)" "''{...}''" "''a.b''" "[]"]
      GetPrimitiveFieldValue_path [OF _ example_doc_tree, of "\<lambda>s. Some (example_doc, 0)" "''{...}''" "''c.d''" "[]"]
    by (simp add: p c_str_def)
qed

end
