(* ===== verification/AuthToken.thy ===== *)
theory AuthToken
  imports JsonUtil TokenSubscriber
begin

text \<open>
  Tokens of a service account (\<open>api_proxy/auth/auth_token.cc\<close>): a JSON web token made from the
  account's key file. Keys with a client secret are signed here with HMAC-SHA256; all others are
  left to gRPC. The header and the claims are built as linked nodes on the stack, whose contents
  before are arbitrary: a parameter.

  gRPC's parser, printer, base64 and number printer, its key functions, and OpenSSL's HMAC are
  parameters. Base64 and the printer return allocated memory and never a null pointer.
\<close>

section \<open>Signing\<close>

record 'k auth_env =
  ae_parse :: "string \<Rightarrow> (json_heap \<times> nat) option"
  ae_dump :: "json_heap \<Rightarrow> nat \<Rightarrow> string"
  ae_ltoa :: "int \<Rightarrow> string"
  ae_base64_encode :: "string \<Rightarrow> string"
  ae_base64_decode :: "string \<Rightarrow> string"
  ae_HMAC :: "string \<Rightarrow> string \<Rightarrow> string"
  ae_json_key :: "string \<Rightarrow> 'k option"
  ae_encode_and_sign :: "'k \<Rightarrow> string \<Rightarrow> int \<Rightarrow> string option"

definition TOKEN_LIFETIME :: int where "TOKEN_LIFETIME = 3600"

definition DotConcat :: "string \<Rightarrow> string \<Rightarrow> string" where
  "DotConcat str1 str2 = str1 @ ''.'' @ str2"

text \<open>The nodes of the two functions are the addresses from 0, the top node.\<close>

definition jose_nodes :: "json_heap \<Rightarrow> string \<Rightarrow> json_heap" where
  "jose_nodes stack algorithm =
     (let h = stack(0 := zero_json\<lparr>gj_type := GRPC_JSON_OBJECT\<rparr>);
          h = FillChild 1 None 0 (Some ''alg'') (Some algorithm) GRPC_JSON_STRING h
      in FillChild 2 (Some 1) 0 (Some ''typ'') (Some ''JWT'') GRPC_JSON_STRING h)"

definition GenerateJoseHeader :: "'k auth_env \<Rightarrow> json_heap \<Rightarrow> string \<Rightarrow> string" where
  "GenerateJoseHeader env stack algorithm = ae_base64_encode env (ae_dump env (jose_nodes stack algorithm) 0)"

definition claim_nodes ::
    "(int \<Rightarrow> string) \<Rightarrow> json_heap \<Rightarrow> string \<Rightarrow> string \<Rightarrow> string \<Rightarrow> int \<Rightarrow> int \<Rightarrow> json_heap" where
  "claim_nodes ltoa stack issuer subject audience now token_lifetime =
     (let h = stack(0 := zero_json\<lparr>gj_type := GRPC_JSON_OBJECT\<rparr>);
          h = FillChild 1 None 0 (Some ''iss'') (Some issuer) GRPC_JSON_STRING h;
          h = FillChild 2 (Some 1) 0 (Some ''sub'') (Some subject) GRPC_JSON_STRING h;
          h = FillChild 3 (Some 2) 0 (Some ''aud'') (Some audience) GRPC_JSON_STRING h;
          h = FillChild 4 (Some 3) 0 (Some ''iat'') (Some (ltoa now)) GRPC_JSON_NUMBER h
      in FillChild 5 (Some 4) 0 (Some ''exp'') (Some (ltoa (now + token_lifetime))) GRPC_JSON_NUMBER h)"

definition GenerateJwtClaim ::
    "'k auth_env \<Rightarrow> json_heap \<Rightarrow> string \<Rightarrow> string \<Rightarrow> string \<Rightarrow> int \<Rightarrow> int \<Rightarrow> string" where
  "GenerateJwtClaim env stack issuer subject audience now token_lifetime =
     ae_base64_encode env
       (ae_dump env (claim_nodes (ae_ltoa env) stack issuer subject audience now token_lifetime) 0)"

definition GenerateSignatueHs256 :: "'k auth_env \<Rightarrow> string \<Rightarrow> string \<Rightarrow> string option" where
  "GenerateSignatueHs256 env data key =
     (let key_buffer = ae_base64_decode env key
      in if key_buffer = [] then None
         else
           (let res = ae_HMAC env key_buffer data
            in if res = [] then None else Some (ae_base64_encode env res)))"

text \<open>\<open>None\<close> is a dereferenced null pointer, \<open>Some None\<close> the null pointer that is returned.\<close>

definition GenerateTokenSymmetricKey ::
    "'k auth_env \<Rightarrow> json_heap \<Rightarrow> int \<Rightarrow> json_heap \<Rightarrow> nat option \<Rightarrow> string \<Rightarrow> string option option" where
  "GenerateTokenSymmetricKey env stack now h json audience =
     (case GetStringValue h json (Some ''issuer'') of
        None \<Rightarrow> None
      | Some None \<Rightarrow> Some None
      | Some (Some issuer) \<Rightarrow>
     (case GetStringValue h json (Some ''subject'') of
        None \<Rightarrow> None
      | Some None \<Rightarrow> Some None
      | Some (Some subject) \<Rightarrow>
          (let header = GenerateJoseHeader env stack ''HS256'';
               claims = GenerateJwtClaim env stack issuer subject audience now TOKEN_LIFETIME;
               signed_data = DotConcat header claims
           in case GetStringValue h json (Some ''client_secret'') of
                None \<Rightarrow> None
              | Some None \<Rightarrow> None
              | Some (Some secret) \<Rightarrow>
                  Some (map_option (DotConcat signed_data) (GenerateSignatueHs256 env signed_data secret)))))"

definition get_auth_token ::
    "'k auth_env \<Rightarrow> json_heap \<Rightarrow> int \<Rightarrow> string \<Rightarrow> string \<Rightarrow> string option option" where
  "get_auth_token env stack now json_secret audience =
     (let (h, json) = (case ae_parse env json_secret of
                         Some (h, json) \<Rightarrow> (h, Some json) | None \<Rightarrow> (\<lambda>_. zero_json, None))
      in case GetStringValue h json (Some ''client_secret'') of
           None \<Rightarrow> None
         | Some (Some _) \<Rightarrow> GenerateTokenSymmetricKey env stack now h json audience
         | Some None \<Rightarrow>
             Some (case ae_json_key env json_secret of
                     None \<Rightarrow> None
                   | Some json_key \<Rightarrow> ae_encode_and_sign env json_key audience TOKEN_LIFETIME))"

section \<open>The objects built\<close>

lemma jose_nodes_object:
  assumes "algorithm \<noteq> []"
  shows "represents (jose_nodes stack algorithm) 0 (JObject [(''alg'', JString algorithm), (''typ'', JString ''JWT'')])"
  using assms
  by (simp add: represents_simps rep_fields_simps jose_nodes_def FillChild_def isNullOrEmpty_def zero_json_def Let_def)

lemma claim_nodes_object:
  assumes "issuer \<noteq> []" "subject \<noteq> []" "audience \<noteq> []" "ltoa now \<noteq> []" "ltoa (now + lifetime) \<noteq> []"
  shows "represents (claim_nodes ltoa stack issuer subject audience now lifetime) 0
    (JObject [(''iss'', JString issuer), (''sub'', JString subject), (''aud'', JString audience),
       (''iat'', JNumber (ltoa now)), (''exp'', JNumber (ltoa (now + lifetime)))])"
  using assms
  by (simp add: represents_simps rep_fields_simps claim_nodes_def FillChild_def isNullOrEmpty_def zero_json_def Let_def)

text \<open>
  Without an audience the node for it is skipped, but the next node is linked behind it all the
  same: the claims then end before the times, and the token has no expiry.
\<close>

lemma claims_without_audience:
  assumes "issuer \<noteq> []" "subject \<noteq> []" "ltoa now \<noteq> []" "ltoa (now + lifetime) \<noteq> []"
  shows "represents (claim_nodes ltoa stack issuer subject [] now lifetime) 0
    (JObject [(''iss'', JString issuer), (''sub'', JString subject)])"
  using assms
  by (simp add: represents_simps rep_fields_simps claim_nodes_def FillChild_def isNullOrEmpty_def zero_json_def Let_def)

section \<open>The token\<close>

definition string_field :: "(string \<times> jtree) list \<Rightarrow> string \<Rightarrow> string option" where
  "string_field fs k = (case map_of fs k of Some (JString v) \<Rightarrow> Some v | _ \<Rightarrow> None)"

lemma GetStringValue_field:
  assumes "represents h a (JObject fs)"
  shows "GetStringValue h (Some a) (Some k) = Some (string_field fs k)"
  using GetProperty_field [OF assms, of k]
  by (auto simp: GetStringValue_def GetPropertyValue_def string_field_def represents_simps
      split: option.splits jtree.splits)

text \<open>gRPC's printer writes the tree that the nodes represent.\<close>

definition prints_trees :: "'k auth_env \<Rightarrow> (jtree \<Rightarrow> string) \<Rightarrow> bool" where
  "prints_trees env pr \<longleftrightarrow> (\<forall>h a fs. represents h a (JObject fs) \<longrightarrow> ae_dump env h a = pr (JObject fs))"

definition jwt_payload :: "'k auth_env \<Rightarrow> (jtree \<Rightarrow> string) \<Rightarrow> string \<Rightarrow> string \<Rightarrow> string \<Rightarrow> int \<Rightarrow> string" where
  "jwt_payload env pr issuer subject audience now =
     ae_base64_encode env (pr (JObject [(''alg'', JString ''HS256''), (''typ'', JString ''JWT'')])) @ ''.'' @
     ae_base64_encode env (pr (JObject [(''iss'', JString issuer), (''sub'', JString subject),
       (''aud'', JString audience), (''iat'', JNumber (ae_ltoa env now)),
       (''exp'', JNumber (ae_ltoa env (now + 3600)))]))"

lemma signed_data_payload:
  assumes "prints_trees env pr" "issuer \<noteq> []" "subject \<noteq> []" "audience \<noteq> []" "\<And>n. ae_ltoa env n \<noteq> []"
  shows "DotConcat (GenerateJoseHeader env stack ''HS256'')
    (GenerateJwtClaim env stack issuer subject audience now TOKEN_LIFETIME) =
    jwt_payload env pr issuer subject audience now"
  using assms jose_nodes_object [of "''HS256''" stack]
    claim_nodes_object [OF assms(2-4), of "ae_ltoa env" now TOKEN_LIFETIME stack]
  by (simp add: prints_trees_def GenerateJoseHeader_def GenerateJwtClaim_def DotConcat_def jwt_payload_def TOKEN_LIFETIME_def)

text \<open>
  C39: for a key file with client secret, issuer and subject, the token is the documented one,
  whatever the stack held before: the encoded header with the algorithm, the encoded claims with
  issuer, subject, audience, the time of issue and the expiry one hour later, in this order, and
  the encoded HMAC of the two under the decoded secret; there is no token exactly when the secret
  does not decode or the HMAC fails.
\<close>

theorem get_auth_token_symmetric:
  assumes "ae_parse env json_secret = Some (h, a)" "represents h a (JObject fs)"
    and "string_field fs ''client_secret'' = Some secret"
    and "string_field fs ''issuer'' = Some issuer" "string_field fs ''subject'' = Some subject"
    and "issuer \<noteq> []" "subject \<noteq> []" "audience \<noteq> []" "prints_trees env pr" "\<And>n. ae_ltoa env n \<noteq> []"
  shows "get_auth_token env stack now json_secret audience =
    Some (let payload = jwt_payload env pr issuer subject audience now;
              key = ae_base64_decode env secret;
              mac = ae_HMAC env key payload
          in if key = [] \<or> mac = [] then None else Some (payload @ ''.'' @ ae_base64_encode env mac))"
  using assms(1,3-5) signed_data_payload [OF assms(9,6-8,10), of stack now]
  by (simp add: get_auth_token_def GenerateTokenSymmetricKey_def GetStringValue_field [OF assms(2)]
      GenerateSignatueHs256_def DotConcat_def Let_def)

text \<open>
  An instance of the parameters for an example: a printer for objects whose members are strings
  and numbers.
\<close>

fun example_member :: "string \<times> jtree \<Rightarrow> string" where
  "example_member (k, JString v) = k @ ''='' @ v @ '';''"
| "example_member (k, JNumber v) = k @ ''='' @ v @ '';''"
| "example_member (k, _) = k @ ''=;''"

fun example_print :: "jtree \<Rightarrow> string" where
  "example_print (JObject fs) = concat (map example_member fs)"
| "example_print t = []"

partial_function (option) example_members :: "json_heap \<Rightarrow> nat option \<Rightarrow> string option" where
  "example_members h cur =
     (case cur of
        None \<Rightarrow> Some []
      | Some a \<Rightarrow> Option.bind (example_members h (gj_next (h a))) (\<lambda>rest. Some (the (gj_key (h a)) @ ''='' @
          (if gj_type (h a) \<in> {GRPC_JSON_STRING, GRPC_JSON_NUMBER} then the (gj_value (h a)) else []) @ '';'' @ rest)))"

lemma example_members_fields: "rep_fields h cur fs \<Longrightarrow> example_members h cur = Some (concat (map example_member fs))"
proof (induction fs arbitrary: cur rule: list.induct)
  case Nil
  then show ?case by (simp add: rep_fields_simps example_members.simps)
next
  case (Cons f fs)
  obtain k t where f: "f = (k, t)" by fastforce
  with Cons show ?case
    by (cases t) (auto simp: rep_fields_simps represents_simps example_members.simps [of h "Some _"])
qed

definition example_key :: json_heap where
  "example_key a = [
     zero_json\<lparr>gj_child := Some 1\<rparr>,
     zero_json\<lparr>gj_key := Some ''client_secret'', gj_type := GRPC_JSON_STRING, gj_value := Some ''k'', gj_next := Some 2\<rparr>,
     zero_json\<lparr>gj_key := Some ''issuer'', gj_type := GRPC_JSON_STRING, gj_value := Some ''i'', gj_next := Some 3\<rparr>,
     zero_json\<lparr>gj_key := Some ''subject'', gj_type := GRPC_JSON_STRING, gj_value := Some ''s''\<rparr>] ! a"

definition example_fields :: "(string \<times> jtree) list" where
  "example_fields = [(''client_secret'', JString ''k''), (''issuer'', JString ''i''), (''subject'', JString ''s'')]"

lemma example_key_tree: "represents example_key 0 (JObject example_fields)"
  by (simp add: example_fields_def represents_simps rep_fields_simps example_key_def zero_json_def)

definition example_auth_env :: "unit auth_env" where
  "example_auth_env =
     \<lparr>ae_parse = (\<lambda>s. Some (example_key, 0)), ae_dump = (\<lambda>h a. the (example_members h (gj_child (h a)))),
      ae_ltoa = (\<lambda>n. if n = 5 then ''5'' else ''3605''), ae_base64_encode = id, ae_base64_decode = id,
      ae_HMAC = (\<lambda>k d. ''mac''), ae_json_key = (\<lambda>s. None), ae_encode_and_sign = (\<lambda>k a t. None)\<rparr>"

lemma example_prints: "prints_trees example_auth_env example_print"
  by (auto simp: prints_trees_def example_auth_env_def represents_simps dest: example_members_fields)

theorem get_auth_token_symmetric_witness:
  "get_auth_token example_auth_env (\<lambda>_. zero_json\<lparr>gj_next := Some 9\<rparr>) 5 ''key'' ''aud'' =
     Some (Some ''alg=HS256;typ=JWT;.iss=i;sub=s;aud=aud;iat=5;exp=3605;.mac'')"
proof -
  have e: "ae_parse example_auth_env ''key'' = Some (example_key, 0)" "\<And>n. ae_ltoa example_auth_env n \<noteq> []"
    by (simp_all add: example_auth_env_def)
  have f: "string_field example_fields ''client_secret'' = Some ''k''"
    "string_field example_fields ''issuer'' = Some ''i''" "string_field example_fields ''subject'' = Some ''s''"
    by (simp_all add: string_field_def example_fields_def)
  show ?thesis
    using get_auth_token_symmetric [OF e(1) example_key_tree f _ _ _ example_prints e(2),
        of "''aud''" "\<lambda>_. zero_json\<lparr>gj_next := Some 9\<rparr>" 5]
    by (simp add: jwt_payload_def example_auth_env_def Let_def)
qed

end
