(* ===== verification/ServiceControlConfig.thy ===== *)
theory ServiceControlConfig
  imports LogsMetricsLoader BackendAuth "HOL-Library.Word"
begin

text \<open>
  The configuration of the Service Control filter (\<open>envoy/http/service_control/config_parser.cc\<close>
  and \<open>.h\<close>): its messages, the context of each service and of each operation, and the
  constructor of the parser with its exceptions.

  A configuration is accepted exactly when it names at least one service, all services and all
  operations once, and for every operation a service it names.
\<close>

section \<open>Messages\<close>

datatype ApiKeyLocation = QueryKey string | HeaderKey string | CookieKey string | KEY_NOT_SET

record ApiKeyRequirement =
  akr_locations :: "ApiKeyLocation list"
  akr_allow_without_api_key :: bool

record MetricCost =
  mc_name :: string
  mc_cost :: int

record Requirement =
  rq_service_name :: string
  rq_operation_name :: string
  rq_api_key :: ApiKeyRequirement
  rq_api_name :: string
  rq_api_version :: string
  rq_skip_service_control :: bool
  rq_metric_costs :: "MetricCost list"

text \<open>\<open>service_config\<close> is absent, cannot be unpacked, or is a service configuration.\<close>

record ScService =
  sv_service_name :: string
  sv_service_config_id :: string
  sv_producer_project_id :: string
  sv_service_config :: "Service option option"
  sv_backend_protocol :: string
  sv_log_request_headers :: "string list"
  sv_log_response_headers :: "string list"
  sv_min_stream_report_interval_ms :: "64 word"
  sv_log_jwt_payloads :: "string list"
  sv_jwt_payload_metadata_name :: string

record GcpAttributes =
  gcp_zone :: string
  gcp_platform :: string

record ServiceControlCallingConfig =
  cc_network_fail_open :: "bool option"
  cc_check_timeout_ms :: "32 word option"
  cc_quota_timeout_ms :: "32 word option"
  cc_report_timeout_ms :: "32 word option"
  cc_check_retries :: "32 word option"
  cc_quota_retries :: "32 word option"
  cc_report_retries :: "32 word option"

text \<open>URI and cluster; the inline key; URI, cluster, source of the access token and delegates.\<close>

datatype sc_access_token =
    ScImdsToken string string
  | ScServiceAccountSecret string
  | ScIamToken string string access_token_source "string list"
  | ScNoAccessToken

record ScFilterConfig =
  sf_services :: "ScService list"
  sf_requirements :: "Requirement list"
  sf_gcp_attributes :: "GcpAttributes option"
  sf_access_token :: sc_access_token
  sf_sc_calling_config :: "ServiceControlCallingConfig option"
  sf_service_control_uri :: string
  sf_service_control_cluster :: string

section \<open>Contexts\<close>

definition kDefaultMinStreamReportIntervalMs :: int where
  "kDefaultMinStreamReportIntervalMs = 10000"

record ServiceContext =
  sc_config :: ScService
  sc_min_stream_report_interval_ms :: int

text \<open>The unsigned interval of the configuration is stored as a signed number.\<close>

definition new_ServiceContext :: "ScService \<Rightarrow> ServiceContext" where
  "new_ServiceContext config =
     (let interval = sint (sv_min_stream_report_interval_ms config)
      in \<lparr>sc_config = config,
          sc_min_stream_report_interval_ms = (if interval = 0 then kDefaultMinStreamReportIntervalMs else interval)\<rparr>)"

record RequirementContext =
  rc_config :: Requirement
  rc_service_ctx :: ServiceContext
  rc_metric_costs :: "(string \<times> int) list"

text \<open>The costs are 64 bits wide in the configuration and \<open>int\<close> in the context.\<close>

definition new_RequirementContext :: "Requirement \<Rightarrow> ServiceContext \<Rightarrow> RequirementContext" where
  "new_RequirementContext config service_ctx =
     \<lparr>rc_config = config, rc_service_ctx = service_ctx,
      rc_metric_costs = map (\<lambda>mc. (mc_name mc, signed_take_bit 31 (mc_cost mc))) (rq_metric_costs config)\<rparr>"

section \<open>The parser\<close>

record ScConfigParser =
  scp_config :: ScFilterConfig
  scp_requirements_map :: "(string \<times> RequirementContext) list"
  scp_non_match_rqm_ctx :: RequirementContext
  scp_service_map :: "(string \<times> ServiceContext) list"
  scp_default_api_keys :: ApiKeyRequirement

datatype sc_config_error = Empty_services | Duplicated_service_names | Invalid_service_name Requirement
  | Duplicated_operation_names

definition kUnrecognizedOperation :: string where
  "kUnrecognizedOperation = ''<Unknown Operation Name>''"

fun parse_services :: "ScService list \<Rightarrow> (string \<times> ServiceContext) list \<Rightarrow> (string \<times> ServiceContext) list" where
  "parse_services [] service_map = service_map"
| "parse_services (service # services) service_map =
     parse_services services
       (fst (map_insert (sv_service_name service) (new_ServiceContext service) service_map))"

fun parse_requirements ::
    "Requirement list \<Rightarrow> (string \<times> ServiceContext) list \<Rightarrow> (string \<times> RequirementContext) list
     \<Rightarrow> sc_config_error + (string \<times> RequirementContext) list" where
  "parse_requirements [] service_map requirements_map = Inr requirements_map"
| "parse_requirements (requirement # requirements) service_map requirements_map =
     (case map_of service_map (rq_service_name requirement) of
        None \<Rightarrow> Inl (Invalid_service_name requirement)
      | Some service_ctx \<Rightarrow>
          parse_requirements requirements service_map
            (fst (map_insert (rq_operation_name requirement)
               (new_RequirementContext requirement service_ctx) requirements_map)))"

definition new_Requirement :: Requirement where
  "new_Requirement =
     \<lparr>rq_service_name = [], rq_operation_name = [],
      rq_api_key = \<lparr>akr_locations = [], akr_allow_without_api_key = False\<rparr>,
      rq_api_name = [], rq_api_version = [], rq_skip_service_control = False, rq_metric_costs = []\<rparr>"

definition ScConfigParser_new :: "ScFilterConfig \<Rightarrow> sc_config_error + ScConfigParser" where
  "ScConfigParser_new config =
     (let service_map = parse_services (sf_services config) []
      in case sf_services config of
           [] \<Rightarrow> Inl Empty_services
         | first_service # _ \<Rightarrow>
             if length service_map < length (sf_services config) then Inl Duplicated_service_names
             else
               (case parse_requirements (sf_requirements config) service_map [] of
                  Inl e \<Rightarrow> Inl e
                | Inr requirements_map \<Rightarrow>
                    if length requirements_map < length (sf_requirements config)
                    then Inl Duplicated_operation_names
                    else
                      Inr \<lparr>scp_config = config, scp_requirements_map = requirements_map,
                           scp_non_match_rqm_ctx =
                             new_RequirementContext
                               (new_Requirement\<lparr>rq_service_name := sv_service_name first_service,
                                                rq_operation_name := kUnrecognizedOperation\<rparr>)
                               (new_ServiceContext first_service),
                           scp_service_map = service_map,
                           scp_default_api_keys =
                             \<lparr>akr_locations = [QueryKey ''key'', QueryKey ''api_key'', HeaderKey ''x-api-key''],
                              akr_allow_without_api_key = False\<rparr>\<rparr>))"

definition FindRequirement :: "ScConfigParser \<Rightarrow> string \<Rightarrow> RequirementContext option" where
  "FindRequirement p operation = map_of (scp_requirements_map p) operation"

section \<open>Accepted configurations\<close>

text \<open>
  A map filled by \<open>emplace\<close> has as many entries as were given exactly when all keys are
  different, and then it is the list of what was given.
\<close>

fun emplace_all :: "('k \<times> 'v) list \<Rightarrow> ('k \<times> 'v) list \<Rightarrow> ('k \<times> 'v) list" where
  "emplace_all [] m = m"
| "emplace_all ((k, v) # kvs) m = emplace_all kvs (fst (map_insert k v m))"

lemma length_emplace_all: "length (emplace_all kvs m) \<le> length m + length kvs"
proof (induction kvs m rule: emplace_all.induct)
  case (2 k v kvs m)
  have "length (fst (map_insert k v m)) \<le> Suc (length m)"
    by (simp add: map_insert_def split: option.splits)
  with 2 show ?case by simp
qed simp

lemma emplace_all_full:
  "length m + length kvs \<le> length (emplace_all kvs m) \<longleftrightarrow>
     distinct (map fst kvs) \<and> fst ` set kvs \<inter> fst ` set m = {}"
proof (induction kvs m rule: emplace_all.induct)
  case (2 k v kvs m)
  show ?case
  proof (cases "map_of m k")
    case None
    then have m: "fst (map_insert k v m) = m @ [(k, v)]" "k \<notin> fst ` set m"
      by (simp_all add: map_insert_def, simp add: map_of_eq_None_iff)
    with 2 [unfolded m] show ?thesis by auto
  next
    case (Some w)
    then have "k \<in> fst ` set m" by (metis map_of_eq_None_iff option.distinct(1))
    with Some length_emplace_all [of kvs m] show ?thesis by (auto simp: map_insert_def)
  qed
qed simp

lemma emplace_all_distinct:
  "distinct (map fst kvs) \<Longrightarrow> fst ` set kvs \<inter> fst ` set m = {} \<Longrightarrow> emplace_all kvs m = m @ kvs"
proof (induction kvs m rule: emplace_all.induct)
  case (2 k v kvs m)
  then have "map_of m k = None" by (simp add: map_of_eq_None_iff)
  with 2 show ?case by (simp add: map_insert_def)
qed simp

lemma parse_services_emplace:
  "parse_services ss m = emplace_all (map (\<lambda>s. (sv_service_name s, new_ServiceContext s)) ss) m"
  by (induction ss arbitrary: m) simp_all

definition service_of :: "ScFilterConfig \<Rightarrow> Requirement \<Rightarrow> ServiceContext option" where
  "service_of config r =
     map_option new_ServiceContext (find (\<lambda>s. sv_service_name s = rq_service_name r) (sf_services config))"

lemma parse_requirements_emplace:
  "parse_requirements rs sm m =
     (case find (\<lambda>r. map_of sm (rq_service_name r) = None) rs of
        Some r \<Rightarrow> Inl (Invalid_service_name r)
      | None \<Rightarrow> Inr (emplace_all (map (\<lambda>r. (rq_operation_name r,
          new_RequirementContext r (the (map_of sm (rq_service_name r))))) rs) m))"
  by (induction rs arbitrary: m) (auto split: option.splits)

lemma map_of_map_find: "map_of (map (\<lambda>x. (f x, g x)) xs) k = map_option g (find (\<lambda>x. f x = k) xs)"
  by (induction xs) auto

definition sc_config_ok :: "ScFilterConfig \<Rightarrow> bool" where
  "sc_config_ok config \<longleftrightarrow>
     sf_services config \<noteq> [] \<and> distinct (map sv_service_name (sf_services config)) \<and>
     distinct (map rq_operation_name (sf_requirements config)) \<and>
     list_all (\<lambda>r. rq_service_name r \<in> sv_service_name ` set (sf_services config)) (sf_requirements config)"

lemma ScConfigParser_new_services:
  assumes "sf_services config \<noteq> []" "distinct (map sv_service_name (sf_services config))"
  shows "parse_services (sf_services config) [] =
    map (\<lambda>s. (sv_service_name s, new_ServiceContext s)) (sf_services config)"
  using assms(2) by (simp add: parse_services_emplace emplace_all_distinct comp_def)

lemma ScConfigParser_new_ok:
  "(\<exists>p. ScConfigParser_new config = Inr p) \<longleftrightarrow> sc_config_ok config"
proof (cases "sf_services config \<noteq> [] \<and> distinct (map sv_service_name (sf_services config))")
  case False
  show ?thesis
  proof (cases "sf_services config")
    case Nil
    then show ?thesis by (simp add: ScConfigParser_new_def sc_config_ok_def Let_def)
  next
    case (Cons service services)
    with False have "length (parse_services (sf_services config) []) < length (sf_services config)"
      using emplace_all_full [of "[]" "map (\<lambda>s. (sv_service_name s, new_ServiceContext s)) (sf_services config)"]
      by (simp add: parse_services_emplace comp_def not_le [symmetric] del: emplace_all.simps list.map)
    with False Cons show ?thesis by (auto simp: ScConfigParser_new_def sc_config_ok_def Let_def)
  qed
next
  case True
  note sm = ScConfigParser_new_services [OF conjunct1 conjunct2, OF True True]
  let ?sm = "map (\<lambda>s. (sv_service_name s, new_ServiceContext s)) (sf_services config)"
  let ?rs = "sf_requirements config"
  let ?kvs = "map (\<lambda>r. (rq_operation_name r, new_RequirementContext r (the (map_of ?sm (rq_service_name r))))) ?rs"
  have known: "find (\<lambda>r. map_of ?sm (rq_service_name r) = None) ?rs = None \<longleftrightarrow>
      list_all (\<lambda>r. rq_service_name r \<in> sv_service_name ` set (sf_services config)) ?rs"
    by (auto simp: find_None_iff list_all_iff map_of_eq_None_iff comp_def image_image)
  have full: "\<not> length (emplace_all ?kvs []) < length ?rs \<longleftrightarrow> distinct (map rq_operation_name ?rs)"
    using emplace_all_full [of "[]" ?kvs] by (simp add: comp_def not_less)
  show ?thesis
    using True known full
    by (auto simp: ScConfigParser_new_def sc_config_ok_def sm parse_requirements_emplace neq_Nil_conv Let_def
        split: option.splits)
qed

lemma ScConfigParser_new_maps:
  assumes "ScConfigParser_new config = Inr p"
  shows "FindRequirement p op =
      map_option (\<lambda>r. new_RequirementContext r (the (service_of config r)))
        (find (\<lambda>r. rq_operation_name r = op) (sf_requirements config))"
    and "scp_default_api_keys p = \<lparr>akr_locations = [QueryKey ''key'', QueryKey ''api_key'', HeaderKey ''x-api-key''],
           akr_allow_without_api_key = False\<rparr>"
    and "\<not> rq_skip_service_control (rc_config (scp_non_match_rqm_ctx p))"
    and "scp_config p = config"
    and "rq_operation_name (rc_config (scp_non_match_rqm_ctx p)) = kUnrecognizedOperation"
proof -
  have "sc_config_ok config" using ScConfigParser_new_ok assms by blast
  then have ok: "sf_services config \<noteq> []" "distinct (map sv_service_name (sf_services config))"
    "distinct (map rq_operation_name (sf_requirements config))" by (simp_all add: sc_config_ok_def)
  let ?sm = "map (\<lambda>s. (sv_service_name s, new_ServiceContext s)) (sf_services config)"
  note sm = ScConfigParser_new_services [OF ok(1,2)]
  from assms ok(1) have "parse_requirements (sf_requirements config) ?sm [] = Inr (scp_requirements_map p)"
    by (auto simp: ScConfigParser_new_def sm Let_def neq_Nil_conv split: list.splits sum.splits if_splits)
  then have "scp_requirements_map p =
      map (\<lambda>r. (rq_operation_name r, new_RequirementContext r (the (service_of config r)))) (sf_requirements config)"
    using ok(3) by (auto simp: parse_requirements_emplace emplace_all_distinct comp_def map_of_map_find service_of_def
        split: option.splits)
  then show "FindRequirement p op =
      map_option (\<lambda>r. new_RequirementContext r (the (service_of config r)))
        (find (\<lambda>r. rq_operation_name r = op) (sf_requirements config))"
    by (simp add: FindRequirement_def map_of_map_find)
  show "scp_default_api_keys p = \<lparr>akr_locations = [QueryKey ''key'', QueryKey ''api_key'', HeaderKey ''x-api-key''],
      akr_allow_without_api_key = False\<rparr>"
    "\<not> rq_skip_service_control (rc_config (scp_non_match_rqm_ctx p))" "scp_config p = config"
    "rq_operation_name (rc_config (scp_non_match_rqm_ctx p)) = kUnrecognizedOperation"
    using assms by (auto simp: ScConfigParser_new_def Let_def new_RequirementContext_def new_Requirement_def
        split: list.splits sum.splits if_splits)
qed

text \<open>The context of a requirement is that of the service it names.\<close>

lemma found_service:
  assumes "ScConfigParser_new config = Inr p" "FindRequirement p op = Some rc"
  obtains service where "service \<in> set (sf_services config)" "rc_service_ctx rc = new_ServiceContext service"
    "sv_service_name service = rq_service_name (rc_config rc)"
proof -
  obtain r where r: "find (\<lambda>r. rq_operation_name r = op) (sf_requirements config) = Some r"
    "rc = new_RequirementContext r (the (service_of config r))"
    using assms(2) ScConfigParser_new_maps(1) [OF assms(1), of op] by auto
  have "sc_config_ok config" using assms(1) ScConfigParser_new_ok by blast
  moreover have "r \<in> set (sf_requirements config)" using r(1) by (auto simp: find_Some_iff)
  ultimately have "rq_service_name r \<in> sv_service_name ` set (sf_services config)"
    by (auto simp: sc_config_ok_def list_all_iff)
  then have "find (\<lambda>s. sv_service_name s = rq_service_name r) (sf_services config) \<noteq> None"
    by (auto simp: find_None_iff)
  then obtain service where "find (\<lambda>s. sv_service_name s = rq_service_name r) (sf_services config) = Some service"
    by blast
  moreover from this have "service \<in> set (sf_services config)" "sv_service_name service = rq_service_name r"
    by (auto simp: find_Some_iff)
  ultimately show thesis
    using r(2) that [of service] by (simp add: service_of_def new_RequirementContext_def)
qed

text \<open>
  A cost that does not fit an \<open>int\<close> is not the configured one in the context.
\<close>

lemma metric_cost_narrowed:
  "rc_metric_costs (new_RequirementContext
     (new_Requirement\<lparr>rq_metric_costs := [\<lparr>mc_name = ''m'', mc_cost = 2 ^ 32 + 1\<rparr>]\<rparr>) ctx) = [(''m'', 1)]"
  by (simp add: new_RequirementContext_def)

end
