(* ===== verification/HandlerUtils.thy ===== *)
theory HandlerUtils
  imports ServiceControlConfig
begin

text \<open>
  The helpers of the Service Control handler (\<open>envoy/http/service_control/handler_utils.cc\<close>):
  where the API key of a request is, and how a report is filled from the request, the response and
  what Envoy knows of the stream.

  \<open>StreamInfo\<close> has the values that Envoy's \<open>StreamInfo\<close> returns for the stream, times in
  nanoseconds. Envoy's own functions are the argument \<open>env\<close>: the parsers of query strings and
  cookies, the size of a header map, the test for a gRPC content type, the HTTP code of a gRPC
  status and the text of a status; so are two things C++
  leaves open: the conversion to \<open>long\<close> of a double that does not fit, and the value of a
  protocol that was never set.
\<close>

section \<open>What Envoy provides\<close>

record handler_env =
  parseQueryString :: "string \<Rightarrow> (string \<times> string) list"
  parseCookieValue :: "headers \<Rightarrow> string \<Rightarrow> string"
  byteSize :: "headers \<Rightarrow> int"
  hasGrpcContentType :: "headers \<Rightarrow> bool"
  double_to_long :: "json_number \<Rightarrow> int"
  indeterminate_protocol :: Protocol
  grpcToHttpStatus :: "Code \<Rightarrow> nat"
  Status_ToString :: "Status \<Rightarrow> string"

record StreamInfo =
  si_requestComplete :: "int option"
  si_firstUpstreamTxByteSent :: "int option"
  si_lastUpstreamRxByteReceived :: "int option"
  si_has_protocol :: bool
  si_responseCode :: "int option"
  si_bytesReceived :: int
  si_bytesSent :: int
  si_grpc_stats :: "(int \<times> int) option"
  si_startTime :: int
  si_client_ip :: string
  si_jwt_metadata :: "string list \<Rightarrow> pvalue option"

definition to_lower :: "char \<Rightarrow> char" where
  "to_lower c =
     (let n = of_char c :: nat in if 65 \<le> n \<and> n \<le> 90 then char_of (n + 32) else c)"

definition LowerCaseString :: "string \<Rightarrow> string" where
  "LowerCaseString s = map to_lower s"

definition kJwtPayLoadsDelimeter :: char where "kJwtPayLoadsDelimeter = CHR ''.''"
definition kContentTypeApplicationGrpcPrefix :: string where
  "kContentTypeApplicationGrpcPrefix = ''application/grpc''"
definition kContentTypeHeader :: string where "kContentTypeHeader = ''content-type''"

section \<open>API keys\<close>

text \<open>The parameters of the query are parsed at most once: \<open>None\<close> before that.\<close>

type_synonym query_params = "(string \<times> string) list option"

definition extractAPIKeyFromQuery ::
    "handler_env \<Rightarrow> headers \<Rightarrow> string \<Rightarrow> query_params \<Rightarrow> string \<Rightarrow> bool \<times> query_params \<times> string" where
  "extractAPIKeyFromQuery env hs query parsed_params key =
     (case parsed_params of
        None \<Rightarrow>
          (case header_get kPath hs of
             None \<Rightarrow> (False, None, key)
           | Some path \<Rightarrow>
               (let params = parseQueryString env path
                in case map_of params query of
                     Some v \<Rightarrow> (True, Some params, v)
                   | None \<Rightarrow> (False, Some params, key)))
      | Some params \<Rightarrow>
          (case map_of params query of
             Some v \<Rightarrow> (True, Some params, v)
           | None \<Rightarrow> (False, Some params, key)))"

definition extractAPIKeyFromHeader :: "headers \<Rightarrow> string \<Rightarrow> string \<Rightarrow> bool \<times> string" where
  "extractAPIKeyFromHeader hs header key =
     (case header_get (LowerCaseString header) hs of Some v \<Rightarrow> (True, v) | None \<Rightarrow> (False, key))"

definition extractAPIKeyFromCookie :: "handler_env \<Rightarrow> headers \<Rightarrow> string \<Rightarrow> string \<Rightarrow> bool \<times> string" where
  "extractAPIKeyFromCookie env hs cookie key =
     (let parsed_api_key = parseCookieValue env hs cookie
      in if parsed_api_key \<noteq> [] then (True, parsed_api_key) else (False, key))"

fun extractAPIKey_loop ::
    "handler_env \<Rightarrow> headers \<Rightarrow> ApiKeyLocation list \<Rightarrow> query_params \<Rightarrow> string \<Rightarrow> bool \<times> string" where
  "extractAPIKey_loop env hs [] params key = (False, key)"
| "extractAPIKey_loop env hs (QueryKey q # locations) params key =
     (case extractAPIKeyFromQuery env hs q params key of
        (found, params, key) \<Rightarrow>
          if found then (True, key) else extractAPIKey_loop env hs locations params key)"
| "extractAPIKey_loop env hs (HeaderKey h # locations) params key =
     (case extractAPIKeyFromHeader hs h key of
        (found, key) \<Rightarrow>
          if found then (True, key) else extractAPIKey_loop env hs locations params key)"
| "extractAPIKey_loop env hs (CookieKey c # locations) params key =
     (case extractAPIKeyFromCookie env hs c key of
        (found, key) \<Rightarrow>
          if found then (True, key) else extractAPIKey_loop env hs locations params key)"
| "extractAPIKey_loop env hs (KEY_NOT_SET # locations) params key =
     extractAPIKey_loop env hs locations params key"

definition extractAPIKey :: "handler_env \<Rightarrow> headers \<Rightarrow> ApiKeyLocation list \<Rightarrow> string \<Rightarrow> bool \<times> string" where
  "extractAPIKey env hs locations key = extractAPIKey_loop env hs locations None key"

section \<open>Filling a report\<close>

definition fillGCPInfo :: "ScFilterConfig \<Rightarrow> ReportRequestInfo \<Rightarrow> ReportRequestInfo" where
  "fillGCPInfo filter_config info =
     (case sf_gcp_attributes filter_config of
        None \<Rightarrow> info
      | Some gcp \<Rightarrow>
          (let info = (if gcp_zone gcp \<noteq> [] then info\<lparr>location := gcp_zone gcp\<rparr> else info)
           in if gcp_platform gcp \<noteq> [] then info\<lparr>compute_platform := gcp_platform gcp\<rparr> else info))"

fun fillLoggedHeader_loop :: "headers \<Rightarrow> string list \<Rightarrow> string \<Rightarrow> string" where
  "fillLoggedHeader_loop hs [] field = field"
| "fillLoggedHeader_loop hs (log_header # log_headers) field =
     fillLoggedHeader_loop hs log_headers
       (case header_get (LowerCaseString log_header) hs of
          Some v \<Rightarrow> field @ log_header @ ''='' @ v @ '';''
        | None \<Rightarrow> field)"

definition fillLoggedHeader :: "headers option \<Rightarrow> string list \<Rightarrow> string \<Rightarrow> string" where
  "fillLoggedHeader hs log_headers field =
     (case hs of None \<Rightarrow> field | Some hs \<Rightarrow> fillLoggedHeader_loop hs log_headers field)"

definition convertNsToMs :: "int \<Rightarrow> int" where
  "convertNsToMs ns = ns sdiv 1000000"

definition fillLatency :: "StreamInfo \<Rightarrow> LatencyInfo \<Rightarrow> LatencyInfo" where
  "fillLatency si lat =
     (let lat = (case si_requestComplete si of
                       Some t \<Rightarrow> lat\<lparr>li_request_time_ms := convertNsToMs t\<rparr> | None \<Rightarrow> lat);
          lat = (case (si_firstUpstreamTxByteSent si, si_lastUpstreamRxByteReceived si) of
                       (Some start, Some stop) \<Rightarrow>
                         if stop \<ge> start then lat\<lparr>li_backend_time_ms := convertNsToMs (stop - start)\<rparr>
                         else lat\<lparr>li_backend_time_ms := 0\<rparr>
                     | _ \<Rightarrow> lat\<lparr>li_backend_time_ms := 0\<rparr>)
      in if li_request_time_ms lat \<ge> li_backend_time_ms lat
         then lat\<lparr>li_overhead_time_ms := li_request_time_ms lat - li_backend_time_ms lat\<rparr>
         else lat)"

definition isGrpcRequest :: "string \<Rightarrow> bool" where
  "isGrpcRequest content_type \<longleftrightarrow>
     take (length kContentTypeApplicationGrpcPrefix) content_type = kContentTypeApplicationGrpcPrefix"

definition getFrontendProtocol :: "headers option \<Rightarrow> StreamInfo \<Rightarrow> Protocol" where
  "getFrontendProtocol response_hs si =
     (if (case response_hs of None \<Rightarrow> False
          | Some hs \<Rightarrow> isGrpcRequest (extractHeader hs kContentTypeHeader)) then GRPC
      else if \<not> si_has_protocol si then UNKNOWN_PROTOCOL
      else HTTP)"

definition getBackendProtocol :: "ScService \<Rightarrow> Protocol" where
  "getBackendProtocol service =
     (let protocol = sv_backend_protocol service
      in if protocol = ''http1'' \<or> protocol = ''http2'' then HTTP
         else if protocol = ''grpc'' then GRPC
         else UNKNOWN_PROTOCOL)"

definition extractJwtPayload :: "handler_env \<Rightarrow> pvalue \<Rightarrow> string \<Rightarrow> string \<Rightarrow> string" where
  "extractJwtPayload env v jwt_payload_path info_jwt_payloads =
     (case v of
        NullValue \<Rightarrow> info_jwt_payloads @ jwt_payload_path @ ''=;''
      | NumberValue x \<Rightarrow> info_jwt_payloads @ jwt_payload_path @ ''='' @ to_string (double_to_long env x) @ '';''
      | BoolValue b \<Rightarrow> info_jwt_payloads @ jwt_payload_path @ ''='' @ (if b then ''true'' else ''false'') @ '';''
      | StringValue s \<Rightarrow> info_jwt_payloads @ jwt_payload_path @ ''='' @ s @ '';''
      | _ \<Rightarrow> info_jwt_payloads)"

fun fillJwtPayloads ::
    "handler_env \<Rightarrow> (string list \<Rightarrow> pvalue option) \<Rightarrow> string \<Rightarrow> string list \<Rightarrow> string \<Rightarrow> string" where
  "fillJwtPayloads env metadata metadata_name [] payloads = payloads"
| "fillJwtPayloads env metadata metadata_name (path # paths) payloads =
     fillJwtPayloads env metadata metadata_name paths
       (case metadata (metadata_name # StrSplit kJwtPayLoadsDelimeter path) of
          Some v \<Rightarrow> extractJwtPayload env v path payloads
        | None \<Rightarrow> payloads)"

definition string_value :: "pvalue \<Rightarrow> string" where
  "string_value v = (case v of StringValue s \<Rightarrow> s | _ \<Rightarrow> [])"

definition fillJwtPayload ::
    "(string list \<Rightarrow> pvalue option) \<Rightarrow> string \<Rightarrow> string \<Rightarrow> string \<Rightarrow> string" where
  "fillJwtPayload metadata metadata_name path info_iss_or_aud =
     (case metadata [metadata_name, path] of
        Some v \<Rightarrow> info_iss_or_aud @ string_value v
      | None \<Rightarrow> info_iss_or_aud)"

section \<open>Properties\<close>

text \<open>The reference: the key at one place, and the first place that has one.\<close>

fun key_at :: "handler_env \<Rightarrow> headers \<Rightarrow> ApiKeyLocation \<Rightarrow> string option" where
  "key_at env hs (QueryKey q) =
     (case header_get kPath hs of None \<Rightarrow> None | Some path \<Rightarrow> map_of (parseQueryString env path) q)"
| "key_at env hs (HeaderKey h) = header_get (LowerCaseString h) hs"
| "key_at env hs (CookieKey c) = (let v = parseCookieValue env hs c in if v = [] then None else Some v)"
| "key_at env hs KEY_NOT_SET = None"

definition query_cache_ok :: "handler_env \<Rightarrow> headers \<Rightarrow> query_params \<Rightarrow> bool" where
  "query_cache_ok env hs params \<longleftrightarrow>
     (\<forall>ps. params = Some ps \<longrightarrow> (\<exists>path. header_get kPath hs = Some path \<and> ps = parseQueryString env path))"

lemma extractAPIKeyFromQuery_key_at:
  assumes "query_cache_ok env hs params"
  shows "\<exists>params'. query_cache_ok env hs params' \<and>
    extractAPIKeyFromQuery env hs q params k =
      (key_at env hs (QueryKey q) \<noteq> None, params', case key_at env hs (QueryKey q) of Some v \<Rightarrow> v | None \<Rightarrow> k)"
  using assms by (auto simp: extractAPIKeyFromQuery_def query_cache_ok_def Let_def split: option.splits)

lemma extractAPIKey_loop_first:
  "query_cache_ok env hs params \<Longrightarrow>
   extractAPIKey_loop env hs locations params k =
     (case List.map_filter (key_at env hs) locations of [] \<Rightarrow> (False, k) | v # _ \<Rightarrow> (True, v))"
proof (induction locations arbitrary: params)
  case (Cons loc locations)
  show ?case
  proof (cases loc)
    case (QueryKey q)
    obtain params' where p: "query_cache_ok env hs params'"
      "extractAPIKeyFromQuery env hs q params k =
        (key_at env hs loc \<noteq> None, params', case key_at env hs loc of Some v \<Rightarrow> v | None \<Rightarrow> k)"
      using extractAPIKeyFromQuery_key_at [OF Cons.prems, of q k] QueryKey by auto
    show ?thesis
      using QueryKey p(2) Cons.IH [OF p(1)]
      by (cases "key_at env hs loc") (simp_all add: List.map_filter_simps del: key_at.simps)
  qed (use Cons in \<open>auto simp: List.map_filter_simps extractAPIKeyFromHeader_def extractAPIKeyFromCookie_def
      Let_def split: option.splits\<close>)
qed (simp add: List.map_filter_simps)

text \<open>
  C37: searching the locations with the query string parsed at most once gives the key of the first
  location that has one, and leaves the key alone when none has.
\<close>

theorem extractAPIKey_first:
  "extractAPIKey env hs locations k =
     (case List.map_filter (key_at env hs) locations of [] \<Rightarrow> (False, k) | v # _ \<Rightarrow> (True, v))"
  by (simp add: extractAPIKey_def extractAPIKey_loop_first query_cache_ok_def)

lemma convertNsToMs_nonneg: "0 \<le> n \<Longrightarrow> 0 \<le> convertNsToMs n"
  by (cases "n = 0") (simp_all add: convertNsToMs_def signed_divide_int_def pos_imp_zdiv_nonneg_iff)

text \<open>
  The three latencies of a report: the backend time is never negative, and where the request took
  at least as long as the backend, overhead and backend time add up to it.
\<close>

lemma fillLatency_sum:
  "0 \<le> li_backend_time_ms (fillLatency si lat)"
  "li_backend_time_ms (fillLatency si lat) \<le> li_request_time_ms (fillLatency si lat) \<Longrightarrow>
   li_overhead_time_ms (fillLatency si lat) + li_backend_time_ms (fillLatency si lat) =
     li_request_time_ms (fillLatency si lat)"
  by (auto simp: fillLatency_def convertNsToMs_nonneg Let_def split: option.splits)

end
