(* ===== verification/HttpCall.thy ===== *)
theory HttpCall
  imports TokenSubscriber "HOL-Library.Word"
begin

text \<open>
  Calls to Service Control over HTTP (\<open>envoy/http/service_control/http_call.cc\<close>): one call with
  its retries, and the factory that keeps the calls in progress and cancels them when it is
  destroyed.

  The state of a call has the request in flight, the retries left, and what was observed from
  outside: the calls of its completion function, latest first, and how often it was handed to
  deferred deletion. As for the token subscriber, the asynchronous client answers a request at
  most once, after \<open>send\<close> has returned, and not after \<open>cancel\<close>. Tracing is left out.

  A call completes exactly once: in every reachable state it either has a request in flight and
  has not completed, or has completed once, is deleted once, and has no request. It sends at most
  one request more than the configured retries.
\<close>

section \<open>A call\<close>

record HttpCall =
  hc_cluster :: string
  hc_host :: string
  hc_path :: string
  hc_str_body :: string
  hc_timeout_ms :: "32 word"
  hc_retries :: "32 word"
  hc_request_count :: nat
  hc_cancelled :: bool
  hc_request :: "RequestMessage option"
  hc_done :: "(Status \<times> string) list"
  hc_deleted :: nat

definition KApplicationProto :: string where "KApplicationProto = ''application/x-protobuf''"

definition new_HttpCall ::
    "(string \<Rightarrow> string \<times> string) \<Rightarrow> string \<Rightarrow> string \<Rightarrow> string \<Rightarrow> string \<Rightarrow> 32 word \<Rightarrow> 32 word \<Rightarrow> HttpCall" where
  "new_HttpCall extract_host_path uri cluster suffix_url str_body timeout_ms retries =
     (let (host, path) = extract_host_path (uri @ suffix_url)
      in \<lparr>hc_cluster = cluster, hc_host = host, hc_path = path, hc_str_body = str_body,
          hc_timeout_ms = timeout_ms, hc_retries = retries, hc_request_count = 0, hc_cancelled = False,
          hc_request = None, hc_done = [], hc_deleted = 0\<rparr>)"

definition HttpCall_reset :: "HttpCall \<Rightarrow> HttpCall" where
  "HttpCall_reset hc = hc\<lparr>hc_request := None\<rparr>"

definition HttpCall_on_done :: "Status \<Rightarrow> string \<Rightarrow> HttpCall \<Rightarrow> HttpCall" where
  "HttpCall_on_done status body hc = hc\<lparr>hc_done := (status, body) # hc_done hc\<rparr>"

definition deferredDelete :: "HttpCall \<Rightarrow> HttpCall" where
  "deferredDelete hc = hc\<lparr>hc_deleted := hc_deleted hc + 1\<rparr>"

definition HttpCall_prepareHeaders :: "string \<Rightarrow> HttpCall \<Rightarrow> RequestMessage" where
  "HttpCall_prepareHeaders token hc =
     \<lparr>rm_headers = [(kPath, hc_path hc), (kHost, hc_host hc), (kMethod, ''POST''),
                    (''content-length'', to_string (int (length (hc_str_body hc)))),
                    (kAuthorization, ''Bearer '' @ token),
                    (''content-type'', KApplicationProto)],
      rm_body = Some (hc_str_body hc)\<rparr>"

definition makeOneCall :: "string \<Rightarrow> HttpCall \<Rightarrow> HttpCall" where
  "makeOneCall token hc =
     (let hc = hc\<lparr>hc_request_count := hc_request_count hc + 1\<rparr>
      in if token = []
         then deferredDelete (HttpCall_on_done
                (Status_of INTERNAL ''Missing access token for service control call'') [] hc)
         else hc\<lparr>hc_request := Some (HttpCall_prepareHeaders token hc)\<rparr>)"

definition HttpCall_call :: "string \<Rightarrow> HttpCall \<Rightarrow> HttpCall" where
  "HttpCall_call token hc = makeOneCall token hc"

definition attemptRetry :: "string \<Rightarrow> nat \<Rightarrow> HttpCall \<Rightarrow> bool \<times> HttpCall" where
  "attemptRetry token status_code hc =
     (if 400 \<le> status_code \<and> status_code < 500 then (False, hc)
      else if hc_retries hc \<le> 0 then (False, hc)
      else (True, makeOneCall token (HttpCall_reset (hc\<lparr>hc_retries := hc_retries hc - 1\<rparr>))))"

definition call_failed :: Status where
  "call_failed = Status_of INTERNAL ''Failed to call service control''"

definition HttpCall_onSuccess :: "string \<Rightarrow> ResponseMessage \<Rightarrow> HttpCall \<Rightarrow> HttpCall" where
  "HttpCall_onSuccess token response hc =
     (case rs_status response of
        None \<Rightarrow> deferredDelete (HttpCall_reset (HttpCall_on_done call_failed [] hc))
      | Some status_code \<Rightarrow>
          if status_code = 200
          then deferredDelete (HttpCall_reset (HttpCall_on_done Status_OK (rs_body response) hc))
          else (case attemptRetry token status_code hc of
                  (True, hc) \<Rightarrow> hc
                | (False, hc) \<Rightarrow>
                    deferredDelete (HttpCall_reset (HttpCall_on_done call_failed (rs_body response) hc))))"

definition HttpCall_onFailure :: "string \<Rightarrow> HttpCall \<Rightarrow> HttpCall" where
  "HttpCall_onFailure token hc =
     (case attemptRetry token 0 hc of
        (True, hc) \<Rightarrow> hc
      | (False, hc) \<Rightarrow> deferredDelete (HttpCall_reset (HttpCall_on_done call_failed [] hc)))"

definition HttpCall_cancel :: "HttpCall \<Rightarrow> HttpCall" where
  "HttpCall_cancel hc =
     (if hc_cancelled hc then hc
      else
        (let hc = hc\<lparr>hc_cancelled := True\<rparr>;
             hc = (if hc_request hc \<noteq> None then HttpCall_reset hc else hc)
         in deferredDelete (HttpCall_on_done (Status_of CANCELLED ''Request cancelled'') [] hc)))"

section \<open>Runs of a call\<close>

text \<open>
  An answer needs a request in flight; \<open>cancel\<close> can come while the object lives. The token is
  the one the token function returns at that moment.
\<close>

inductive http_step :: "HttpCall \<Rightarrow> HttpCall \<Rightarrow> bool" where
  success: "hc_request hc \<noteq> None \<Longrightarrow> http_step hc (HttpCall_onSuccess token response hc)"
| failure: "hc_request hc \<noteq> None \<Longrightarrow> http_step hc (HttpCall_onFailure token hc)"
| cancel: "hc_deleted hc = 0 \<Longrightarrow> http_step hc (HttpCall_cancel hc)"

inductive_cases http_stepE: "http_step hc hc'"

inductive http_run :: "HttpCall \<Rightarrow> nat \<Rightarrow> HttpCall \<Rightarrow> bool" for hc0 where
  start: "http_run hc0 0 (HttpCall_call token hc0)"
| step: "http_run hc0 n hc \<Longrightarrow> http_step hc hc' \<Longrightarrow> http_run hc0 (Suc n) hc'"

definition fresh_call :: "HttpCall \<Rightarrow> bool" where
  "fresh_call hc \<longleftrightarrow> hc_request_count hc = 0 \<and> \<not> hc_cancelled hc \<and> hc_request hc = None \<and>
     hc_done hc = [] \<and> hc_deleted hc = 0"

lemma fresh_new_HttpCall [simp]: "fresh_call (new_HttpCall f u c s b t r)"
  by (simp add: fresh_call_def new_HttpCall_def split: prod.splits)

definition pending_call :: "HttpCall \<Rightarrow> bool" where
  "pending_call hc \<longleftrightarrow> hc_request hc \<noteq> None \<and> hc_done hc = [] \<and> hc_deleted hc = 0 \<and> \<not> hc_cancelled hc"

definition finished_call :: "HttpCall \<Rightarrow> bool" where
  "finished_call hc \<longleftrightarrow> hc_request hc = None \<and> length (hc_done hc) = 1 \<and> hc_deleted hc = 1"

lemmas http_call_defs = HttpCall_call_def makeOneCall_def attemptRetry_def HttpCall_onSuccess_def
  HttpCall_onFailure_def HttpCall_cancel_def HttpCall_reset_def HttpCall_on_done_def deferredDelete_def Let_def

lemma makeOneCall_result:
  assumes "hc_request hc = None" "hc_done hc = []" "hc_deleted hc = 0" "\<not> hc_cancelled hc"
  shows "pending_call (makeOneCall token hc) \<or> finished_call (makeOneCall token hc)"
    and "hc_request_count (makeOneCall token hc) = hc_request_count hc + 1"
    and "hc_retries (makeOneCall token hc) = hc_retries hc"
  using assms by (auto simp: http_call_defs pending_call_def finished_call_def)

lemma attemptRetry_result:
  assumes "pending_call hc" "attemptRetry token code hc = (retried, hc')"
  shows "if retried then (pending_call hc' \<or> finished_call hc') \<and> unat (hc_retries hc) = unat (hc_retries hc') + 1 \<and>
      hc_request_count hc' = hc_request_count hc + 1
    else hc' = hc"
proof (cases "(400 \<le> code \<and> code < 500) \<or> hc_retries hc = 0")
  case False
  let ?hc = "HttpCall_reset (hc\<lparr>hc_retries := hc_retries hc - 1\<rparr>)"
  have pos: "0 < unat (hc_retries hc)" using False by (simp add: unat_gt_0)
  have "unat (hc_retries hc) = unat (hc_retries hc - 1) + 1"
    using pos False by (simp add: unat_minus_one)
  moreover have "hc_request ?hc = None" "hc_done ?hc = []" "hc_deleted ?hc = 0" "\<not> hc_cancelled ?hc"
    using assms(1) by (simp_all add: HttpCall_reset_def pending_call_def)
  note makeOneCall_result [OF this, of token]
  ultimately show ?thesis
    using assms(2) False by (auto simp: attemptRetry_def HttpCall_reset_def)
qed (use assms in \<open>auto simp: attemptRetry_def split: if_splits\<close>)

lemma finish_result:
  "pending_call hc \<Longrightarrow> finished_call (deferredDelete (HttpCall_reset (HttpCall_on_done status body hc)))"
  by (simp add: pending_call_def finished_call_def deferredDelete_def HttpCall_reset_def HttpCall_on_done_def)

text \<open>One step: the call is retried, with one retry less, or it is finished.\<close>

lemma http_step_result:
  assumes "http_step hc hc'" "pending_call hc"
  shows "(pending_call hc' \<and> unat (hc_retries hc) = unat (hc_retries hc') + 1 \<or> finished_call hc') \<and>
    hc_request_count hc' + unat (hc_retries hc') = hc_request_count hc + unat (hc_retries hc)"
  using assms
proof (cases rule: http_step.cases)
  case (success token response)
  obtain retried h where r: "attemptRetry token (the (rs_status response)) hc = (retried, h)" by fastforce
  from attemptRetry_result [OF assms(2) r] success r finish_result [OF assms(2)] show ?thesis
    by (cases retried) (auto simp: HttpCall_onSuccess_def deferredDelete_def HttpCall_reset_def HttpCall_on_done_def
        split: option.splits)
next
  case (failure token)
  obtain retried h where r: "attemptRetry token 0 hc = (retried, h)" by fastforce
  from attemptRetry_result [OF assms(2) r] failure r finish_result [OF assms(2)] show ?thesis
    by (cases retried) (auto simp: HttpCall_onFailure_def deferredDelete_def HttpCall_reset_def HttpCall_on_done_def)
next
  case cancel
  with assms(2) show ?thesis
    by (auto simp: HttpCall_cancel_def pending_call_def finished_call_def deferredDelete_def HttpCall_reset_def
        HttpCall_on_done_def Let_def)
qed

lemma finished_no_step: "finished_call hc \<Longrightarrow> \<not> http_step hc hc'"
  by (auto simp: finished_call_def elim: http_stepE)

lemma http_run_result:
  assumes "http_run hc0 n hc" "fresh_call hc0"
  shows "(pending_call hc \<and> n + unat (hc_retries hc) = unat (hc_retries hc0) \<or>
      finished_call hc \<and> n \<le> unat (hc_retries hc0) + 1) \<and>
    hc_request_count hc + unat (hc_retries hc) = unat (hc_retries hc0) + 1"
  using assms
proof (induction rule: http_run.induct)
  case (start token)
  then show ?case
    using makeOneCall_result [of hc0 token] by (auto simp: fresh_call_def HttpCall_call_def)
next
  case (step n hc hc')
  then have "pending_call hc" using finished_no_step by blast
  with step http_step_result [OF step(2)] show ?case
    by (auto simp: pending_call_def finished_call_def)
qed

section \<open>Properties\<close>



text \<open>
  C33: a call cannot go on for ever: every answer or cancellation uses up a retry or completes the
  call, so that after as many answers as there are retries, and one more, it has completed, and no
  further step is possible.
\<close>

theorem http_call_terminates:
  assumes "http_run (new_HttpCall f uri cluster suffix body timeout retries) n hc"
  shows "n \<le> unat retries + 1 \<and> ((\<exists>hc'. http_step hc hc') \<longleftrightarrow> hc_done hc = []) \<and>
    (n = unat retries + 1 \<longrightarrow> hc_done hc \<noteq> [])"
proof -
  have r: "hc_retries (new_HttpCall f uri cluster suffix body timeout retries) = retries"
    by (simp add: new_HttpCall_def split: prod.splits)
  note res = http_run_result [OF assms fresh_new_HttpCall, unfolded r]
  show ?thesis
  proof (cases "pending_call hc")
    case True
    then have "http_step hc (HttpCall_cancel hc)" by (simp add: pending_call_def http_step.cancel)
    with True res show ?thesis by (auto simp: pending_call_def finished_call_def)
  next
    case False
    with res have "finished_call hc" by simp
    with False res finished_no_step [OF this] show ?thesis by (auto simp: finished_call_def)
  qed
qed

theorem http_call_terminates_witness:
  "\<exists>hc. http_run (new_HttpCall (\<lambda>u. (u, u)) ''u'' ''c'' '':check'' ''body'' 1000 0) 1 hc \<and> hc_done hc \<noteq> []"
proof -
  let ?c = "new_HttpCall (\<lambda>u. (u, u)) ''u'' ''c'' '':check'' ''body'' 1000 0"
  have c: "hc_request (HttpCall_call ''t'' ?c) \<noteq> None" by code_simp
  have "http_run ?c 1 (HttpCall_onFailure ''t'' (HttpCall_call ''t'' ?c))"
    using http_run.step [OF http_run.start http_step.failure [OF c]] by simp
  from http_call_terminates [OF this] this show ?thesis by auto
qed

section \<open>The factory\<close>

text \<open>
  The calls the factory made are numbered; the completion function of each removes its number from
  the active calls, except while the factory is being destroyed.
\<close>

record HttpCallFactory =
  hf_calls :: "HttpCall list"
  hf_active_calls :: "nat set"
  hf_destruct_mode :: bool

definition new_HttpCallFactory :: HttpCallFactory where
  "new_HttpCallFactory = \<lparr>hf_calls = [], hf_active_calls = {}, hf_destruct_mode = False\<rparr>"

definition createHttpCall :: "HttpCall \<Rightarrow> HttpCallFactory \<Rightarrow> HttpCallFactory" where
  "createHttpCall http_call f =
     f\<lparr>hf_calls := hf_calls f @ [http_call],
       hf_active_calls := insert (length (hf_calls f)) (hf_active_calls f)\<rparr>"

definition factory_on_done :: "nat \<Rightarrow> HttpCallFactory \<Rightarrow> HttpCallFactory" where
  "factory_on_done i f =
     (if \<not> hf_destruct_mode f then f\<lparr>hf_active_calls := hf_active_calls f - {i}\<rparr> else f)"

text \<open>A call of the factory takes a step; if it completes, its completion function runs.\<close>

definition factory_update :: "nat \<Rightarrow> HttpCall \<Rightarrow> HttpCallFactory \<Rightarrow> HttpCallFactory" where
  "factory_update i hc f =
     (let f' = f\<lparr>hf_calls := (hf_calls f)[i := hc]\<rparr>
      in if hc_done hc \<noteq> [] \<and> hc_done (hf_calls f ! i) = [] then factory_on_done i f' else f')"

fun cancel_calls :: "nat list \<Rightarrow> HttpCallFactory \<Rightarrow> HttpCallFactory" where
  "cancel_calls [] f = f"
| "cancel_calls (i # is) f = cancel_calls is (factory_update i (HttpCall_cancel (hf_calls f ! i)) f)"

definition destroy_HttpCallFactory :: "nat list \<Rightarrow> HttpCallFactory \<Rightarrow> HttpCallFactory" where
  "destroy_HttpCallFactory order f = cancel_calls order (f\<lparr>hf_destruct_mode := True\<rparr>)"

inductive factory_run :: "HttpCallFactory \<Rightarrow> bool" where
  start: "factory_run new_HttpCallFactory"
| create: "factory_run f \<Longrightarrow>
     factory_run (factory_update (length (hf_calls f)) (HttpCall_call token (new_HttpCall g u c s b t r))
       (createHttpCall (new_HttpCall g u c s b t r) f))"
| step: "factory_run f \<Longrightarrow> i < length (hf_calls f) \<Longrightarrow> http_step (hf_calls f ! i) hc \<Longrightarrow>
     factory_run (factory_update i hc f)"

definition factory_ok :: "HttpCallFactory \<Rightarrow> bool" where
  "factory_ok f \<longleftrightarrow>
     (\<forall>i < length (hf_calls f). if i \<in> hf_active_calls f then pending_call (hf_calls f ! i)
       else finished_call (hf_calls f ! i)) \<and>
     hf_active_calls f \<subseteq> {..<length (hf_calls f)} \<and> \<not> hf_destruct_mode f"

lemma HttpCall_call_new:
  "pending_call (HttpCall_call token (new_HttpCall g u c s b t r)) \<or>
   finished_call (HttpCall_call token (new_HttpCall g u c s b t r))"
  using makeOneCall_result(1) fresh_new_HttpCall unfolding fresh_call_def HttpCall_call_def by blast

lemma factory_update_ok:
  assumes "factory_ok f" "i < length (hf_calls f)" "i \<in> hf_active_calls f" "pending_call hc \<or> finished_call hc"
  shows "factory_ok (factory_update i hc f)"
proof -
  have "hc_done (hf_calls f ! i) = []" "hf_destruct_mode f = False" using assms by (auto simp: factory_ok_def pending_call_def)
  with assms show ?thesis
    by (auto simp: factory_ok_def factory_update_def factory_on_done_def nth_list_update Let_def
        pending_call_def finished_call_def)
qed

lemma factory_run_ok: "factory_run f \<Longrightarrow> factory_ok f"
proof (induction rule: factory_run.induct)
  case start
  show ?case by (simp add: factory_ok_def new_HttpCallFactory_def)
next
  case (create f token g u c s b t r)
  let ?hc = "HttpCall_call token (new_HttpCall g u c s b t r)" and ?i = "length (hf_calls f)"
  have new: "hc_done (new_HttpCall g u c s b t r) = []" using fresh_new_HttpCall by (simp add: fresh_call_def)
  from create.IH HttpCall_call_new [of token g u c s b t r] new show ?case
    by (auto simp: factory_ok_def factory_update_def factory_on_done_def createHttpCall_def nth_append
        nth_list_update Let_def pending_call_def finished_call_def less_Suc_eq)
next
  case (step f i hc)
  have "i \<in> hf_active_calls f"
    using step finished_no_step [of "hf_calls f ! i" hc] by (auto simp: factory_ok_def split: if_splits)
  moreover have "pending_call hc \<or> finished_call hc"
    using http_step_result [OF step(3)] step calculation by (auto simp: factory_ok_def)
  ultimately show ?case using step by (intro factory_update_ok)
qed

lemma HttpCall_cancel_pending: "pending_call hc \<Longrightarrow> finished_call (HttpCall_cancel hc)"
  by (simp add: HttpCall_cancel_def pending_call_def finished_call_def deferredDelete_def HttpCall_reset_def
      HttpCall_on_done_def Let_def)

lemma cancel_calls_finished:
  assumes "hf_destruct_mode f" "distinct order" "set order \<subseteq> {..<length (hf_calls f)}"
    and "\<And>i. i < length (hf_calls f) \<Longrightarrow>
      if i \<in> set order then pending_call (hf_calls f ! i) else finished_call (hf_calls f ! i)"
  shows "list_all finished_call (hf_calls (cancel_calls order f))"
  using assms
proof (induction order arbitrary: f)
  case Nil
  then show ?case by (simp add: list_all_length)
next
  case (Cons i order)
  let ?f = "factory_update i (HttpCall_cancel (hf_calls f ! i)) f"
  have calls: "hf_calls ?f = (hf_calls f)[i := HttpCall_cancel (hf_calls f ! i)]" "hf_destruct_mode ?f"
    using Cons.prems(1) by (simp_all add: factory_update_def factory_on_done_def Let_def)
  have "finished_call (HttpCall_cancel (hf_calls f ! i))"
    using Cons.prems(3) Cons.prems(4) [of i] by (simp add: HttpCall_cancel_pending)
  with Cons.prems calls show ?case
    unfolding cancel_calls.simps by (intro Cons.IH) (auto simp: nth_list_update split: if_splits)
qed

text \<open>
  C34: the calls a factory holds as active are at all times exactly the calls that have not
  completed, and destroying the factory completes each of them exactly once, whatever the order in
  which it visits them.
\<close>

theorem factory_active_calls:
  assumes "factory_run f" "set order = hf_active_calls f" "distinct order"
  shows "hf_active_calls f = {i. i < length (hf_calls f) \<and> hc_done (hf_calls f ! i) = []} \<and>
    list_all (\<lambda>hc. length (hc_done hc) = 1 \<and> hc_deleted hc = 1) (hf_calls (destroy_HttpCallFactory order f))"
proof -
  have ok: "factory_ok f" by (rule factory_run_ok [OF assms(1)])
  have "list_all finished_call (hf_calls (destroy_HttpCallFactory order f))"
    unfolding destroy_HttpCallFactory_def
    using ok assms(2,3) by (intro cancel_calls_finished) (auto simp: factory_ok_def)
  moreover have "hf_active_calls f = {i. i < length (hf_calls f) \<and> hc_done (hf_calls f ! i) = []}"
    using ok by (fastforce simp: factory_ok_def pending_call_def finished_call_def split: if_splits)
  ultimately show ?thesis by (auto simp: list_all_iff finished_call_def)
qed

theorem factory_active_calls_witness:
  "\<exists>f. factory_run f \<and> hf_active_calls f = {0} \<and>
     list_all (\<lambda>hc. length (hc_done hc) = 1 \<and> hc_deleted hc = 1) (hf_calls (destroy_HttpCallFactory [0] f))"
proof -
  let ?c = "new_HttpCall (\<lambda>u. (u, u)) ''u'' ''c'' '':check'' ''body'' 1000 3"
  let ?f = "factory_update 0 (HttpCall_call ''t'' ?c) (createHttpCall ?c new_HttpCallFactory)"
  have run: "factory_run ?f"
    using factory_run.create [OF factory_run.start, of "''t''" "\<lambda>u. (u, u)" "''u''" "''c''" "'':check''" "''body''" 1000 3]
    by (simp add: new_HttpCallFactory_def)
  have active: "set [0] = hf_active_calls ?f" by code_simp
  from factory_active_calls [OF run active] run active show ?thesis by auto
qed

end
