(* ===== verification/ClientCache.thy ===== *)
theory ClientCache
  imports ServiceControlConfig HttpCall
begin

text \<open>
  The Service Control client: the settings of its calls and what the outcome of a call means for
  the request (\<open>envoy/http/service_control/client_cache.cc\<close>), and the object the handler talks
  to, with its tokens and request builder (\<open>service_control_call_impl.cc\<close>).

  The aggregating client library that \<open>client_\<close> points to is not part of the repository. What the
  code relies on is that it calls the completion function with the status and response of the
  transport, or with success and a cached response; the model starts there. Protobuf's
  \<open>ParseFromString\<close> is a parameter.
\<close>

section \<open>Settings\<close>

definition kCheckAggregationEntries :: int where "kCheckAggregationEntries = 10000"
definition kCheckAggregationFlushIntervalMs :: int where "kCheckAggregationFlushIntervalMs = 60000"
definition kCheckAggregationExpirationMs :: int where "kCheckAggregationExpirationMs = 300000"
definition kQuotaAggregationEntries :: int where "kQuotaAggregationEntries = 10000"
definition kQuotaAggregationFlushIntervalMs :: int where "kQuotaAggregationFlushIntervalMs = 1000"
definition kReportAggregationEntries :: int where "kReportAggregationEntries = 10000"
definition kReportAggregationFlushIntervalMs :: int where "kReportAggregationFlushIntervalMs = 1000"
definition kCheckDefaultTimeoutInMs :: "32 word" where "kCheckDefaultTimeoutInMs = 1000"
definition kAllocateQuotaDefaultTimeoutInMs :: "32 word" where "kAllocateQuotaDefaultTimeoutInMs = 1000"
definition kReportDefaultTimeoutInMs :: "32 word" where "kReportDefaultTimeoutInMs = 2000"
definition kCheckDefaultNumberOfRetries :: "32 word" where "kCheckDefaultNumberOfRetries = 3"
definition kAllocateQuotaDefaultNumberOfRetries :: "32 word" where "kAllocateQuotaDefaultNumberOfRetries = 1"
definition kReportDefaultNumberOfRetries :: "32 word" where "kReportDefaultNumberOfRetries = 5"
definition kDefaultNetworkFailOpen :: bool where "kDefaultNetworkFailOpen = True"

definition getCheckAggregationOptions :: "int \<times> int \<times> int" where
  "getCheckAggregationOptions =
     (kCheckAggregationEntries, kCheckAggregationFlushIntervalMs, kCheckAggregationExpirationMs)"

definition getQuotaAggregationOptions :: "int \<times> int" where
  "getQuotaAggregationOptions = (kQuotaAggregationEntries, kQuotaAggregationFlushIntervalMs)"

definition getReportAggregationOptions :: "int \<times> int" where
  "getReportAggregationOptions = (kReportAggregationEntries, kReportAggregationFlushIntervalMs)"

record HttpRequestSetting =
  hs_network_fail_open :: bool
  hs_check_timeout_ms :: "32 word"
  hs_quota_timeout_ms :: "32 word"
  hs_report_timeout_ms :: "32 word"
  hs_check_retries :: "32 word"
  hs_quota_retries :: "32 word"
  hs_report_retries :: "32 word"

definition InitHttpRequestSetting :: "ScFilterConfig \<Rightarrow> HttpRequestSetting" where
  "InitHttpRequestSetting filter_config =
     (case sf_sc_calling_config filter_config of
        None \<Rightarrow>
          \<lparr>hs_network_fail_open = kDefaultNetworkFailOpen, hs_check_timeout_ms = kCheckDefaultTimeoutInMs,
           hs_quota_timeout_ms = kAllocateQuotaDefaultTimeoutInMs, hs_report_timeout_ms = kReportDefaultTimeoutInMs,
           hs_check_retries = kCheckDefaultNumberOfRetries, hs_quota_retries = kAllocateQuotaDefaultNumberOfRetries,
           hs_report_retries = kReportDefaultNumberOfRetries\<rparr>
      | Some cc \<Rightarrow>
          \<lparr>hs_network_fail_open = (case cc_network_fail_open cc of Some v \<Rightarrow> v | None \<Rightarrow> True),
           hs_check_timeout_ms = (case cc_check_timeout_ms cc of Some v \<Rightarrow> v | None \<Rightarrow> kCheckDefaultTimeoutInMs),
           hs_quota_timeout_ms = (case cc_quota_timeout_ms cc of Some v \<Rightarrow> v | None \<Rightarrow> kAllocateQuotaDefaultTimeoutInMs),
           hs_report_timeout_ms = (case cc_report_timeout_ms cc of Some v \<Rightarrow> v | None \<Rightarrow> kReportDefaultTimeoutInMs),
           hs_check_retries = (case cc_check_retries cc of Some v \<Rightarrow> v | None \<Rightarrow> kCheckDefaultNumberOfRetries),
           hs_quota_retries = (case cc_quota_retries cc of Some v \<Rightarrow> v | None \<Rightarrow> kAllocateQuotaDefaultNumberOfRetries),
           hs_report_retries = (case cc_report_retries cc of Some v \<Rightarrow> v | None \<Rightarrow> kReportDefaultNumberOfRetries)\<rparr>)"

section \<open>The client\<close>

record ClientCache =
  cl_config :: ScService
  cl_setting :: HttpRequestSetting
  cl_uri :: string
  cl_cluster :: string

definition new_ClientCache :: "ScService \<Rightarrow> ScFilterConfig \<Rightarrow> ClientCache" where
  "new_ClientCache config filter_config =
     \<lparr>cl_config = config, cl_setting = InitHttpRequestSetting filter_config,
      cl_uri = sf_service_control_uri filter_config, cl_cluster = sf_service_control_cluster filter_config\<rparr>"

text \<open>The calls its three factories create, for a serialised request.\<close>

definition check_call :: "(string \<Rightarrow> string \<times> string) \<Rightarrow> ClientCache \<Rightarrow> string \<Rightarrow> HttpCall" where
  "check_call extract_host_path cl body =
     new_HttpCall extract_host_path (cl_uri cl) (cl_cluster cl) (sv_service_name (cl_config cl) @ '':check'') body
       (hs_check_timeout_ms (cl_setting cl)) (hs_check_retries (cl_setting cl))"

definition quota_call :: "(string \<Rightarrow> string \<times> string) \<Rightarrow> ClientCache \<Rightarrow> string \<Rightarrow> HttpCall" where
  "quota_call extract_host_path cl body =
     new_HttpCall extract_host_path (cl_uri cl) (cl_cluster cl) (sv_service_name (cl_config cl) @ '':allocateQuota'') body
       (hs_quota_timeout_ms (cl_setting cl)) (hs_quota_retries (cl_setting cl))"

definition report_call :: "(string \<Rightarrow> string \<times> string) \<Rightarrow> ClientCache \<Rightarrow> string \<Rightarrow> HttpCall" where
  "report_call extract_host_path cl body =
     new_HttpCall extract_host_path (cl_uri cl) (cl_cluster cl) (sv_service_name (cl_config cl) @ '':report'') body
       (hs_report_timeout_ms (cl_setting cl)) (hs_report_retries (cl_setting cl))"

text \<open>
  The transports: each creates a call for the request, in its wire format, and starts it with the
  token its factory's token function returns.
\<close>

definition check_transport ::
    "(string \<Rightarrow> string \<times> string) \<Rightarrow> ('r \<Rightarrow> string) \<Rightarrow> ClientCache \<Rightarrow> string \<Rightarrow> 'r \<Rightarrow> HttpCall" where
  "check_transport extract_host_path SerializeAsString cl token request =
     HttpCall_call token (check_call extract_host_path cl (SerializeAsString request))"

definition quota_transport ::
    "(string \<Rightarrow> string \<times> string) \<Rightarrow> ('r \<Rightarrow> string) \<Rightarrow> ClientCache \<Rightarrow> string \<Rightarrow> 'r \<Rightarrow> HttpCall" where
  "quota_transport extract_host_path SerializeAsString cl token request =
     HttpCall_call token (quota_call extract_host_path cl (SerializeAsString request))"

definition report_transport ::
    "(string \<Rightarrow> string \<times> string) \<Rightarrow> ('r \<Rightarrow> string) \<Rightarrow> ClientCache \<Rightarrow> string \<Rightarrow> 'r \<Rightarrow> HttpCall" where
  "report_transport extract_host_path SerializeAsString cl token request =
     HttpCall_call token (report_call extract_host_path cl (SerializeAsString request))"

text \<open>
  The completion function of a transport: the status passed on, and the response that was filled
  in (\<open>None\<close>: left as it was created).
\<close>

definition transport_done :: "(string \<Rightarrow> 'r option) \<Rightarrow> Status \<Rightarrow> string \<Rightarrow> Status \<times> 'r option" where
  "transport_done ParseFromString status body =
     (if st_ok status
      then (case ParseFromString body of
              None \<Rightarrow> (Status_of INVALID_ARGUMENT ''Invalid response'', None)
            | Some response \<Rightarrow> (status, Some response))
      else (status, None))"

text \<open>The completion functions that \<open>callCheck\<close> and \<open>callQuota\<close> give to the client.\<close>

definition callCheck_done :: "ClientCache \<Rightarrow> Status \<Rightarrow> CheckResponse \<Rightarrow> Status \<times> CheckResponseInfo" where
  "callCheck_done cl status response =
     (if st_ok status
      then ConvertCheckResponse response (sv_service_name (cl_config cl)) new_CheckResponseInfo
      else if hs_network_fail_open (cl_setting cl) then (Status_OK, new_CheckResponseInfo)
      else (status, new_CheckResponseInfo))"

definition callQuota_done :: "ClientCache \<Rightarrow> Status \<Rightarrow> AllocateQuotaResponse \<Rightarrow> Status" where
  "callQuota_done cl status response =
     (if st_ok status then ConvertAllocateQuotaResponse response (sv_service_name (cl_config cl))
      else Status_of (st_code status) (st_message status))"

definition new_CheckResponse :: CheckResponse where
  "new_CheckResponse = \<lparr>consumer_project_number = 0, check_errors = []\<rparr>"

text \<open>A check answered over HTTP: from the completion of the call to the verdict.\<close>

definition check_verdict ::
    "(string \<Rightarrow> CheckResponse option) \<Rightarrow> ClientCache \<Rightarrow> Status \<times> string \<Rightarrow> Status \<times> CheckResponseInfo" where
  "check_verdict ParseFromString cl outcome =
     (case transport_done ParseFromString (fst outcome) (snd outcome) of
        (status, response) \<Rightarrow>
          callCheck_done cl status (case response of Some r \<Rightarrow> r | None \<Rightarrow> new_CheckResponse))"

text \<open>
  The calls of the client library, a parameter with a state of its own. Its \<open>Check\<close> and \<open>Quota\<close>
  complete at once with a status and a response, or do not, and then a check is sent by the transport
  given with it (whose call can be cancelled) and a quota request by that of the options. The
  completion function of a report does nothing.
\<close>

type_synonym ('l, 'q, 'r) library_call = "'l \<Rightarrow> 'q \<Rightarrow> 'l \<times> (Status \<times> 'r) option"

definition ClientCache_callCheck ::
    "('l, 'q, CheckResponse) library_call \<Rightarrow> (string \<Rightarrow> string \<times> string) \<Rightarrow> ('q \<Rightarrow> string) \<Rightarrow> ClientCache \<Rightarrow> string
     \<Rightarrow> 'q \<Rightarrow> 'l \<Rightarrow> 'l \<times> ((Status \<times> CheckResponseInfo) + HttpCall)" where
  "ClientCache_callCheck Check extract_host_path SerializeAsString cl token request client =
     (case Check client request of
        (client, Some (status, response)) \<Rightarrow> (client, Inl (callCheck_done cl status response))
      | (client, None) \<Rightarrow> (client, Inr (check_transport extract_host_path SerializeAsString cl token request)))"

definition ClientCache_callQuota ::
    "('l, 'q, AllocateQuotaResponse) library_call \<Rightarrow> ClientCache \<Rightarrow> 'q \<Rightarrow> 'l \<Rightarrow> 'l \<times> Status option" where
  "ClientCache_callQuota Quota cl request client =
     (case Quota client request of
        (client, Some (status, response)) \<Rightarrow> (client, Some (callQuota_done cl status response))
      | (client, None) \<Rightarrow> (client, None))"

definition ClientCache_callReport :: "('l \<Rightarrow> 'q \<Rightarrow> 'l) \<Rightarrow> 'q \<Rightarrow> 'l \<Rightarrow> 'l" where
  "ClientCache_callReport Report request client = Report client request"

section \<open>Tokens and request builder\<close>

definition kServiceControlService :: string where
  "kServiceControlService = ''/google.api.servicecontrol.v1.ServiceController''"
definition kQuotaControlService :: string where
  "kQuotaControlService = ''/google.api.servicecontrol.v1.QuotaController''"
definition kServiceControlScope :: string where
  "kServiceControlScope = ''https://www.googleapis.com/auth/servicecontrol''"

record ThreadLocalCache =
  tl_sc_token :: "string option"
  tl_quota_token :: "string option"
  tl_client_cache :: ClientCache

definition set_sc_token :: "string \<Rightarrow> ThreadLocalCache \<Rightarrow> ThreadLocalCache" where
  "set_sc_token token tlc = tlc\<lparr>tl_sc_token := Some token\<rparr>"

definition set_quota_token :: "string \<Rightarrow> ThreadLocalCache \<Rightarrow> ThreadLocalCache" where
  "set_quota_token token tlc = tlc\<lparr>tl_quota_token := Some token\<rparr>"

definition sc_token :: "ThreadLocalCache \<Rightarrow> string" where
  "sc_token tlc = (case tl_sc_token tlc of Some t \<Rightarrow> t | None \<Rightarrow> [])"

definition quota_token :: "ThreadLocalCache \<Rightarrow> string" where
  "quota_token tlc = (case tl_quota_token tlc of Some t \<Rightarrow> t | None \<Rightarrow> [])"

record 'd ServiceControlCall =
  scc_request_builder :: "'d RequestBuilder"
  scc_imds_token_sub :: "TokenSubscriber option"
  scc_access_token_for_iam :: string
  scc_access_token_sub :: "TokenSubscriber option"
  scc_iam_token_sub :: "TokenSubscriber option"
  scc_sc_token_gen :: "ServiceAccountTokenGenerator option"
  scc_quota_token_gen :: "ServiceAccountTokenGenerator option"
  scc_tls :: ThreadLocalCache

definition createImdsTokenSub :: "string \<Rightarrow> string \<Rightarrow> 'd ServiceControlCall \<Rightarrow> 'd ServiceControlCall" where
  "createImdsTokenSub token_uri token_cluster scc =
     scc\<lparr>scc_imds_token_sub := Some (createImdsTokenSubscriber AccessToken token_cluster token_uri)\<rparr>"

definition createTokenGen :: "string \<Rightarrow> string \<Rightarrow> 'd ServiceControlCall \<Rightarrow> 'd ServiceControlCall" where
  "createTokenGen service_control_uri key scc =
     scc\<lparr>scc_sc_token_gen := Some (createServiceAccountTokenGenerator key
           (service_control_uri @ kServiceControlService)),
         scc_quota_token_gen := Some (createServiceAccountTokenGenerator key
           (service_control_uri @ kQuotaControlService))\<rparr>"

text \<open>\<open>None\<close> is the exception for an access token that is not remote.\<close>

definition createIamTokenSub ::
    "string \<Rightarrow> string \<Rightarrow> access_token_source \<Rightarrow> string list \<Rightarrow> 'd ServiceControlCall \<Rightarrow> 'd ServiceControlCall option"
where
  "createIamTokenSub token_uri token_cluster access_token delegates scc =
     (case access_token of
        RemoteToken uri cluster \<Rightarrow>
          Some (scc\<lparr>scc_access_token_sub := Some (createImdsTokenSubscriber AccessToken cluster uri),
                    scc_iam_token_sub := Some (createIamTokenSubscriber AccessToken token_cluster token_uri
                                                 delegates [kServiceControlScope])\<rparr>)
      | OtherAccessToken \<Rightarrow> None)"

text \<open>The callbacks of the token sources.\<close>

definition both_tokens_callback :: "string \<Rightarrow> 'd ServiceControlCall \<Rightarrow> 'd ServiceControlCall" where
  "both_tokens_callback token scc =
     scc\<lparr>scc_tls := set_quota_token token (set_sc_token token (scc_tls scc))\<rparr>"

definition sc_token_callback :: "string \<Rightarrow> 'd ServiceControlCall \<Rightarrow> 'd ServiceControlCall" where
  "sc_token_callback token scc = scc\<lparr>scc_tls := set_sc_token token (scc_tls scc)\<rparr>"

definition quota_token_callback :: "string \<Rightarrow> 'd ServiceControlCall \<Rightarrow> 'd ServiceControlCall" where
  "quota_token_callback token scc = scc\<lparr>scc_tls := set_quota_token token (scc_tls scc)\<rparr>"

definition iam_access_token_callback :: "string \<Rightarrow> 'd ServiceControlCall \<Rightarrow> 'd ServiceControlCall" where
  "iam_access_token_callback access_token scc = scc\<lparr>scc_access_token_for_iam := access_token\<rparr>"

text \<open>The status of the loader is ignored; \<open>None\<close> is a service configuration that does not unpack.\<close>

definition make_request_builder :: "ScService \<Rightarrow> 'd RequestBuilder option" where
  "make_request_builder config =
     (case sv_service_config config of
        Some None \<Rightarrow> None
      | Some (Some origin_service) \<Rightarrow>
          (case Load origin_service ({}, {}, {}) of
             (status, logs, metrics, labels) \<Rightarrow>
               Some (RequestBuilder_some logs metrics labels (sv_service_name config) (sv_service_config_id config)))
      | None \<Rightarrow>
          Some (RequestBuilder_all {''endpoints_log''} (sv_service_name config) (sv_service_config_id config)))"

definition new_ServiceControlCall :: "ScFilterConfig \<Rightarrow> ScService \<Rightarrow> 'd ServiceControlCall option" where
  "new_ServiceControlCall filter_config config =
     (case make_request_builder config of
        None \<Rightarrow> None
      | Some builder \<Rightarrow>
          (let scc = \<lparr>scc_request_builder = builder, scc_imds_token_sub = None, scc_access_token_for_iam = [],
                      scc_access_token_sub = None, scc_iam_token_sub = None, scc_sc_token_gen = None,
                      scc_quota_token_gen = None,
                      scc_tls = \<lparr>tl_sc_token = None, tl_quota_token = None,
                                 tl_client_cache = new_ClientCache config filter_config\<rparr>\<rparr>
           in case sf_access_token filter_config of
                ScImdsToken uri cluster \<Rightarrow> Some (createImdsTokenSub uri cluster scc)
              | ScServiceAccountSecret key \<Rightarrow> Some (createTokenGen (sf_service_control_uri filter_config) key scc)
              | ScIamToken uri cluster access_token delegates \<Rightarrow>
                  createIamTokenSub uri cluster access_token delegates scc
              | ScNoAccessToken \<Rightarrow> Some scc))"

text \<open>
  The requests that \<open>callCheck\<close>, \<open>callQuota\<close> and \<open>callReport\<close> hand to the client: as far as the
  builder filled them, whatever its status.
\<close>

definition scc_callCheck :: "'d env \<Rightarrow> 'd ServiceControlCall \<Rightarrow> CheckRequestInfo \<Rightarrow> 'd CheckRequest" where
  "scc_callCheck env scc request_info =
     snd (FillCheckRequest env (scc_request_builder scc) request_info
       \<lparr>cr_service_name = [], cr_service_config_id = [], cr_operation = new_Operation\<rparr>)"

definition scc_callQuota :: "'d env \<Rightarrow> 'd ServiceControlCall \<Rightarrow> QuotaRequestInfo \<Rightarrow> 'd AllocateQuotaRequest" where
  "scc_callQuota env scc request_info =
     snd (FillAllocateQuotaRequest env (scc_request_builder scc) request_info
       \<lparr>aq_service_name = [], aq_service_config_id = [],
        aq_allocate_operation = \<lparr>qo_operation_id = [], qo_method_name = [], qo_consumer_id = [],
          qo_quota_mode = QUOTA_UNSPECIFIED, qo_labels = [], qo_quota_metrics = []\<rparr>\<rparr>)"

definition scc_callReport :: "'d env \<Rightarrow> 'd ServiceControlCall \<Rightarrow> ReportRequestInfo \<Rightarrow> 'd ReportRequest" where
  "scc_callReport env scc request_info =
     snd (FillReportRequest env (scc_request_builder scc) request_info
       \<lparr>rr_service_name = [], rr_service_config_id = [], rr_operations = []\<rparr>)"

section \<open>The timer\<close>

text \<open>
  The timer that drives the client's flushes: its Envoy timer (\<open>None\<close>: destroyed) with the delay
  it was last armed with. The callback is the client's and may itself stop the timer, which \<open>call\<close>
  does not expect: it then arms a timer that is gone, the result \<open>None\<close>.
\<close>

record EnvoyPeriodicTimer =
  pt_interval_ms :: int
  pt_timer :: "int option"

definition new_EnvoyPeriodicTimer :: "int \<Rightarrow> EnvoyPeriodicTimer" where
  "new_EnvoyPeriodicTimer interval_ms = \<lparr>pt_interval_ms = interval_ms, pt_timer = Some interval_ms\<rparr>"

definition PeriodicTimer_call ::
    "(EnvoyPeriodicTimer \<Rightarrow> EnvoyPeriodicTimer) \<Rightarrow> EnvoyPeriodicTimer \<Rightarrow> EnvoyPeriodicTimer option" where
  "PeriodicTimer_call callback t =
     (let t = callback t
      in case pt_timer t of None \<Rightarrow> None | Some _ \<Rightarrow> Some (t\<lparr>pt_timer := Some (pt_interval_ms t)\<rparr>))"

definition PeriodicTimer_Stop :: "EnvoyPeriodicTimer \<Rightarrow> EnvoyPeriodicTimer" where
  "PeriodicTimer_Stop t = t\<lparr>pt_timer := None\<rparr>"

lemma PeriodicTimer_rearms:
  "pt_timer (callback t) \<noteq> None \<Longrightarrow> pt_interval_ms (callback t) = pt_interval_ms t \<Longrightarrow>
   \<exists>t'. PeriodicTimer_call callback t = Some t' \<and> pt_timer t' = Some (pt_interval_ms t)"
  by (auto simp: PeriodicTimer_call_def Let_def)

section \<open>Properties\<close>

lemma check_verdict_eq:
  "check_verdict parse cl (status, body) =
     (case (if st_ok status then parse body else None) of
        Some response \<Rightarrow> ConvertCheckResponse response (sv_service_name (cl_config cl)) new_CheckResponseInfo
      | None \<Rightarrow>
          (if hs_network_fail_open (cl_setting cl) then Status_OK
           else if st_ok status then Status_of INVALID_ARGUMENT ''Invalid response''
           else status,
           new_CheckResponseInfo))"
  by (auto simp: check_verdict_def transport_done_def callCheck_done_def split: option.splits)

text \<open>A call completes with success only through an answer 200, and with the body of that answer.\<close>

lemma makeOneCall_done: "hc_done hc = [] \<Longrightarrow> hc_done (makeOneCall token hc) = [(status, body)] \<Longrightarrow> \<not> st_ok status"
  by (auto simp: makeOneCall_def deferredDelete_def HttpCall_on_done_def Let_def split: if_splits)

lemma attemptRetry_done:
  assumes "attemptRetry token code hc = (True, hc')" "hc_done hc = []" "hc_done hc' = [(status, body)]"
  shows "\<not> st_ok status"
  using assms makeOneCall_done [of "HttpCall_reset (hc\<lparr>hc_retries := hc_retries hc - 1\<rparr>)" token status body]
  by (auto simp: attemptRetry_def HttpCall_reset_def split: if_splits)

lemma http_step_ok:
  assumes "http_step hc hc'" "hc_done hc = []" "hc_done hc' = [(status, body)]" "st_ok status"
  obtains token response where "hc' = HttpCall_onSuccess token response hc"
    "rs_status response = Some 200" "rs_body response = body"
  using assms(1)
proof (cases rule: http_step.cases)
  case (success token response)
  have "rs_status response = Some 200 \<and> rs_body response = body"
  proof (cases "rs_status response = Some 200")
    case True
    with success assms(2,3) show ?thesis
      by (simp add: HttpCall_onSuccess_def deferredDelete_def HttpCall_reset_def HttpCall_on_done_def)
  next
    case False
    obtain retried h where r: "attemptRetry token (the (rs_status response)) hc = (retried, h)" by fastforce
    from False success r assms(2-4) attemptRetry_done [of token "the (rs_status response)" hc h]
    show ?thesis
      by (cases retried; cases "rs_status response")
        (auto simp: HttpCall_onSuccess_def deferredDelete_def HttpCall_reset_def HttpCall_on_done_def call_failed_def
          attemptRetry_def split: if_splits)
  qed
  with success that show ?thesis by blast
next
  case (failure token)
  obtain retried h where r: "attemptRetry token 0 hc = (retried, h)" by fastforce
  with failure assms(2-4) attemptRetry_done [of token 0 hc h] show ?thesis
    by (cases retried) (auto simp: HttpCall_onFailure_def deferredDelete_def HttpCall_reset_def HttpCall_on_done_def
        call_failed_def attemptRetry_def split: if_splits)
next
  case cancel
  with assms(2-4) show ?thesis
    by (auto simp: HttpCall_cancel_def deferredDelete_def HttpCall_reset_def HttpCall_on_done_def Let_def split: if_splits)
qed

text \<open>A call that has completed with success, in any run: the last event was that answer.\<close>

lemma http_run_done_ok:
  assumes "http_run hc0 n hc" "fresh_call hc0" "hc_done hc = [(status, body)]" "st_ok status"
  obtains m hc1 token response where "http_run hc0 m hc1" "hc = HttpCall_onSuccess token response hc1"
    "rs_status response = Some 200" "rs_body response = body"
  using assms(1)
proof (cases rule: http_run.cases)
  case (start token)
  with assms(2-4) makeOneCall_done [of hc0 token] show ?thesis by (auto simp: fresh_call_def HttpCall_call_def)
next
  case (step m hc1)
  then have "hc_done hc1 = []"
    using http_run_result [OF step(2) assms(2)] finished_no_step by (auto simp: pending_call_def)
  from http_step_ok [OF step(3) this assms(3,4)] step(2) that show ?thesis by metis
qed


definition example_client :: ClientCache where
  "example_client =
     \<lparr>cl_config = \<lparr>sv_service_name = ''s'', sv_service_config_id = ''c'', sv_producer_project_id = ''p'',
        sv_service_config = None, sv_backend_protocol = ''grpc'', sv_log_request_headers = [],
        sv_log_response_headers = [], sv_min_stream_report_interval_ms = 0, sv_log_jwt_payloads = [],
        sv_jwt_payload_metadata_name = []\<rparr>,
      cl_setting = \<lparr>hs_network_fail_open = False, hs_check_timeout_ms = 1000, hs_quota_timeout_ms = 1000,
        hs_report_timeout_ms = 2000, hs_check_retries = 3, hs_quota_retries = 1, hs_report_retries = 5\<rparr>,
      cl_uri = ''u'', cl_cluster = ''c''\<rparr>"


end
