(* ===== verification/ServiceControlTokens.thy ===== *)
theory ServiceControlTokens
  imports ClientCache AuthToken TokenCell
begin

text \<open>
  The tokens of the calls to Service Control, with their sources running
  (\<open>service_control_call_impl.cc\<close> over \<open>token_subscriber.cc\<close> and \<open>sa_token_generator.cc\<close>).

  A configuration has one of three sources: a subscriber to the metadata server; an IAM subscriber
  with a second one that gets the access token for IAM; or two generators that sign tokens with a
  service account key, one for each API. Their events come in any order. The contract
  \<open>token_cell\<close> is interpreted for the three subscribers.

  In every run the token of a call is the latest one delivered, and comes from the configured
  source; a token signed for one API is never used for the other.
\<close>

section \<open>Events\<close>

fun deliver_both :: "string option \<Rightarrow> 'd ServiceControlCall \<Rightarrow> 'd ServiceControlCall" where
  "deliver_both None scc = scc"
| "deliver_both (Some token) scc = both_tokens_callback token scc"

fun deliver_iam_access :: "string option \<Rightarrow> 'd ServiceControlCall \<Rightarrow> 'd ServiceControlCall" where
  "deliver_iam_access None scc = scc"
| "deliver_iam_access (Some token) scc = iam_access_token_callback token scc"

definition start_call :: "'t token_env \<Rightarrow> 'd ServiceControlCall \<Rightarrow> 'd ServiceControlCall" where
  "start_call env scc =
     scc\<lparr>scc_imds_token_sub := map_option (refresh env []) (scc_imds_token_sub scc),
         scc_access_token_sub := map_option (refresh env []) (scc_access_token_sub scc),
         scc_iam_token_sub := map_option (refresh env (scc_access_token_for_iam scc)) (scc_iam_token_sub scc)\<rparr>"

inductive sc_imds_event ::
    "'t token_env \<Rightarrow> string \<Rightarrow> 'd ServiceControlCall \<Rightarrow> string option \<Rightarrow> 'd ServiceControlCall \<Rightarrow> bool"
  for env access_token scc out where
  sc_imds_eventI: "scc_imds_token_sub scc = Some ts \<Longrightarrow> token_step env access_token ts out ts' \<Longrightarrow>
     sc_imds_event env access_token scc out (deliver_both out (scc\<lparr>scc_imds_token_sub := Some ts'\<rparr>))"

inductive sc_access_event ::
    "'t token_env \<Rightarrow> string \<Rightarrow> 'd ServiceControlCall \<Rightarrow> string option \<Rightarrow> 'd ServiceControlCall \<Rightarrow> bool"
  for env access_token scc out where
  sc_access_eventI: "scc_access_token_sub scc = Some ts \<Longrightarrow> token_step env access_token ts out ts' \<Longrightarrow>
     sc_access_event env access_token scc out (deliver_iam_access out (scc\<lparr>scc_access_token_sub := Some ts'\<rparr>))"

inductive sc_iam_event ::
    "'t token_env \<Rightarrow> string \<Rightarrow> 'd ServiceControlCall \<Rightarrow> string option \<Rightarrow> 'd ServiceControlCall \<Rightarrow> bool"
  for env access_token scc out where
  sc_iam_eventI: "scc_iam_token_sub scc = Some ts \<Longrightarrow> token_step env access_token ts out ts' \<Longrightarrow>
     sc_iam_event env access_token scc out (deliver_both out (scc\<lparr>scc_iam_token_sub := Some ts'\<rparr>))"

inductive_cases sc_imds_eventE: "sc_imds_event env a scc out scc'"
inductive_cases sc_access_eventE: "sc_access_event env a scc out scc'"
inductive_cases sc_iam_eventE: "sc_iam_event env a scc out scc'"

text \<open>A generator runs when its posted function or its timer is due, and signs a token there and then.\<close>

inductive gen_step ::
    "'k auth_env \<Rightarrow> ServiceAccountTokenGenerator \<Rightarrow> string \<Rightarrow> ServiceAccountTokenGenerator \<Rightarrow> bool"
  for aenv gen where
  posted: "sa_posted gen \<Longrightarrow>
     ServiceAccount_posted (\<lambda>key audience. Option.bind (get_auth_token aenv stack now key audience) id) gen =
       Some (gen', token) \<Longrightarrow> gen_step aenv gen token gen'"
| timer: "sa_refresh_timer gen \<noteq> None \<Longrightarrow>
     ServiceAccount_timer (\<lambda>key audience. Option.bind (get_auth_token aenv stack now key audience) id) gen =
       Some (gen', token) \<Longrightarrow> gen_step aenv gen token gen'"

inductive_cases gen_stepE: "gen_step aenv gen token gen'"

text \<open>
  \<open>sc_tokens_run env aenv fc config ats sts qts scc\<close>: the calls for the service \<open>config\<close> can be in
  state \<open>scc\<close> after the access tokens \<open>ats\<close> for IAM, the tokens \<open>sts\<close> for checks and reports, and
  the tokens \<open>qts\<close> for quota (all latest first).
\<close>

inductive sc_tokens_run ::
    "'t token_env \<Rightarrow> 'k auth_env \<Rightarrow> ScFilterConfig \<Rightarrow> ScService
     \<Rightarrow> string list \<Rightarrow> string list \<Rightarrow> string list \<Rightarrow> 'd ServiceControlCall \<Rightarrow> bool"
  for env aenv fc config where
  start: "new_ServiceControlCall fc config = Some scc \<Longrightarrow>
     sc_tokens_run env aenv fc config [] [] [] (start_call env scc)"
| imds: "sc_tokens_run env aenv fc config ats sts qts scc \<Longrightarrow> sc_imds_event env [] scc out scc' \<Longrightarrow>
     sc_tokens_run env aenv fc config ats (push_token out sts) (push_token out qts) scc'"
| access: "sc_tokens_run env aenv fc config ats sts qts scc \<Longrightarrow> sc_access_event env [] scc out scc' \<Longrightarrow>
     sc_tokens_run env aenv fc config (push_token out ats) sts qts scc'"
| iam: "sc_tokens_run env aenv fc config ats sts qts scc \<Longrightarrow>
     sc_iam_event env (scc_access_token_for_iam scc) scc out scc' \<Longrightarrow>
     sc_tokens_run env aenv fc config ats (push_token out sts) (push_token out qts) scc'"
| sc_gen: "sc_tokens_run env aenv fc config ats sts qts scc \<Longrightarrow> scc_sc_token_gen scc = Some gen \<Longrightarrow>
     gen_step aenv gen token gen' \<Longrightarrow>
     sc_tokens_run env aenv fc config ats (token # sts) qts
       (sc_token_callback token (scc\<lparr>scc_sc_token_gen := Some gen'\<rparr>))"
| quota_gen: "sc_tokens_run env aenv fc config ats sts qts scc \<Longrightarrow> scc_quota_token_gen scc = Some gen \<Longrightarrow>
     gen_step aenv gen token gen' \<Longrightarrow>
     sc_tokens_run env aenv fc config ats sts (token # qts)
       (quota_token_callback token (scc\<lparr>scc_quota_token_gen := Some gen'\<rparr>))"

section \<open>The contract of the subscribers\<close>

definition both_tokens :: "'d ServiceControlCall \<Rightarrow> string option \<times> string option" where
  "both_tokens scc = (tl_sc_token (scc_tls scc), tl_quota_token (scc_tls scc))"

definition stored_both :: "string option \<Rightarrow> string option \<times> string option" where
  "stored_both out = (out, out)"

lemmas callback_defs = both_tokens_callback_def sc_token_callback_def quota_token_callback_def
  iam_access_token_callback_def set_sc_token_def set_quota_token_def

lemma deliver_both_sel [simp]:
  "scc_imds_token_sub (deliver_both out scc) = scc_imds_token_sub scc"
  "scc_access_token_sub (deliver_both out scc) = scc_access_token_sub scc"
  "scc_iam_token_sub (deliver_both out scc) = scc_iam_token_sub scc"
  "scc_sc_token_gen (deliver_both out scc) = scc_sc_token_gen scc"
  "scc_quota_token_gen (deliver_both out scc) = scc_quota_token_gen scc"
  "scc_access_token_for_iam (deliver_both out scc) = scc_access_token_for_iam scc"
  "both_tokens (deliver_both out scc) = (case out of None \<Rightarrow> both_tokens scc | Some t \<Rightarrow> (Some t, Some t))"
  by (cases out; simp add: callback_defs both_tokens_def)+

lemma deliver_iam_access_sel [simp]:
  "scc_imds_token_sub (deliver_iam_access out scc) = scc_imds_token_sub scc"
  "scc_access_token_sub (deliver_iam_access out scc) = scc_access_token_sub scc"
  "scc_iam_token_sub (deliver_iam_access out scc) = scc_iam_token_sub scc"
  "scc_sc_token_gen (deliver_iam_access out scc) = scc_sc_token_gen scc"
  "scc_quota_token_gen (deliver_iam_access out scc) = scc_quota_token_gen scc"
  "scc_access_token_for_iam (deliver_iam_access out scc) =
     (case out of None \<Rightarrow> scc_access_token_for_iam scc | Some t \<Rightarrow> t)"
  "both_tokens (deliver_iam_access out scc) = both_tokens scc"
  by (cases out; simp add: callback_defs both_tokens_def)+

lemma both_tokens_update [simp]:
  "both_tokens (scc\<lparr>scc_imds_token_sub := x\<rparr>) = both_tokens scc"
  "both_tokens (scc\<lparr>scc_access_token_sub := x\<rparr>) = both_tokens scc"
  "both_tokens (scc\<lparr>scc_iam_token_sub := x\<rparr>) = both_tokens scc"
  by (simp_all add: both_tokens_def)

declare deliver_both.simps [simp del] deliver_iam_access.simps [simp del]

interpretation sc_imds: token_cell env scc_imds_token_sub both_tokens stored_both "sc_imds_event env"
  by unfold_locales (auto elim!: sc_imds_eventE simp: stored_both_def split: option.splits)

interpretation sc_access: token_cell env scc_access_token_sub scc_access_token_for_iam stored_access
    "sc_access_event env"
  by unfold_locales (auto elim!: sc_access_eventE simp: stored_access_def split: option.splits)

interpretation sc_iam: token_cell env scc_iam_token_sub both_tokens stored_both "sc_iam_event env"
  by unfold_locales (auto elim!: sc_iam_eventE simp: stored_both_def split: option.splits)

section \<open>The invariant\<close>

text \<open>A token that a generator may have signed, for its own audience.\<close>

definition signed_by :: "'k auth_env \<Rightarrow> ServiceAccountTokenGenerator \<Rightarrow> string \<Rightarrow> bool" where
  "signed_by aenv gen token \<longleftrightarrow>
     (\<exists>stack now. get_auth_token aenv stack now (sa_service_account_key gen) (sa_audience gen) = Some (Some token))"

lemma gen_step_signed:
  "gen_step aenv gen token gen' \<Longrightarrow> signed_by aenv gen token \<and>
   sa_service_account_key gen' = sa_service_account_key gen \<and> sa_audience gen' = sa_audience gen"
  by (erule gen_stepE)
    (auto simp: ServiceAccount_posted_def ServiceAccount_timer_def ServiceAccount_refresh_def signed_by_def
      bind_eq_Some_conv split: option.splits)

definition gen_holds ::
    "'k auth_env \<Rightarrow> ServiceAccountTokenGenerator option \<Rightarrow> string list \<Rightarrow> ServiceAccountTokenGenerator option \<Rightarrow> bool"
  where
  "gen_holds aenv gen0 toks gen =
     (case gen0 of
        None \<Rightarrow> gen = None
      | Some g0 \<Rightarrow> (\<exists>g. gen = Some g \<and> sa_service_account_key g = sa_service_account_key g0 \<and>
          sa_audience g = sa_audience g0) \<and> (\<forall>t\<in>set toks. signed_by aenv g0 t))"

lemma gen_holds_start: "gen_holds aenv gen [] gen"
  by (simp add: gen_holds_def split: option.splits)

lemma gen_holds_step:
  assumes "gen_holds aenv gen0 toks (Some gen)" "gen_step aenv gen token gen'"
  shows "gen_holds aenv gen0 (token # toks) (Some gen')"
  using assms gen_step_signed [OF assms(2)]
  by (auto simp: gen_holds_def signed_by_def split: option.splits)

definition sc_tokens_inv ::
    "'t token_env \<Rightarrow> 'k auth_env \<Rightarrow> 'd ServiceControlCall \<Rightarrow> string list \<Rightarrow> string list \<Rightarrow> string list
     \<Rightarrow> 'd ServiceControlCall \<Rightarrow> bool" where
  "sc_tokens_inv env aenv scc0 ats sts qts scc \<longleftrightarrow>
     both_tokens scc = (latest sts, latest qts) \<and> (scc_sc_token_gen scc0 = None \<longrightarrow> sts = qts) \<and>
     scc_access_token_for_iam scc = stored_access (latest ats) \<and>
     sub_holds env stored_access (scc_access_token_sub scc0) UNIV ats (scc_access_token_sub scc)
       (scc_access_token_for_iam scc) \<and>
     sub_holds env stored_both (scc_imds_token_sub scc0) UNIV sts (scc_imds_token_sub scc) (both_tokens scc) \<and>
     sub_holds env stored_both (scc_iam_token_sub scc0) (insert [] (set ats)) sts (scc_iam_token_sub scc)
       (both_tokens scc) \<and>
     gen_holds aenv (scc_sc_token_gen scc0) sts (scc_sc_token_gen scc) \<and>
     gen_holds aenv (scc_quota_token_gen scc0) qts (scc_quota_token_gen scc)"

text \<open>The sources that the constructor creates: exactly those of its configuration.\<close>

definition created_sources :: "ScFilterConfig \<Rightarrow> 'd ServiceControlCall \<Rightarrow> bool" where
  "created_sources fc scc \<longleftrightarrow> both_tokens scc = (None, None) \<and> scc_access_token_for_iam scc = [] \<and>
     (case sf_access_token fc of
        ScImdsToken uri cluster \<Rightarrow>
          scc_imds_token_sub scc = Some (createImdsTokenSubscriber AccessToken cluster uri) \<and>
          scc_access_token_sub scc = None \<and> scc_iam_token_sub scc = None \<and>
          scc_sc_token_gen scc = None \<and> scc_quota_token_gen scc = None
      | ScServiceAccountSecret key \<Rightarrow>
          scc_sc_token_gen scc = Some (createServiceAccountTokenGenerator key
            (sf_service_control_uri fc @ kServiceControlService)) \<and>
          scc_quota_token_gen scc = Some (createServiceAccountTokenGenerator key
            (sf_service_control_uri fc @ kQuotaControlService)) \<and>
          scc_imds_token_sub scc = None \<and> scc_access_token_sub scc = None \<and> scc_iam_token_sub scc = None
      | ScIamToken uri cluster (RemoteToken auri acluster) delegates \<Rightarrow>
          scc_access_token_sub scc = Some (createImdsTokenSubscriber AccessToken acluster auri) \<and>
          scc_iam_token_sub scc = Some (createIamTokenSubscriber AccessToken cluster uri delegates [kServiceControlScope]) \<and>
          scc_imds_token_sub scc = None \<and> scc_sc_token_gen scc = None \<and> scc_quota_token_gen scc = None
      | ScIamToken uri cluster OtherAccessToken delegates \<Rightarrow> False
      | ScNoAccessToken \<Rightarrow>
          scc_imds_token_sub scc = None \<and> scc_access_token_sub scc = None \<and> scc_iam_token_sub scc = None \<and>
          scc_sc_token_gen scc = None \<and> scc_quota_token_gen scc = None)"

lemma new_ServiceControlCall_sources: "new_ServiceControlCall fc config = Some scc \<Longrightarrow> created_sources fc scc"
  by (auto simp: new_ServiceControlCall_def created_sources_def both_tokens_def createImdsTokenSub_def
      createTokenGen_def createIamTokenSub_def Let_def
      split: option.splits sc_access_token.splits access_token_source.splits)

lemma created_sources_cases:
  assumes "created_sources fc scc"
  shows "scc_imds_token_sub scc \<noteq> None \<Longrightarrow> scc_iam_token_sub scc = None"
    "scc_imds_token_sub scc \<noteq> None \<or> scc_iam_token_sub scc \<noteq> None \<Longrightarrow>
       scc_sc_token_gen scc = None \<and> scc_quota_token_gen scc = None"
    "scc_sc_token_gen scc = None \<longleftrightarrow> scc_quota_token_gen scc = None"
    "scc_imds_token_sub scc = Some ts \<Longrightarrow> fresh_subscriber ts"
    "scc_access_token_sub scc = Some ts \<Longrightarrow> fresh_subscriber ts"
    "scc_iam_token_sub scc = Some ts \<Longrightarrow> fresh_subscriber ts"
    "scc_sc_token_gen scc \<noteq> None \<Longrightarrow> scc_imds_token_sub scc = None \<and> scc_iam_token_sub scc = None"
  using assms
  by (auto simp: created_sources_def split: sc_access_token.splits access_token_source.splits)

lemma sc_tokens_inv_start:
  assumes "created_sources fc scc"
  shows "sc_tokens_inv env aenv scc [] [] [] (start_call env scc)"
proof -
  have "both_tokens scc = (None, None)" "scc_access_token_for_iam scc = []"
    using assms by (simp_all add: created_sources_def)
  moreover from this(1) have "both_tokens (start_call env scc) = (None, None)"
    by (simp add: both_tokens_def start_call_def)
  ultimately show ?thesis
    using created_sources_cases(4-6) [OF assms]
    by (auto simp: sc_tokens_inv_def start_call_def stored_access_def stored_both_def gen_holds_start
        intro!: sub_holds_start)
qed

lemma sc_tokens_invD:
  assumes "sc_tokens_inv env aenv scc0 ats sts qts scc"
  shows "both_tokens scc = (latest sts, latest qts)" "scc_sc_token_gen scc0 = None \<Longrightarrow> sts = qts"
    "scc_access_token_for_iam scc = stored_access (latest ats)"
    "sub_holds env stored_access (scc_access_token_sub scc0) UNIV ats (scc_access_token_sub scc)
       (scc_access_token_for_iam scc)"
    "sub_holds env stored_both (scc_imds_token_sub scc0) UNIV sts (scc_imds_token_sub scc) (both_tokens scc)"
    "sub_holds env stored_both (scc_iam_token_sub scc0) (insert [] (set ats)) sts (scc_iam_token_sub scc)
       (both_tokens scc)"
    "gen_holds aenv (scc_sc_token_gen scc0) sts (scc_sc_token_gen scc)"
    "gen_holds aenv (scc_quota_token_gen scc0) qts (scc_quota_token_gen scc)"
  using assms unfolding sc_tokens_inv_def by blast+

lemma sub_holds_absent: "sub_holds env stored None A toks sub c \<longleftrightarrow> sub = None"
  by (simp add: sub_holds_def)

lemma sub_holds_cell: "cell_holds env stored ts0 A toks sub c \<Longrightarrow> sub_holds env stored (Some ts0) A toks sub c"
  by (simp add: sub_holds_def)

lemma gen_holds_absent: "gen_holds aenv None toks gen \<longleftrightarrow> gen = None"
  by (simp add: gen_holds_def)

lemma sc_inv_imds:
  assumes src: "created_sources fc scc0" and inv: "sc_tokens_inv env aenv scc0 ats sts qts scc"
    and e: "sc_imds_event env a scc out scc'"
  shows "sc_tokens_inv env aenv scc0 ats (push_token out sts) (push_token out qts) scc'"
proof -
  note i = sc_tokens_invD [OF inv]
  obtain ts0 where ts0: "scc_imds_token_sub scc0 = Some ts0"
    "cell_holds env stored_both ts0 UNIV sts (scc_imds_token_sub scc) (both_tokens scc)"
    using sc_imds.event_sub [OF e] by (auto intro: sub_holds_SomeE [OF i(5)])
  have h: "cell_holds env stored_both ts0 UNIV (push_token out sts) (scc_imds_token_sub scc') (both_tokens scc')"
    by (rule sc_imds.event_holds [OF ts0(2) e]) simp
  have absent: "scc_iam_token_sub scc0 = None" "scc_sc_token_gen scc0 = None" "scc_quota_token_gen scc0 = None"
    using created_sources_cases(1,2) [OF src] ts0(1) by auto
  have frame: "scc_access_token_sub scc' = scc_access_token_sub scc" "scc_iam_token_sub scc' = scc_iam_token_sub scc"
    "scc_access_token_for_iam scc' = scc_access_token_for_iam scc" "scc_sc_token_gen scc' = scc_sc_token_gen scc"
    "scc_quota_token_gen scc' = scc_quota_token_gen scc"
    using e by (auto elim!: sc_imds_eventE)
  show ?thesis
    using i(2-8) h cell_holds_cell [OF h] absent ts0(1)
    by (auto simp: sc_tokens_inv_def frame sub_holds_absent gen_holds_absent stored_both_def sub_holds_cell)
qed

lemma sc_inv_iam:
  assumes src: "created_sources fc scc0" and inv: "sc_tokens_inv env aenv scc0 ats sts qts scc"
    and e: "sc_iam_event env (scc_access_token_for_iam scc) scc out scc'"
  shows "sc_tokens_inv env aenv scc0 ats (push_token out sts) (push_token out qts) scc'"
proof -
  note i = sc_tokens_invD [OF inv]
  have acc: "scc_access_token_for_iam scc \<in> insert [] (set ats)" unfolding i(3) by (rule stored_access_in)
  obtain ts0 where ts0: "scc_iam_token_sub scc0 = Some ts0"
    "cell_holds env stored_both ts0 (insert [] (set ats)) sts (scc_iam_token_sub scc) (both_tokens scc)"
    using sc_iam.event_sub [OF e] by (auto intro: sub_holds_SomeE [OF i(6)])
  have h: "cell_holds env stored_both ts0 (insert [] (set ats)) (push_token out sts) (scc_iam_token_sub scc') (both_tokens scc')"
    by (rule sc_iam.event_holds [OF ts0(2) e acc])
  have absent: "scc_imds_token_sub scc0 = None" "scc_sc_token_gen scc0 = None" "scc_quota_token_gen scc0 = None"
    using created_sources_cases(1,2) [OF src] ts0(1) by (cases "scc_imds_token_sub scc0"; auto)+
  have frame: "scc_access_token_sub scc' = scc_access_token_sub scc" "scc_imds_token_sub scc' = scc_imds_token_sub scc"
    "scc_access_token_for_iam scc' = scc_access_token_for_iam scc" "scc_sc_token_gen scc' = scc_sc_token_gen scc"
    "scc_quota_token_gen scc' = scc_quota_token_gen scc"
    using e by (auto elim!: sc_iam_eventE)
  show ?thesis
    using i(2-8) h cell_holds_cell [OF h] absent ts0(1)
    by (auto simp: sc_tokens_inv_def frame sub_holds_absent gen_holds_absent stored_both_def sub_holds_cell)
qed

lemma sc_inv_access:
  assumes inv: "sc_tokens_inv env aenv scc0 ats sts qts scc" and e: "sc_access_event env a scc out scc'"
  shows "sc_tokens_inv env aenv scc0 (push_token out ats) sts qts scc'"
proof -
  note i = sc_tokens_invD [OF inv]
  obtain ts0 where ts0: "scc_access_token_sub scc0 = Some ts0"
    "cell_holds env stored_access ts0 UNIV ats (scc_access_token_sub scc) (scc_access_token_for_iam scc)"
    using sc_access.event_sub [OF e] by (auto intro: sub_holds_SomeE [OF i(4)])
  have h: "cell_holds env stored_access ts0 UNIV (push_token out ats) (scc_access_token_sub scc') (scc_access_token_for_iam scc')"
    by (rule sc_access.event_holds [OF ts0(2) e]) simp
  have frame: "scc_imds_token_sub scc' = scc_imds_token_sub scc" "scc_iam_token_sub scc' = scc_iam_token_sub scc"
    "both_tokens scc' = both_tokens scc" "scc_sc_token_gen scc' = scc_sc_token_gen scc"
    "scc_quota_token_gen scc' = scc_quota_token_gen scc"
    using e by (auto elim!: sc_access_eventE)
  have "insert [] (set ats) \<subseteq> insert [] (set (push_token out ats))" using set_push_token by blast
  from sub_holds_mono [OF i(6) this] i(1,2,5,7,8) h cell_holds_cell [OF h] ts0(1) show ?thesis
    unfolding sc_tokens_inv_def frame by (simp add: sub_holds_cell)
qed

lemma sc_inv_sc_gen:
  assumes src: "created_sources fc scc0" and inv: "sc_tokens_inv env aenv scc0 ats sts qts scc"
    and g: "scc_sc_token_gen scc = Some gen" "gen_step aenv gen token gen'"
  shows "sc_tokens_inv env aenv scc0 ats (token # sts) qts (sc_token_callback token (scc\<lparr>scc_sc_token_gen := Some gen'\<rparr>))"
proof -
  note i = sc_tokens_invD [OF inv]
  have "scc_sc_token_gen scc0 \<noteq> None" using i(7) g(1) by (cases "scc_sc_token_gen scc0") (auto simp: gen_holds_absent)
  then have absent: "scc_imds_token_sub scc0 = None" "scc_iam_token_sub scc0 = None"
    using created_sources_cases(7) [OF src] by simp_all
  with i \<open>scc_sc_token_gen scc0 \<noteq> None\<close> gen_holds_step [OF i(7) [unfolded g(1)] g(2)] show ?thesis
    by (auto simp: sc_tokens_inv_def callback_defs both_tokens_def sub_holds_absent)
qed

lemma sc_inv_quota_gen:
  assumes src: "created_sources fc scc0" and inv: "sc_tokens_inv env aenv scc0 ats sts qts scc"
    and g: "scc_quota_token_gen scc = Some gen" "gen_step aenv gen token gen'"
  shows "sc_tokens_inv env aenv scc0 ats sts (token # qts)
    (quota_token_callback token (scc\<lparr>scc_quota_token_gen := Some gen'\<rparr>))"
proof -
  note i = sc_tokens_invD [OF inv]
  have q: "scc_quota_token_gen scc0 \<noteq> None" using i(8) g(1) by (cases "scc_quota_token_gen scc0") (auto simp: gen_holds_absent)
  then have absent: "scc_imds_token_sub scc0 = None" "scc_iam_token_sub scc0 = None" "scc_sc_token_gen scc0 \<noteq> None"
    using created_sources_cases(3,7) [OF src] by simp_all
  with i gen_holds_step [OF i(8) [unfolded g(1)] g(2)] show ?thesis
    by (auto simp: sc_tokens_inv_def callback_defs both_tokens_def sub_holds_absent)
qed

lemma sc_tokens_run_inv:
  "sc_tokens_run env aenv fc config ats sts qts scc \<Longrightarrow>
   \<exists>scc0. created_sources fc scc0 \<and> sc_tokens_inv env aenv scc0 ats sts qts scc"
  by (induction rule: sc_tokens_run.induct)
    (blast intro: new_ServiceControlCall_sources sc_tokens_inv_start sc_inv_imds sc_inv_iam sc_inv_access
      sc_inv_sc_gen sc_inv_quota_gen)+

section \<open>Properties\<close>

text \<open>Where a token for one of the two APIs may come from.\<close>

definition token_from ::
    "'t token_env \<Rightarrow> 'k auth_env \<Rightarrow> ScFilterConfig \<Rightarrow> string \<Rightarrow> string \<Rightarrow> bool" where
  "token_from env aenv fc service token \<longleftrightarrow>
     (case sf_access_token fc of
        ScImdsToken uri cluster \<Rightarrow>
          \<exists>body res. parse_token env (createImdsTokenSubscriber AccessToken cluster uri) body = Some res \<and> tr_token res = token
      | ScIamToken uri cluster _ delegates \<Rightarrow>
          \<exists>body res. parse_token env (createIamTokenSubscriber AccessToken cluster uri delegates [kServiceControlScope]) body =
            Some res \<and> tr_token res = token
      | ScServiceAccountSecret key \<Rightarrow>
          \<exists>stack now. get_auth_token aenv stack now key (sf_service_control_uri fc @ service) = Some (Some token)
      | ScNoAccessToken \<Rightarrow> False)"

lemma sub_holds_tokens:
  "sub_holds env stored (Some ts0) A toks sub c \<Longrightarrow> t \<in> set toks \<Longrightarrow>
   \<exists>body res. parse_token env ts0 body = Some res \<and> tr_token res = t"
  using cell_holds_tokens by (auto simp: sub_holds_def)

lemma no_source_no_token:
  assumes "sc_tokens_run env aenv fc config ats sts qts scc" "sf_access_token fc = ScNoAccessToken"
  shows "sts = [] \<and> qts = []"
  using assms
proof (induction rule: sc_tokens_run.induct)
  case (imds ats sts qts scc out scc')
  then show ?case
    using sc_tokens_run_inv [OF imds(1)] sc_imds.event_sub [OF imds(2)]
    by (auto simp: created_sources_def sc_tokens_inv_def sub_holds_absent)
next
  case (iam ats sts qts scc out scc')
  then show ?case
    using sc_tokens_run_inv [OF iam(1)] sc_iam.event_sub [OF iam(2)]
    by (auto simp: created_sources_def sc_tokens_inv_def sub_holds_absent)
next
  case (sc_gen ats sts qts scc gen token gen')
  then show ?case
    using sc_tokens_run_inv [OF sc_gen(1)] by (auto simp: created_sources_def sc_tokens_inv_def gen_holds_absent)
next
  case (quota_gen ats sts qts scc gen token gen')
  then show ?case
    using sc_tokens_run_inv [OF quota_gen(1)] by (auto simp: created_sources_def sc_tokens_inv_def gen_holds_absent)
qed simp_all

lemma sc_tokens_from:
  assumes "sc_tokens_run env aenv fc config ats sts qts scc"
  shows "t \<in> set sts \<Longrightarrow> token_from env aenv fc kServiceControlService t"
    "t \<in> set qts \<Longrightarrow> token_from env aenv fc kQuotaControlService t"
proof -
  obtain scc0 where src: "created_sources fc scc0" and inv: "sc_tokens_inv env aenv scc0 ats sts qts scc"
    using sc_tokens_run_inv [OF assms] by blast
  note i = sc_tokens_invD [OF inv]
  note sel = createServiceAccountTokenGenerator_def new_ServiceAccountTokenGenerator_def
  show "token_from env aenv fc kServiceControlService t" if "t \<in> set sts"
    using src i(5-7) sub_holds_tokens no_source_no_token [OF assms] that
    by (auto simp: created_sources_def token_from_def gen_holds_def signed_by_def sel
        split: sc_access_token.splits access_token_source.splits)
  show "token_from env aenv fc kQuotaControlService t" if "t \<in> set qts"
    using src i(2,5,6,8) sub_holds_tokens no_source_no_token [OF assms] that
    by (auto simp: created_sources_def token_from_def gen_holds_def signed_by_def sel
        split: sc_access_token.splits access_token_source.splits)
qed

lemma sc_tokens_ready:
  assumes "sc_tokens_run env aenv fc config ats sts qts scc"
    "scc_imds_token_sub scc = Some ts \<or> scc_iam_token_sub scc = Some ts" "ts_init_ready ts"
  shows "sts \<noteq> [] \<and> qts = sts"
proof -
  obtain scc0 where src: "created_sources fc scc0" and inv: "sc_tokens_inv env aenv scc0 ats sts qts scc"
    using sc_tokens_run_inv [OF assms(1)] by blast
  note i = sc_tokens_invD [OF inv]
  obtain ts0 A where h: "cell_holds env stored_both ts0 A sts (Some ts) (both_tokens scc)"
    and "scc_imds_token_sub scc0 \<noteq> None \<or> scc_iam_token_sub scc0 \<noteq> None"
    using i(5,6) assms(2) by (auto simp: sub_holds_def split: option.splits)
  then have "scc_sc_token_gen scc0 = None" using created_sources_cases(2) [OF src] by blast
  with i(2) cell_holds_ready [OF h] assms(3) show ?thesis by simp
qed

definition bearer_of :: "RequestMessage \<Rightarrow> string option" where
  "bearer_of m = map_of (rm_headers m) kAuthorization"

lemma HttpCall_call_bearer:
  assumes "hc_request hc = None"
  shows "map_option bearer_of (hc_request (HttpCall_call token hc)) =
    (if token = [] then None else Some (Some (''Bearer '' @ token)))"
  using assms
  by (simp add: http_call_defs HttpCall_prepareHeaders_def bearer_of_def kPath_def kHost_def kMethod_def
      kAuthorization_def)

lemma tls_tokens:
  assumes "sc_tokens_run env aenv fc config ats sts qts scc"
  shows "sc_token (scc_tls scc) = stored_access (latest sts)" "quota_token (scc_tls scc) = stored_access (latest qts)"
  using sc_tokens_run_inv [OF assms]
  by (auto simp: sc_tokens_inv_def both_tokens_def sc_token_def quota_token_def stored_access_def)


text \<open>A configuration with the metadata server, and its first answer.\<close>

definition imds_sc_config :: ScFilterConfig where
  "imds_sc_config =
     \<lparr>sf_services = [cl_config example_client], sf_requirements = [], sf_gcp_attributes = None,
      sf_access_token = ScImdsToken ''uri'' ''c'', sf_sc_calling_config = None,
      sf_service_control_uri = ''u'', sf_service_control_cluster = ''c''\<rparr>"

definition imds_call :: "unit ServiceControlCall" where
  "imds_call = start_call sample_env (the (new_ServiceControlCall imds_sc_config (cl_config example_client)))"

definition imds_call_answered :: "unit ServiceControlCall" where
  "imds_call_answered = deliver_both (Some ''tok'') (imds_call\<lparr>scc_imds_token_sub :=
     Some (fst (TokenSubscriber_onSuccess sample_env [] \<lparr>rs_status = Some 200, rs_body = ''tok''\<rparr>
       (the (scc_imds_token_sub imds_call))))\<rparr>)"

lemma imds_call_facts:
  "scc_imds_token_sub imds_call = Some (refresh sample_env [] (createImdsTokenSubscriber AccessToken ''c'' ''uri''))"
  "new_ServiceControlCall imds_sc_config (cl_config example_client) =
     Some (the (new_ServiceControlCall imds_sc_config (cl_config example_client)) :: unit ServiceControlCall)"
  "ts_active_request (refresh sample_env [] (createImdsTokenSubscriber AccessToken ''c'' ''uri'')) \<noteq> None"
  "snd (TokenSubscriber_onSuccess sample_env [] \<lparr>rs_status = Some 200, rs_body = ''tok''\<rparr>
     (refresh sample_env [] (createImdsTokenSubscriber AccessToken ''c'' ''uri''))) = Some ''tok''"
proof -
  show "scc_imds_token_sub imds_call = Some (refresh sample_env [] (createImdsTokenSubscriber AccessToken ''c'' ''uri''))"
    "new_ServiceControlCall imds_sc_config (cl_config example_client) =
     Some (the (new_ServiceControlCall imds_sc_config (cl_config example_client)) :: unit ServiceControlCall)"
    by (simp_all add: imds_call_def start_call_def new_ServiceControlCall_def make_request_builder_def
        imds_sc_config_def example_client_def createImdsTokenSub_def Let_def)
qed code_simp+

lemma imds_call_run:
  "sc_tokens_run sample_env example_auth_env imds_sc_config (cl_config example_client) [] [''tok''] [''tok'']
     imds_call_answered"
proof -
  let ?ts = "refresh sample_env [] (createImdsTokenSubscriber AccessToken ''c'' ''uri'')"
  have s: "sc_tokens_run sample_env example_auth_env imds_sc_config (cl_config example_client) [] [] [] imds_call"
    unfolding imds_call_def by (rule sc_tokens_run.start [OF imds_call_facts(2)])
  have "token_step sample_env [] ?ts (Some ''tok'')
      (fst (TokenSubscriber_onSuccess sample_env [] \<lparr>rs_status = Some 200, rs_body = ''tok''\<rparr> ?ts))"
    using imds_call_facts(3,4)
    by (intro token_step.response [where response = "\<lparr>rs_status = Some 200, rs_body = ''tok''\<rparr>"])
      (simp_all add: prod_eq_iff)
  from sc_imds_eventI [OF imds_call_facts(1) this]
  have "sc_imds_event sample_env [] imds_call (Some ''tok'') imds_call_answered"
    by (simp add: imds_call_answered_def imds_call_facts(1))
  from sc_tokens_run.imds [OF s this] show ?thesis by simp
qed


end
