(* ===== verification/ServiceControlHandler.thy ===== *)
theory ServiceControlHandler
  imports HandlerUtils ClientCache
begin

text \<open>
  The Service Control handler of one request (\<open>envoy/http/service_control/handler_impl.cc\<close>):
  it decides which calls a request needs, makes them one after the other, and writes the reports.

  Where the code calls the filter or a client, the model returns the call as an action: every
  path of \<open>callCheck\<close>, \<open>callQuota\<close> and \<open>onCheckResponse\<close> ends in exactly one. The
  completion functions that the client keeps are \<open>check_answered\<close> and \<open>quota_answered\<close>.
  \<open>None\<close> for a report is a dereferenced null pointer. Times are nanoseconds.
\<close>

section \<open>State\<close>

definition kConsumerProjectId :: string where "kConsumerProjectId = ''x-endpoint-api-project-id''"
definition kIosBundleIdHeader :: string where "kIosBundleIdHeader = ''x-ios-bundle-identifier''"
definition kAndroidPackageHeader :: string where "kAndroidPackageHeader = ''x-android-package''"
definition kAndroidCertHeader :: string where "kAndroidCertHeader = ''x-android-cert''"
definition kRefererHeader :: string where "kRefererHeader = ''referer''"
definition JwtPayloadIssuerPath :: string where "JwtPayloadIssuerPath = ''iss''"
definition JwtPayloadAuidencePath :: string where "JwtPayloadAuidencePath = ''aud''"

text \<open>\<open>h_frontend_protocol\<close> is \<open>None\<close> until it is set: the constructor does not initialise it.\<close>

record Handler =
  h_require_ctx :: "RequirementContext option"
  h_path :: string
  h_http_method :: string
  h_uuid :: string
  h_api_key :: string
  h_check_response_info :: CheckResponseInfo
  h_check_status :: Status
  h_cancel_fn :: bool
  h_on_check_done_called :: bool
  h_request_header_size :: int
  h_response_header_size :: int
  h_frontend_protocol :: "Protocol option"
  h_is_grpc :: bool
  h_is_first_report :: bool
  h_last_reported :: int

definition key_locations :: "ScConfigParser \<Rightarrow> string \<Rightarrow> ApiKeyLocation list" where
  "key_locations p operation =
     (if operation = [] then akr_locations (scp_default_api_keys p)
      else case FindRequirement p operation of
             None \<Rightarrow> akr_locations (scp_default_api_keys p)
           | Some rc \<Rightarrow>
               if length (akr_locations (rq_api_key (rc_config rc))) > 0
               then akr_locations (rq_api_key (rc_config rc))
               else akr_locations (scp_default_api_keys p))"

definition new_Handler ::
    "handler_env \<Rightarrow> ScConfigParser \<Rightarrow> stream \<Rightarrow> string \<Rightarrow> int \<Rightarrow> Handler" where
  "new_Handler env p s uuid now =
     (let hs = req_headers s;
          operation = getStringFilterState s kOperation
      in \<lparr>h_require_ctx = (if operation = [] then None else FindRequirement p operation),
          h_path = readHeaderEntry (header_get kPath hs),
          h_http_method = getRequestHTTPMethodWithOverride (readHeaderEntry (header_get kMethod hs)) hs,
          h_uuid = uuid,
          h_api_key = snd (extractAPIKey env hs (key_locations p operation) []),
          h_check_response_info = new_CheckResponseInfo,
          h_check_status = Status_OK,
          h_cancel_fn = False, h_on_check_done_called = False,
          h_request_header_size = byteSize env hs, h_response_header_size = 0,
          h_frontend_protocol = None,
          h_is_grpc = hasGrpcContentType env hs, h_is_first_report = True, h_last_reported = now\<rparr>)"

definition isConfigured :: "Handler \<Rightarrow> bool" where
  "isConfigured h \<longleftrightarrow> h_require_ctx h \<noteq> None"

definition isQuotaRequired :: "RequirementContext \<Rightarrow> bool" where
  "isQuotaRequired rc \<longleftrightarrow> \<not> rq_skip_service_control (rc_config rc) \<and> rq_metric_costs (rc_config rc) \<noteq> []"

definition isCheckRequired :: "RequirementContext \<Rightarrow> bool" where
  "isCheckRequired rc \<longleftrightarrow> \<not> akr_allow_without_api_key (rq_api_key (rc_config rc)) \<and>
     \<not> rq_skip_service_control (rc_config rc)"

definition isReportRequired :: "RequirementContext \<Rightarrow> bool" where
  "isReportRequired rc \<longleftrightarrow> \<not> rq_skip_service_control (rc_config rc)"

definition hasApiKey :: "Handler \<Rightarrow> bool" where
  "hasApiKey h \<longleftrightarrow> h_api_key h \<noteq> []"

definition fillOperationInfo ::
    "RequirementContext \<Rightarrow> StreamInfo \<Rightarrow> Handler \<Rightarrow> int \<Rightarrow> 'a OperationInfo_scheme \<Rightarrow> 'a OperationInfo_scheme" where
  "fillOperationInfo rc si h now info =
     info\<lparr>operation_id := h_uuid h,
          operation_name := rq_operation_name (rc_config rc),
          producer_project_id := sv_producer_project_id (sc_config (rc_service_ctx rc)),
          current_time := now,
          client_ip := si_client_ip si,
          api_key := h_api_key h\<rparr>"

section \<open>Check and quota\<close>

datatype check_action = CheckDone Status | SendCheck CheckRequestInfo | SendQuota QuotaRequestInfo

definition new_QuotaRequestInfo :: QuotaRequestInfo where
  "new_QuotaRequestInfo =
     \<lparr>operation_id = [], operation_name = [], producer_project_id = [], api_key = [], referer = [],
      current_time = 0, client_ip = [], client_host = [], method_name = [], metric_cost_vector = None\<rparr>"

definition callQuota :: "RequirementContext \<Rightarrow> StreamInfo \<Rightarrow> int \<Rightarrow> Handler \<Rightarrow> Handler \<times> check_action" where
  "callQuota rc si now h =
     (if \<not> isQuotaRequired rc then (h, CheckDone (h_check_status h))
      else
        (h, SendQuota ((fillOperationInfo rc si h now new_QuotaRequestInfo)
              \<lparr>method_name := rq_operation_name (rc_config rc), metric_cost_vector := Some (rc_metric_costs rc)\<rparr>)))"

definition unregistered_caller :: Status where
  "unregistered_caller = Status_of UNAUTHENTICATED
     (''Method doesn't allow unregistered callers (callers without '' @
      ''established identity). Please use API Key or other form of '' @
      ''API consumer identity to call this API.'')"

definition callCheck :: "StreamInfo \<Rightarrow> headers \<Rightarrow> int \<Rightarrow> Handler \<Rightarrow> Handler \<times> check_action" where
  "callCheck si hs now h =
     (case h_require_ctx h of
        None \<Rightarrow> (h, CheckDone (Status_of NOT_FOUND ''Method does not exist.''))
      | Some rc \<Rightarrow>
          if \<not> isCheckRequired rc then callQuota rc si now h
          else if \<not> hasApiKey h then
            (h\<lparr>h_check_status := unregistered_caller\<rparr>, CheckDone unregistered_caller)
          else
            (h\<lparr>h_on_check_done_called := False, h_cancel_fn := True\<rparr>,
             SendCheck ((fillOperationInfo rc si h now new_CheckRequestInfo)
               \<lparr>ios_bundle_id := extractHeader hs kIosBundleIdHeader,
                referer := extractHeader hs kRefererHeader,
                android_package_name := extractHeader hs kAndroidPackageHeader,
                android_cert_fingerprint := extractHeader hs kAndroidCertHeader\<rparr>)))"

definition setReferenceKey :: "string \<Rightarrow> string \<Rightarrow> headers \<Rightarrow> headers" where
  "setReferenceKey name v hs = header_addCopy name v (header_remove name hs)"

definition onCheckResponse ::
    "RequirementContext \<Rightarrow> StreamInfo \<Rightarrow> int \<Rightarrow> headers \<Rightarrow> Status \<Rightarrow> CheckResponseInfo \<Rightarrow> Handler
     \<Rightarrow> Handler \<times> headers \<times> check_action" where
  "onCheckResponse rc si now hs status response_info h =
     (let h = h\<lparr>h_check_response_info := response_info, h_check_status := status\<rparr>;
          hs = (if consumer_project_id response_info \<noteq> []
                then setReferenceKey kConsumerProjectId (consumer_project_id response_info) hs else hs)
      in if \<not> st_ok (h_check_status h) then (h, hs, CheckDone (h_check_status h))
         else (case callQuota rc si now h of (h, action) \<Rightarrow> (h, hs, action)))"

text \<open>The completion functions given to the client by \<open>callCheck\<close> and \<open>callQuota\<close>.\<close>

definition check_answered ::
    "RequirementContext \<Rightarrow> StreamInfo \<Rightarrow> int \<Rightarrow> headers \<Rightarrow> Status \<Rightarrow> CheckResponseInfo \<Rightarrow> Handler
     \<Rightarrow> Handler \<times> headers \<times> check_action" where
  "check_answered rc si now hs status response_info h =
     onCheckResponse rc si now hs status response_info
       (h\<lparr>h_cancel_fn := False, h_on_check_done_called := True\<rparr>)"

definition quota_answered :: "Status \<Rightarrow> Handler \<Rightarrow> Handler \<times> check_action" where
  "quota_answered status h = (h\<lparr>h_check_status := status\<rparr>, CheckDone status)"

section \<open>Reports\<close>

definition prepareReportRequest ::
    "ScConfigParser \<Rightarrow> RequirementContext \<Rightarrow> StreamInfo \<Rightarrow> int \<Rightarrow> Handler \<Rightarrow> ReportRequestInfo" where
  "prepareReportRequest p rc si now h =
     (let info = fillOperationInfo rc si h now new_ReportRequestInfo;
          info = (if \<not> is_api_key_valid (h_check_response_info h) \<or> \<not> service_is_activated (h_check_response_info h)
                  then info\<lparr>api_key := []\<rparr> else info);
          operation = rq_operation_name (rc_config rc)
      in fillGCPInfo (scp_config p)
           (info\<lparr>rri_url := h_path h, http_method := h_http_method h,
                 api_method := operation, api_name := rq_api_name (rc_config rc),
                 api_version := rq_api_version (rc_config rc),
                 log_message := operation @ '' is called'',
                 check_response_info := h_check_response_info h, rri_status := h_check_status h\<rparr>))"

definition processResponseHeaders :: "handler_env \<Rightarrow> StreamInfo \<Rightarrow> headers \<Rightarrow> Handler \<Rightarrow> Handler" where
  "processResponseHeaders env si hs h =
     h\<lparr>h_frontend_protocol := Some (getFrontendProtocol (Some hs) si), h_response_header_size := byteSize env hs\<rparr>"

definition opt_byteSize :: "handler_env \<Rightarrow> headers option \<Rightarrow> int" where
  "opt_byteSize env hs = (case hs of None \<Rightarrow> 0 | Some hs \<Rightarrow> byteSize env hs)"

text \<open>The report that \<open>callReport\<close> fills, for the requirement it settled on.\<close>

definition final_report ::
    "handler_env \<Rightarrow> ScConfigParser \<Rightarrow> RequirementContext \<Rightarrow> StreamInfo \<Rightarrow> headers option \<Rightarrow> headers option
     \<Rightarrow> headers option \<Rightarrow> int \<Rightarrow> Handler \<Rightarrow> ReportRequestInfo" where
  "final_report env p rc si request_hs response_hs response_trailers now h =
     (let info = prepareReportRequest p rc si now h;
          service = sc_config (rc_service_ctx rc);
          response_header_size = opt_byteSize env response_hs + opt_byteSize env response_trailers;
          info = info\<lparr>request_headers := fillLoggedHeader request_hs (sv_log_request_headers service) (request_headers info),
                      response_headers := fillLoggedHeader response_hs (sv_log_response_headers service) (response_headers info),
                      jwt_payloads := fillJwtPayloads env (si_jwt_metadata si) (sv_jwt_payload_metadata_name service)
                        (sv_log_jwt_payloads service) (jwt_payloads info),
                      auth_issuer := fillJwtPayload (si_jwt_metadata si) (sv_jwt_payload_metadata_name service)
                        JwtPayloadIssuerPath (auth_issuer info),
                      auth_audience := fillJwtPayload (si_jwt_metadata si) (sv_jwt_payload_metadata_name service)
                        JwtPayloadAuidencePath (auth_audience info),
                      frontend_protocol := getFrontendProtocol response_hs si,
                      backend_protocol := getBackendProtocol service\<rparr>;
          info = (case request_hs of Some hs \<Rightarrow> info\<lparr>referer := extractHeader hs kRefererHeader\<rparr> | None \<Rightarrow> info);
          info = info\<lparr>latency := fillLatency si (latency info),
                      response_code := (case si_responseCode si of Some c \<Rightarrow> c | None \<Rightarrow> 500),
                      request_size := si_bytesReceived si + h_request_header_size h,
                      request_bytes := si_bytesReceived si + h_request_header_size h,
                      response_size := si_bytesSent si + response_header_size,
                      response_bytes := si_bytesSent si + response_header_size\<rparr>;
          info = (case si_grpc_stats si of
                    Some (requests, responses) \<Rightarrow>
                      info\<lparr>streaming_request_message_counts := requests,
                           streaming_response_message_counts := responses\<rparr>
                  | None \<Rightarrow> info)
      in info\<lparr>streaming_durations := (now - si_startTime si) sdiv 1000,
              is_first_report := h_is_first_report h\<rparr>)"

definition callReport ::
    "handler_env \<Rightarrow> ScConfigParser \<Rightarrow> StreamInfo \<Rightarrow> headers option \<Rightarrow> headers option \<Rightarrow> headers option
     \<Rightarrow> int \<Rightarrow> Handler \<Rightarrow> Handler \<times> ReportRequestInfo option" where
  "callReport env p si request_hs response_hs response_trailers now h =
     (let rc = (case h_require_ctx h of None \<Rightarrow> scp_non_match_rqm_ctx p | Some rc \<Rightarrow> rc);
          h = h\<lparr>h_require_ctx := Some rc\<rparr>
      in if \<not> isReportRequired rc then (h, None)
         else (h, Some (final_report env p rc si request_hs response_hs response_trailers now h)))"

definition tryIntermediateReport ::
    "handler_env \<Rightarrow> ScConfigParser \<Rightarrow> StreamInfo \<Rightarrow> int \<Rightarrow> Handler \<Rightarrow> (Handler \<times> ReportRequestInfo option) option" where
  "tryIntermediateReport env p si now h =
     (if \<not> h_is_grpc h then Some (h, None)
      else case h_require_ctx h of
             None \<Rightarrow> None
           | Some rc \<Rightarrow>
               if (now - h_last_reported h) sdiv 1000000 < sc_min_stream_report_interval_ms (rc_service_ctx rc)
               then Some (h, None)
               else
                 (let info = (prepareReportRequest p rc si now h)
                        \<lparr>request_bytes := si_bytesReceived si + h_request_header_size h,
                         response_bytes := si_bytesSent si + h_response_header_size h,
                         frontend_protocol := (case h_frontend_protocol h of
                                                 Some proto \<Rightarrow> proto | None \<Rightarrow> indeterminate_protocol env),
                         is_first_report := h_is_first_report h,
                         is_final_report := False\<rparr>
                  in Some (h\<lparr>h_last_reported := now, h_is_first_report := False\<rparr>, Some info)))"

end
