(* ===== verification/ServiceControlFilter.thy ===== *)
theory ServiceControlFilter
  imports ServiceControlHandler
begin

text \<open>
  The Service Control filter (\<open>envoy/http/service_control/filter.cc\<close>): it holds a request back
  until its handler has decided, and then lets it pass or answers it.

  The state of the filter is that of the code, with what happens to the stream: the reply, the
  number of calls of \<open>continueDecoding\<close>, and which completion function the client still holds.
  A run is any order of the callbacks in which Envoy and the client can make them; an answer
  between the beginning and the end of \<open>decodeHeaders\<close> is one that the client gives
  synchronously. The trace of a run has the answers of the client and the reports sent.

  In every reachable state the request has at most one verdict, and it passes only if every call
  that its operation requires was made and answered with success.
\<close>

section \<open>State\<close>

datatype ScState = Init | Calling | Responded | Complete

datatype awaiting = NoAnswer | CheckAnswer | QuotaAnswer

record ScFilter =
  f_handler :: "Handler option"
  f_state :: ScState
  f_stopped :: bool
  f_allowed :: nat
  f_denied :: nat
  f_continued :: nat
  f_stream :: stream
  f_awaiting :: awaiting

definition new_ScFilter :: "stream \<Rightarrow> ScFilter" where
  "new_ScFilter s =
     \<lparr>f_handler = None, f_state = Init, f_stopped = False, f_allowed = 0, f_denied = 0, f_continued = 0,
      f_stream = s, f_awaiting = NoAnswer\<rparr>"

definition kRejectedByServiceControlCheck :: string where
  "kRejectedByServiceControlCheck = ''rejected_by_service_control_check''"

section \<open>Callbacks\<close>

definition sc_rejectRequest :: "nat \<Rightarrow> string \<Rightarrow> ScFilter \<Rightarrow> ScFilter" where
  "sc_rejectRequest code error_msg f =
     f\<lparr>f_denied := f_denied f + 1, f_state := Responded,
       f_stream := setResponseFlag (sendLocalReply code error_msg kRejectedByServiceControlCheck (f_stream f))\<rparr>"

definition sc_onCheckDone :: "handler_env \<Rightarrow> Status \<Rightarrow> ScFilter \<Rightarrow> ScFilter" where
  "sc_onCheckDone env status f =
     (if \<not> st_ok status
      then sc_rejectRequest (grpcToHttpStatus env (st_code status)) (Status_ToString env status) f
      else
        (let f = f\<lparr>f_allowed := f_allowed f + 1, f_state := Complete\<rparr>
         in if f_stopped f then f\<lparr>f_continued := f_continued f + 1\<rparr> else f))"

text \<open>What the handler's last call leads to.\<close>

definition perform :: "handler_env \<Rightarrow> check_action \<Rightarrow> ScFilter \<Rightarrow> ScFilter" where
  "perform env action f =
     (case action of
        CheckDone status \<Rightarrow> sc_onCheckDone env status (f\<lparr>f_awaiting := NoAnswer\<rparr>)
      | SendCheck info \<Rightarrow> f\<lparr>f_awaiting := CheckAnswer\<rparr>
      | SendQuota info \<Rightarrow> f\<lparr>f_awaiting := QuotaAnswer\<rparr>)"

definition sc_check_answer ::
    "handler_env \<Rightarrow> StreamInfo \<Rightarrow> int \<Rightarrow> Status \<Rightarrow> CheckResponseInfo \<Rightarrow> ScFilter \<Rightarrow> ScFilter option" where
  "sc_check_answer env si now status response_info f =
     (case f_handler f of
        None \<Rightarrow> None
      | Some h \<Rightarrow>
          (case h_require_ctx h of
             None \<Rightarrow> None
           | Some rc \<Rightarrow>
               (case check_answered rc si now (req_headers (f_stream f)) status response_info h of
                  (h, hs, action) \<Rightarrow>
                    Some (perform env action
                      (f\<lparr>f_handler := Some h, f_stream := (f_stream f)\<lparr>req_headers := hs\<rparr>\<rparr>)))))"

definition sc_quota_answer :: "handler_env \<Rightarrow> Status \<Rightarrow> ScFilter \<Rightarrow> ScFilter option" where
  "sc_quota_answer env status f =
     (case f_handler f of
        None \<Rightarrow> None
      | Some h \<Rightarrow>
          (case quota_answered status h of
             (h, action) \<Rightarrow> Some (perform env action (f\<lparr>f_handler := Some h\<rparr>))))"

definition sc_headers_begin :: "handler_env \<Rightarrow> ScConfigParser \<Rightarrow> StreamInfo \<Rightarrow> string \<Rightarrow> int \<Rightarrow> ScFilter \<Rightarrow> ScFilter" where
  "sc_headers_begin env p si uuid now f =
     (case callCheck si (req_headers (f_stream f)) now (new_Handler env p (f_stream f) uuid now) of
        (h, action) \<Rightarrow>
          perform env action (f\<lparr>f_handler := Some h, f_state := Calling, f_stopped := False\<rparr>))"

definition sc_headers_end :: "ScFilter \<Rightarrow> FilterHeadersStatus \<times> ScFilter" where
  "sc_headers_end f =
     (if f_state f = Complete then (Continue, f) else (StopIteration, f\<lparr>f_stopped := True\<rparr>))"

text \<open>The whole of \<open>decodeHeaders\<close>, with the answers the client gives before it returns.\<close>

definition sc_decodeHeaders ::
    "handler_env \<Rightarrow> ScConfigParser \<Rightarrow> StreamInfo \<Rightarrow> string \<Rightarrow> int \<Rightarrow> (Status \<times> CheckResponseInfo) option
     \<Rightarrow> Status option \<Rightarrow> ScFilter \<Rightarrow> (FilterHeadersStatus \<times> ScFilter) option" where
  "sc_decodeHeaders env p si uuid now sync_check sync_quota f =
     (let f = Some (sc_headers_begin env p si uuid now f);
          f = Option.bind f (\<lambda>f. case sync_check of
                Some (status, info) \<Rightarrow> if f_awaiting f = CheckAnswer then sc_check_answer env si now status info f else Some f
              | None \<Rightarrow> Some f);
          f = Option.bind f (\<lambda>f. case sync_quota of
                Some status \<Rightarrow> if f_awaiting f = QuotaAnswer then sc_quota_answer env status f else Some f
              | None \<Rightarrow> Some f)
      in map_option sc_headers_end f)"

datatype FilterDataStatus = DataContinue | StopIterationAndWatermark

definition sc_intermediate ::
    "handler_env \<Rightarrow> ScConfigParser \<Rightarrow> StreamInfo \<Rightarrow> int \<Rightarrow> nat \<Rightarrow> bool \<Rightarrow> ScFilter
     \<Rightarrow> (ScFilter \<times> ReportRequestInfo option) option" where
  "sc_intermediate env p si now len end_stream f =
     (if \<not> end_stream \<and> len > 0
      then (case f_handler f of
              None \<Rightarrow> None
            | Some h \<Rightarrow>
                map_option (\<lambda>(h, report). (f\<lparr>f_handler := Some h\<rparr>, report)) (tryIntermediateReport env p si now h))
      else Some (f, None))"

definition sc_decodeData ::
    "handler_env \<Rightarrow> ScConfigParser \<Rightarrow> StreamInfo \<Rightarrow> int \<Rightarrow> nat \<Rightarrow> bool \<Rightarrow> ScFilter
     \<Rightarrow> (FilterDataStatus \<times> ScFilter \<times> ReportRequestInfo option) option" where
  "sc_decodeData env p si now len end_stream f =
     map_option (\<lambda>(f, report).
       (if f_state f = Calling then StopIterationAndWatermark else DataContinue, f, report))
       (sc_intermediate env p si now len end_stream f)"

definition sc_decodeTrailers :: "ScFilter \<Rightarrow> FilterHeadersStatus" where
  "sc_decodeTrailers f = (if f_state f = Calling then StopIteration else Continue)"

definition sc_encodeHeaders :: "handler_env \<Rightarrow> StreamInfo \<Rightarrow> headers \<Rightarrow> ScFilter \<Rightarrow> ScFilter" where
  "sc_encodeHeaders env si hs f = f\<lparr>f_handler := map_option (processResponseHeaders env si hs) (f_handler f)\<rparr>"

definition sc_encodeData ::
    "handler_env \<Rightarrow> ScConfigParser \<Rightarrow> StreamInfo \<Rightarrow> int \<Rightarrow> nat \<Rightarrow> bool \<Rightarrow> ScFilter
     \<Rightarrow> (FilterDataStatus \<times> ScFilter \<times> ReportRequestInfo option) option" where
  "sc_encodeData env p si now len end_stream f =
     map_option (\<lambda>(f, report). (DataContinue, f, report)) (sc_intermediate env p si now len end_stream f)"

text \<open>\<open>log\<close> is the last callback of a stream.\<close>

definition sc_log ::
    "handler_env \<Rightarrow> ScConfigParser \<Rightarrow> StreamInfo \<Rightarrow> string \<Rightarrow> headers option \<Rightarrow> headers option \<Rightarrow> headers option
     \<Rightarrow> int \<Rightarrow> ScFilter \<Rightarrow> ScFilter \<times> ReportRequestInfo option" where
  "sc_log env p si uuid request_hs response_hs response_trailers now f =
     (case (f_handler f, request_hs) of
        (None, None) \<Rightarrow> (f, None)
      | (None, Some hs) \<Rightarrow>
          (case callReport env p si request_hs response_hs response_trailers now
                  (new_Handler env p ((f_stream f)\<lparr>req_headers := hs\<rparr>) uuid now) of
             (h, report) \<Rightarrow> (f\<lparr>f_handler := Some h\<rparr>, report))
      | (Some h, _) \<Rightarrow>
          (case callReport env p si request_hs response_hs response_trailers now h of
             (h, report) \<Rightarrow> (f\<lparr>f_handler := Some h\<rparr>, report)))"

text \<open>
  \<open>onDestroy\<close> cancels the check call, if one is in progress; the call then completes as
  cancelled, which the client turns into its verdict.
\<close>

definition sc_cancels :: "ScFilter \<Rightarrow> bool" where
  "sc_cancels f \<longleftrightarrow> (case f_handler f of None \<Rightarrow> False | Some h \<Rightarrow> h_cancel_fn h)"

definition cancel_verdict :: "ClientCache \<Rightarrow> Status \<times> CheckResponseInfo" where
  "cancel_verdict cl = callCheck_done cl (Status_of CANCELLED ''Request cancelled'') new_CheckResponse"

definition sc_onDestroy :: "handler_env \<Rightarrow> ClientCache \<Rightarrow> StreamInfo \<Rightarrow> int \<Rightarrow> ScFilter \<Rightarrow> ScFilter option" where
  "sc_onDestroy env cl si now f =
     (if sc_cancels f
      then sc_check_answer env si now (fst (cancel_verdict cl)) (snd (cancel_verdict cl)) f
      else Some f)"

section \<open>Runs\<close>

datatype sc_obs = Checked Status CheckResponseInfo | QuotaChecked Status | Reported ReportRequestInfo

definition reported :: "ReportRequestInfo option \<Rightarrow> sc_obs list" where
  "reported r = (case r of None \<Rightarrow> [] | Some info \<Rightarrow> [Reported info])"

inductive sc_run :: "handler_env \<Rightarrow> ScConfigParser \<Rightarrow> ClientCache \<Rightarrow> stream \<Rightarrow> sc_obs list \<Rightarrow> ScFilter \<Rightarrow> bool"
  for env p cl s where
  start: "sc_run env p cl s [] (new_ScFilter s)"
| headers_begin: "sc_run env p cl s tr f \<Longrightarrow> f_state f = Init \<Longrightarrow> uuid \<noteq> [] \<Longrightarrow>
     sc_run env p cl s tr (sc_headers_begin env p si uuid now f)"
| headers_end: "sc_run env p cl s tr f \<Longrightarrow> f_state f \<noteq> Init \<Longrightarrow> sc_run env p cl s tr (snd (sc_headers_end f))"
| check_answer: "sc_run env p cl s tr f \<Longrightarrow> f_awaiting f = CheckAnswer \<Longrightarrow>
     sc_check_answer env si now status info f = Some f' \<Longrightarrow> sc_run env p cl s (Checked status info # tr) f'"
| quota_answer: "sc_run env p cl s tr f \<Longrightarrow> f_awaiting f = QuotaAnswer \<Longrightarrow>
     sc_quota_answer env status f = Some f' \<Longrightarrow> sc_run env p cl s (QuotaChecked status # tr) f'"
| decode_data: "sc_run env p cl s tr f \<Longrightarrow> sc_decodeData env p si now len end_stream f = Some (st, f', r) \<Longrightarrow>
     sc_run env p cl s (reported r @ tr) f'"
| encode_headers: "sc_run env p cl s tr f \<Longrightarrow> sc_run env p cl s tr (sc_encodeHeaders env si hs f)"
| encode_data: "sc_run env p cl s tr f \<Longrightarrow> sc_encodeData env p si now len end_stream f = Some (st, f', r) \<Longrightarrow>
     sc_run env p cl s (reported r @ tr) f'"
| destroy: "sc_run env p cl s tr f \<Longrightarrow> sc_onDestroy env cl si now f = Some f' \<Longrightarrow>
     sc_run env p cl s (if sc_cancels f then Checked (fst (cancel_verdict cl)) (snd (cancel_verdict cl)) # tr else tr) f'"

section \<open>The invariant\<close>

definition checked_ok :: "sc_obs list \<Rightarrow> Handler \<Rightarrow> RequirementContext \<Rightarrow> bool" where
  "checked_ok tr h rc \<longleftrightarrow>
     (isCheckRequired rc \<longrightarrow> h_api_key h \<noteq> [] \<and> (\<exists>st info. Checked st info \<in> set tr \<and> st_ok st))"

definition quota_ok :: "sc_obs list \<Rightarrow> RequirementContext \<Rightarrow> bool" where
  "quota_ok tr rc \<longleftrightarrow> (isQuotaRequired rc \<longrightarrow> (\<exists>st. QuotaChecked st \<in> set tr \<and> st_ok st))"

text \<open>What an action means for a handler, given the answers so far.\<close>

fun action_ok :: "sc_obs list \<Rightarrow> Handler \<Rightarrow> check_action \<Rightarrow> bool" where
  "action_ok tr h (CheckDone st) =
     (\<not> h_cancel_fn h \<and>
      (st_ok st \<longrightarrow> (\<exists>rc. h_require_ctx h = Some rc \<and> checked_ok tr h rc \<and> quota_ok tr rc)))"
| "action_ok tr h (SendCheck info) =
     (h_cancel_fn h \<and> (\<exists>rc. h_require_ctx h = Some rc \<and> isCheckRequired rc \<and> h_api_key h \<noteq> []))"
| "action_ok tr h (SendQuota info) =
     (\<not> h_cancel_fn h \<and> (\<exists>rc. h_require_ctx h = Some rc \<and> checked_ok tr h rc \<and> isQuotaRequired rc))"

fun awaiting_ok :: "sc_obs list \<Rightarrow> Handler \<Rightarrow> awaiting \<Rightarrow> bool" where
  "awaiting_ok tr h NoAnswer = False"
| "awaiting_ok tr h CheckAnswer =
     (h_cancel_fn h \<and> (\<exists>rc. h_require_ctx h = Some rc \<and> isCheckRequired rc \<and> h_api_key h \<noteq> []))"
| "awaiting_ok tr h QuotaAnswer =
     (\<not> h_cancel_fn h \<and> (\<exists>rc. h_require_ctx h = Some rc \<and> checked_ok tr h rc \<and> isQuotaRequired rc))"

definition no_verdict :: "ScFilter \<Rightarrow> bool" where
  "no_verdict f \<longleftrightarrow> sent_reply (f_stream f) = None \<and> f_continued f = 0 \<and> f_allowed f = 0 \<and> f_denied f = 0"

definition idle :: "ScFilter \<Rightarrow> bool" where
  "idle f \<longleftrightarrow> f_awaiting f = NoAnswer \<and> \<not> sc_cancels f"

fun state_ok :: "sc_obs list \<Rightarrow> ScFilter \<Rightarrow> ScState \<Rightarrow> bool" where
  "state_ok tr f Init = (no_verdict f \<and> f_handler f = None \<and> f_awaiting f = NoAnswer)"
| "state_ok tr f Calling = (no_verdict f \<and> (\<exists>h. f_handler f = Some h \<and> awaiting_ok tr h (f_awaiting f)))"
| "state_ok tr f Responded = (idle f \<and> sent_reply (f_stream f) \<noteq> None \<and> f_continued f = 0 \<and> f_allowed f = 0 \<and> f_denied f = 1)"
| "state_ok tr f Complete = (idle f \<and> sent_reply (f_stream f) = None \<and> f_allowed f = 1 \<and> f_denied f = 0 \<and>
     f_continued f = (if f_stopped f then 1 else 0) \<and>
     (\<exists>h rc. f_handler f = Some h \<and> h_require_ctx h = Some rc \<and> checked_ok tr h rc \<and> quota_ok tr rc))"

definition sc_inv :: "sc_obs list \<Rightarrow> ScFilter \<Rightarrow> bool" where
  "sc_inv tr f \<longleftrightarrow> state_ok tr f (f_state f)"

lemma trace_mono:
  "set tr \<subseteq> set tr' \<Longrightarrow> checked_ok tr h rc \<Longrightarrow> checked_ok tr' h rc"
  "set tr \<subseteq> set tr' \<Longrightarrow> quota_ok tr rc \<Longrightarrow> quota_ok tr' rc"
  by (auto simp: checked_ok_def quota_ok_def)

lemma sc_inv_mono:
  assumes "set tr \<subseteq> set tr'" "sc_inv tr f"
  shows "sc_inv tr' f"
proof -
  have "awaiting_ok tr h a \<Longrightarrow> awaiting_ok tr' h a" for h a
    using trace_mono [OF assms(1)] by (cases a) auto
  with assms(2) trace_mono [OF assms(1)] show ?thesis
    unfolding sc_inv_def by (cases "f_state f") fastforce+
qed

lemma callQuota_action:
  "callQuota rc si now h = (h', a) \<Longrightarrow> h_require_ctx h = Some rc \<Longrightarrow> st_ok (h_check_status h) \<Longrightarrow>
   \<not> h_cancel_fn h \<Longrightarrow> checked_ok tr h rc \<Longrightarrow> action_ok tr h' a"
  by (auto simp: callQuota_def quota_ok_def split: if_splits)

lemma callCheck_action:
  assumes "callCheck si hs now h = (h', a)" "st_ok (h_check_status h)" "\<not> h_cancel_fn h"
  shows "action_ok tr h' a"
proof (cases "h_require_ctx h")
  case None
  with assms show ?thesis by (auto simp: callCheck_def)
next
  case (Some rc)
  show ?thesis
  proof (cases "isCheckRequired rc")
    case True
    with assms Some show ?thesis
      by (auto simp: callCheck_def hasApiKey_def unregistered_caller_def split: if_splits)
  next
    case False
    with assms Some show ?thesis
      by (auto simp: callCheck_def checked_ok_def intro!: callQuota_action)
  qed
qed

lemma check_answered_action:
  assumes "check_answered rc si now hs st info h = (h', hs', a)" "h_require_ctx h = Some rc" "h_api_key h \<noteq> []"
  shows "action_ok (Checked st info # tr) h' a"
proof -
  let ?h = "h\<lparr>h_cancel_fn := False, h_on_check_done_called := True, h_check_response_info := info, h_check_status := st\<rparr>"
  show ?thesis
  proof (cases "st_ok st")
    case True
    with assms have "callQuota rc si now ?h = (h', a)"
      by (auto simp: check_answered_def onCheckResponse_def Let_def split: prod.splits)
    from callQuota_action [OF this, of "Checked st info # tr"] assms(2,3) True show ?thesis
      by (auto simp: checked_ok_def)
  next
    case False
    with assms show ?thesis by (auto simp: check_answered_def onCheckResponse_def Let_def)
  qed
qed

lemma perform_inv:
  assumes "f_handler f = Some h" "f_state f = Calling" "no_verdict f" "action_ok tr h a"
  shows "sc_inv tr (perform env a f)"
proof (cases a)
  case (CheckDone st)
  with assms show ?thesis
    by (auto simp: perform_def sc_onCheckDone_def sc_inv_def sc_rejectRequest_def idle_def sc_cancels_def
        no_verdict_def sendLocalReply_def setResponseFlag_def Let_def)
qed (use assms in \<open>auto simp: perform_def sc_inv_def no_verdict_def\<close>)

lemma sc_check_answer_inv:
  assumes "sc_inv tr f" "f_awaiting f = CheckAnswer" "sc_check_answer env si now st info f = Some f'"
  shows "sc_inv (Checked st info # tr) f'"
proof -
  have c: "f_state f = Calling" "no_verdict f"
    using assms(1,2) by (cases "f_state f"; simp add: sc_inv_def idle_def)+
  then obtain h rc where h: "f_handler f = Some h" "h_require_ctx h = Some rc" "h_api_key h \<noteq> []"
    using assms(1,2) by (auto simp: sc_inv_def)
  obtain h' hs a where r: "check_answered rc si now (req_headers (f_stream f)) st info h = (h', hs, a)"
    by (metis surj_pair)
  with assms(3) h have "f' = perform env a (f\<lparr>f_handler := Some h', f_stream := (f_stream f)\<lparr>req_headers := hs\<rparr>\<rparr>)"
    by (simp add: sc_check_answer_def)
  with c check_answered_action [OF r h(2,3)] show ?thesis
    by (auto intro!: perform_inv simp: no_verdict_def)
qed

lemma sc_quota_answer_inv:
  assumes "sc_inv tr f" "f_awaiting f = QuotaAnswer" "sc_quota_answer env st f = Some f'"
  shows "sc_inv (QuotaChecked st # tr) f'"
proof -
  have c: "f_state f = Calling" "no_verdict f"
    using assms(1,2) by (cases "f_state f"; simp add: sc_inv_def idle_def)+
  then obtain h rc where h: "f_handler f = Some h" "h_require_ctx h = Some rc" "checked_ok tr h rc" "\<not> h_cancel_fn h"
    using assms(1,2) by (auto simp: sc_inv_def)
  have "f' = perform env (CheckDone st) (f\<lparr>f_handler := Some (h\<lparr>h_check_status := st\<rparr>)\<rparr>)"
    using assms(3) h(1) by (simp add: sc_quota_answer_def quota_answered_def)
  moreover have "action_ok (QuotaChecked st # tr) (h\<lparr>h_check_status := st\<rparr>) (CheckDone st)"
    using h by (auto simp: checked_ok_def quota_ok_def)
  ultimately show ?thesis
    using c by (auto intro!: perform_inv simp: no_verdict_def simp del: action_ok.simps)
qed

text \<open>Reports leave what the verdict rests on as it is.\<close>

definition same_request :: "Handler \<Rightarrow> Handler \<Rightarrow> bool" where
  "same_request h h' \<longleftrightarrow> h_require_ctx h' = h_require_ctx h \<and> h_api_key h' = h_api_key h \<and>
     h_cancel_fn h' = h_cancel_fn h"

lemma sc_inv_same_request:
  assumes "sc_inv tr f" "f_handler f = Some h" "same_request h h'"
  shows "sc_inv tr (f\<lparr>f_handler := Some h'\<rparr>)"
proof -
  have "awaiting_ok tr h' a = awaiting_ok tr h a" for a
    using assms(3) by (cases a) (auto simp: same_request_def checked_ok_def)
  moreover have "checked_ok tr h' rc = checked_ok tr h rc" for rc
    using assms(3) by (simp add: same_request_def checked_ok_def)
  ultimately show ?thesis
    using assms unfolding sc_inv_def
    by (cases "f_state f") (auto simp: no_verdict_def idle_def sc_cancels_def same_request_def)
qed

lemma sc_intermediate_inv:
  assumes "sc_inv tr f" "sc_intermediate env p si now len end_stream f = Some (f', r)"
  shows "sc_inv tr f'"
proof (cases "\<not> end_stream \<and> len > 0")
  case True
  then obtain h h' where h: "f_handler f = Some h" "tryIntermediateReport env p si now h = Some (h', r)"
    "f' = f\<lparr>f_handler := Some h'\<rparr>"
    using assms(2) by (auto simp: sc_intermediate_def split: option.splits)
  have "same_request h h'"
    using h(2) by (auto simp: tryIntermediateReport_def same_request_def Let_def split: if_splits option.splits)
  with sc_inv_same_request [OF assms(1) h(1)] h(3) show ?thesis by simp
qed (use assms in \<open>auto simp: sc_intermediate_def\<close>)

lemma sc_run_inv:
  assumes "sc_run env p cl s tr f" "sent_reply s = None"
  shows "sc_inv tr f"
  using assms
proof (induction rule: sc_run.induct)
  case start
  then show ?case by (simp add: sc_inv_def new_ScFilter_def no_verdict_def)
next
  case (headers_begin tr f uuid si now)
  obtain h a where c: "callCheck si (req_headers (f_stream f)) now (new_Handler env p (f_stream f) uuid now) = (h, a)"
    by fastforce
  have "action_ok tr h a" by (rule callCheck_action [OF c]) (simp_all add: new_Handler_def Let_def)
  moreover have "no_verdict (f\<lparr>f_handler := Some h, f_state := Calling, f_stopped := False\<rparr>)"
    using headers_begin by (auto simp: sc_inv_def no_verdict_def)
  ultimately show ?case by (simp add: sc_headers_begin_def c perform_inv)
next
  case (headers_end tr f)
  then show ?case
    by (cases "f_state f") (auto simp: sc_headers_end_def sc_inv_def no_verdict_def idle_def sc_cancels_def)
next
  case (check_answer tr f si now st info f')
  then show ?case by (intro sc_check_answer_inv) auto
next
  case (quota_answer tr f st f')
  then show ?case by (intro sc_quota_answer_inv) auto
next
  case (decode_data tr f si now len e st f' r)
  then have "sc_inv tr f'"
    by (auto simp: sc_decodeData_def intro: sc_intermediate_inv)
  then show ?case by (rule sc_inv_mono [rotated]) auto
next
  case (encode_headers tr f si hs)
  then have inv: "sc_inv tr f" by simp
  show ?case
  proof (cases "f_handler f")
    case None
    then have "sc_encodeHeaders env si hs f = f" by (cases f) (simp add: sc_encodeHeaders_def)
    with inv show ?thesis by simp
  next
    case (Some h)
    with sc_inv_same_request [OF inv Some, of "processResponseHeaders env si hs h"] show ?thesis
      by (simp add: sc_encodeHeaders_def same_request_def processResponseHeaders_def)
  qed
next
  case (encode_data tr f si now len e st f' r)
  then have "sc_inv tr f'"
    by (auto simp: sc_encodeData_def intro: sc_intermediate_inv)
  then show ?case by (rule sc_inv_mono [rotated]) auto
next
  case (destroy tr f si now f')
  show ?case
  proof (cases "sc_cancels f")
    case True
    with destroy have "f_awaiting f = CheckAnswer"
      by (cases "f_state f"; cases "f_awaiting f") (auto simp: sc_inv_def idle_def sc_cancels_def)
    with True destroy show ?thesis by (auto simp: sc_onDestroy_def intro: sc_check_answer_inv)
  qed (use destroy in \<open>simp add: sc_onDestroy_def\<close>)
qed

section \<open>Properties\<close>

text \<open>
  C2: a request passes the Service Control filter only if it is entitled to: its operation has a
  requirement; if that requires a check, the request has an API key and the check was answered
  with success; if it has metric costs, the quota was allocated with success. This holds for every
  order of answers, data, responses and destruction.
\<close>

theorem sc_filter_authorises:
  assumes "sc_run env p cl s tr f" "sent_reply s = None" "f_state f = Complete"
  shows "\<exists>h rc. f_handler f = Some h \<and> h_require_ctx h = Some rc \<and>
    (isCheckRequired rc \<longrightarrow> h_api_key h \<noteq> [] \<and> (\<exists>st info. Checked st info \<in> set tr \<and> st_ok st)) \<and>
    (isQuotaRequired rc \<longrightarrow> (\<exists>st. QuotaChecked st \<in> set tr \<and> st_ok st))"
  using sc_run_inv [OF assms(1,2)] assms(3) by (simp add: sc_inv_def checked_ok_def quota_ok_def)

text \<open>
  C29: a request gets at most one verdict. In every reachable state it has been allowed or denied
  at most once and never both; it was answered exactly when it was denied; \<open>continueDecoding\<close> was
  called exactly when it was allowed after \<open>decodeHeaders\<close> had stopped it; and while it has no
  verdict the client holds a completion function for it, and data and trailers are held back.
\<close>

theorem sc_filter_one_verdict:
  assumes "sc_run env p cl s tr f" "sent_reply s = None"
  shows "f_allowed f + f_denied f \<le> 1 \<and> (f_denied f = 1 \<longleftrightarrow> sent_reply (f_stream f) \<noteq> None) \<and>
    f_continued f = (if f_allowed f = 1 \<and> f_stopped f then 1 else 0) \<and>
    (f_state f = Calling \<longleftrightarrow> f_awaiting f \<noteq> NoAnswer) \<and>
    (sc_decodeTrailers f = StopIteration \<longleftrightarrow> f_awaiting f \<noteq> NoAnswer)"
  using sc_run_inv [OF assms]
  by (cases "f_state f"; cases "f_awaiting f")
    (auto simp: sc_inv_def no_verdict_def idle_def sc_decodeTrailers_def)

text \<open>The answers to a request: to the check if it waits for one, and to the quota if it then does.\<close>

definition answer_all :: "handler_env \<Rightarrow> StreamInfo \<Rightarrow> int \<Rightarrow> Status \<Rightarrow> CheckResponseInfo \<Rightarrow> Status \<Rightarrow> ScFilter \<Rightarrow> ScFilter option" where
  "answer_all env si now check info quota f =
     Option.bind (if f_awaiting f = CheckAnswer then sc_check_answer env si now check info f else Some f)
       (\<lambda>f. if f_awaiting f = QuotaAnswer then sc_quota_answer env quota f else Some f)"

lemma quota_answer_decides:
  assumes "sc_inv tr f" "f_awaiting f = QuotaAnswer"
  shows "\<exists>f'. sc_quota_answer env st f = Some f' \<and> f_state f' \<in> {Responded, Complete}"
  using assms
  by (cases "f_state f")
    (auto simp: sc_inv_def idle_def sc_quota_answer_def quota_answered_def perform_def sc_onCheckDone_def
      sc_rejectRequest_def Let_def)

lemma check_answer_decides:
  assumes "sc_inv tr f" "f_awaiting f = CheckAnswer"
  shows "\<exists>f'. sc_check_answer env si now st info f = Some f' \<and>
    (f_state f' \<in> {Responded, Complete} \<or> f_awaiting f' = QuotaAnswer)"
proof -
  obtain h rc where h: "f_handler f = Some h" "h_require_ctx h = Some rc"
    using assms by (cases "f_state f") (auto simp: sc_inv_def idle_def)
  obtain h' hs a where r: "check_answered rc si now (req_headers (f_stream f)) st info h = (h', hs, a)"
    by (metis surj_pair)
  have "\<not> (\<exists>info. a = SendCheck info)"
    using r by (auto simp: check_answered_def onCheckResponse_def callQuota_def Let_def split: if_splits prod.splits)
  with h r show ?thesis
    by (cases a) (auto simp: sc_check_answer_def perform_def sc_onCheckDone_def sc_rejectRequest_def Let_def)
qed

text \<open>
  C30: every request that is held back is decided by at most one answer of each kind: whatever the
  check is answered with, and the quota if that is then asked for, the filter handles both answers
  without touching a null pointer and ends with the request allowed or denied.
\<close>

theorem sc_filter_decides:
  assumes "sc_run env p cl s tr f" "sent_reply s = None" "f_state f = Calling"
  shows "\<exists>f'. answer_all env si now check info quota f = Some f' \<and> f_state f' \<in> {Responded, Complete}"
proof (cases "f_awaiting f = CheckAnswer")
  case True
  note inv = sc_run_inv [OF assms(1,2)]
  obtain f1 where f1: "sc_check_answer env si now check info f = Some f1"
    "f_state f1 \<in> {Responded, Complete} \<or> f_awaiting f1 = QuotaAnswer"
    using check_answer_decides [OF inv True] by blast
  show ?thesis
  proof (cases "f_awaiting f1 = QuotaAnswer")
    case q: True
    from quota_answer_decides [OF sc_check_answer_inv [OF inv True f1(1)] q] True f1 q show ?thesis
      by (auto simp: answer_all_def)
  next
    case False
    with True f1 show ?thesis by (simp add: answer_all_def)
  qed
next
  case False
  then have "f_awaiting f = QuotaAnswer"
    using sc_run_inv [OF assms(1,2)] assms(3) by (cases "f_awaiting f") (auto simp: sc_inv_def)
  from quota_answer_decides [OF sc_run_inv [OF assms(1,2)] this] this show ?thesis
    by (auto simp: answer_all_def)
qed

section \<open>An example\<close>

definition example_handler_env :: handler_env where
  "example_handler_env =
     \<lparr>parseQueryString = (\<lambda>path. [(''key'', ''k'')]), parseCookieValue = (\<lambda>hs c. []), byteSize = (\<lambda>hs. 10),
      hasGrpcContentType = (\<lambda>hs. True), double_to_long = (\<lambda>x. 0), indeterminate_protocol = UNKNOWN_PROTOCOL,
      grpcToHttpStatus = (\<lambda>c. 401), Status_ToString = st_message\<rparr>"

definition example_stream_info :: StreamInfo where
  "example_stream_info =
     \<lparr>si_requestComplete = None, si_firstUpstreamTxByteSent = None, si_lastUpstreamRxByteReceived = None,
      si_has_protocol = True, si_responseCode = Some 200, si_bytesReceived = 0, si_bytesSent = 0,
      si_grpc_stats = None, si_startTime = 0, si_client_ip = ''1.2.3.4'', si_jwt_metadata = (\<lambda>path. None)\<rparr>"

text \<open>One service with one operation, which requires a check and has the given skip flag.\<close>

definition example_sc_config :: "bool \<Rightarrow> ScFilterConfig" where
  "example_sc_config skip =
     \<lparr>sf_services = [cl_config example_client],
      sf_requirements = [new_Requirement\<lparr>rq_service_name := ''s'', rq_operation_name := ''op'',
        rq_skip_service_control := skip\<rparr>],
      sf_gcp_attributes = None, sf_access_token = ScNoAccessToken, sf_sc_calling_config = None,
      sf_service_control_uri = ''u'', sf_service_control_cluster = ''c''\<rparr>"

definition example_parser :: "bool \<Rightarrow> ScConfigParser" where
  "example_parser skip = projr (ScConfigParser_new (example_sc_config skip))"

lemma example_parser_new: "ScConfigParser_new (example_sc_config skip) = Inr (example_parser skip)"
proof -
  have "sc_config_ok (example_sc_config skip)"
    by (simp add: sc_config_ok_def example_sc_config_def example_client_def new_Requirement_def)
  then obtain p where "ScConfigParser_new (example_sc_config skip) = Inr p"
    using ScConfigParser_new_ok [of "example_sc_config skip"] by blast
  then show ?thesis by (simp add: example_parser_def)
qed

definition example_sc_stream :: stream where
  "example_sc_stream =
     \<lparr>req_headers = [('':method'', ''GET''), ('':path'', ''/a?key=k'')],
      filter_state = [(kOperation, ''op'')], sent_reply = None, unauthorized_flag = False\<rparr>"

definition example_waiting :: ScFilter where
  "example_waiting = snd (sc_headers_end (sc_headers_begin example_handler_env (example_parser False)
     example_stream_info ''id'' 0 (new_ScFilter example_sc_stream)))"

lemma example_waiting_state: "f_state example_waiting = Calling" "f_awaiting example_waiting = CheckAnswer"
  by code_simp+

lemma example_waiting_run:
  "sc_run example_handler_env (example_parser False) example_client example_sc_stream [] example_waiting"
  unfolding example_waiting_def
proof (rule sc_run.headers_end)
  let ?f = "sc_headers_begin example_handler_env (example_parser False) example_stream_info ''id'' 0
    (new_ScFilter example_sc_stream)"
  show "sc_run example_handler_env (example_parser False) example_client example_sc_stream [] ?f"
    by (rule sc_run.headers_begin [OF sc_run.start]) (simp_all add: new_ScFilter_def)
  show "f_state ?f \<noteq> Init" by code_simp
qed

lemma example_stream_no_reply: "sent_reply example_sc_stream = None"
  by (simp add: example_sc_stream_def)

theorem sc_filter_decides_witness:
  "\<exists>f'. answer_all example_handler_env example_stream_info 0 Status_OK new_CheckResponseInfo Status_OK
     example_waiting = Some f' \<and> f_state f' \<in> {Responded, Complete}"
  by (rule sc_filter_decides [OF example_waiting_run example_stream_no_reply example_waiting_state(1)])

theorem sc_filter_one_verdict_witness:
  "f_allowed example_waiting + f_denied example_waiting \<le> 1 \<and>
   (f_state example_waiting = Calling \<longleftrightarrow> f_awaiting example_waiting \<noteq> NoAnswer)"
  using sc_filter_one_verdict [OF example_waiting_run example_stream_no_reply] by simp

definition example_passed :: ScFilter where
  "example_passed = the (sc_check_answer example_handler_env example_stream_info 0 Status_OK
     new_CheckResponseInfo example_waiting)"

lemma example_passed_answer:
  "sc_check_answer example_handler_env example_stream_info 0 Status_OK new_CheckResponseInfo example_waiting =
     Some example_passed"
proof -
  obtain f' where "sc_check_answer example_handler_env example_stream_info 0 Status_OK new_CheckResponseInfo
      example_waiting = Some f'"
    using check_answer_decides [OF sc_run_inv [OF example_waiting_run example_stream_no_reply]
      example_waiting_state(2), of example_handler_env example_stream_info 0 Status_OK new_CheckResponseInfo]
    by blast
  then show ?thesis by (simp add: example_passed_def)
qed

lemma example_passed_run:
  "sc_run example_handler_env (example_parser False) example_client example_sc_stream
     [Checked Status_OK new_CheckResponseInfo] example_passed"
  by (rule sc_run.check_answer [OF example_waiting_run example_waiting_state(2) example_passed_answer])

theorem sc_filter_authorises_witness:
  "\<exists>h rc. f_handler example_passed = Some h \<and> h_require_ctx h = Some rc \<and> (isCheckRequired rc \<longrightarrow> h_api_key h \<noteq> [])"
proof -
  have "f_state example_passed = Complete" by code_simp
  from sc_filter_authorises [OF example_passed_run example_stream_no_reply this] show ?thesis by blast
qed

end
