(* ===== verification/ServiceControlReports.thy ===== *)
theory ServiceControlReports
  imports ServiceControlFilter
begin

text \<open>
  The reports of one stream, from the filter through the handler to the request builder: the
  intermediate reports of a gRPC stream (\<open>tryIntermediateReport\<close>) and the final one that
  \<open>ServiceControlFilter::log\<close> sends (\<open>callReport\<close>). However the callbacks of the stream are
  interleaved, the first of them alone is marked as first and the last alone as final, so that the
  request counts add up to one request.
\<close>

section \<open>The invariant\<close>

text \<open>The reports of a trace, oldest first.\<close>

primrec reports :: "sc_obs list \<Rightarrow> ReportRequestInfo list" where
  "reports [] = []"
| "reports (x # tr) = (case x of Reported r \<Rightarrow> reports tr @ [r] | _ \<Rightarrow> reports tr)"

lemma reports_reported [simp]: "reports (reported r @ tr) = reports tr @ (case r of None \<Rightarrow> [] | Some i \<Rightarrow> [i])"
  by (cases r) (simp_all add: reported_def)

text \<open>Only the first report of a stream is marked as first.\<close>

definition first_only :: "ReportRequestInfo list \<Rightarrow> bool" where
  "first_only rs \<longleftrightarrow>
     (case rs of [] \<Rightarrow> True | r # rs \<Rightarrow> is_first_report r \<and> list_all (\<lambda>i. \<not> is_first_report i) rs)"

lemma first_only_snoc: "first_only (rs @ [r]) \<longleftrightarrow> first_only rs \<and> is_first_report r = (rs = [])"
  by (cases rs) (auto simp: first_only_def)

definition named :: "Handler \<Rightarrow> bool" where
  "named h \<longleftrightarrow> h_uuid h \<noteq> [] \<and>
     (case h_require_ctx h of None \<Rightarrow> True | Some rc \<Rightarrow> rq_operation_name (rc_config rc) \<noteq> [])"

definition rep_inv :: "sc_obs list \<Rightarrow> ScFilter \<Rightarrow> bool" where
  "rep_inv tr f \<longleftrightarrow>
     list_all (\<lambda>r. has_method r \<and> \<not> is_final_report r) (reports tr) \<and> first_only (reports tr) \<and>
     (case f_handler f of
        None \<Rightarrow> reports tr = []
      | Some h \<Rightarrow> named h \<and> (h_is_first_report h \<longleftrightarrow> reports tr = []))"

text \<open>Operations of the handler other than reports keep what its reports say of the stream.\<close>

definition same_stream :: "Handler \<Rightarrow> Handler \<Rightarrow> bool" where
  "same_stream h h' \<longleftrightarrow> h_require_ctx h' = h_require_ctx h \<and> h_uuid h' = h_uuid h \<and>
     h_is_first_report h' = h_is_first_report h"

lemma same_stream_operations:
  "same_stream h (fst (callCheck si hs now h))"
  "same_stream h (fst (check_answered rc si now hs st info h))"
  "same_stream h (fst (quota_answered st h))"
  "same_stream h (processResponseHeaders env si hs h)"
  by (auto simp: same_stream_def callCheck_def callQuota_def check_answered_def onCheckResponse_def
      quota_answered_def processResponseHeaders_def Let_def split: option.splits)

lemma named_new_Handler:
  assumes "ScConfigParser_new config = Inr p" "uuid \<noteq> []"
  shows "named (new_Handler env p s uuid now)" "h_is_first_report (new_Handler env p s uuid now)"
  using assms(2)
  by (auto simp: named_def new_Handler_def Let_def ScConfigParser_new_maps(1) [OF assms(1)]
      new_RequirementContext_def find_Some_iff split: option.splits)

lemma perform_handler [simp]: "f_handler (perform env a f) = f_handler f"
  by (simp add: perform_def sc_onCheckDone_def sc_rejectRequest_def Let_def split: check_action.splits)

lemma rep_inv_cong:
  assumes "rep_inv tr f" "reports tr' = reports tr"
    and "case f_handler f of None \<Rightarrow> f_handler f' = None
         | Some h \<Rightarrow> \<exists>h'. f_handler f' = Some h' \<and> same_stream h h'"
  shows "rep_inv tr' f'"
  using assms by (auto simp: rep_inv_def same_stream_def named_def split: option.splits)

lemma prepareReportRequest_method:
  "operation_id (prepareReportRequest p rc si now h) = h_uuid h"
  "operation_name (prepareReportRequest p rc si now h) = rq_operation_name (rc_config rc)"
  "is_final_report (prepareReportRequest p rc si now h)"
  by (simp_all add: prepareReportRequest_def fillOperationInfo_def fillGCPInfo_def new_ReportRequestInfo_def Let_def
      split: option.splits)

lemma tryIntermediateReport_inv:
  assumes "tryIntermediateReport env p si now h = Some (h', r)" "named h"
  shows "named h'" and "r = None \<Longrightarrow> h_is_first_report h' = h_is_first_report h"
    and "r = Some i \<Longrightarrow> has_method i \<and> \<not> is_final_report i \<and> is_first_report i = h_is_first_report h \<and>
      \<not> h_is_first_report h'"
  using assms
  by (auto simp: tryIntermediateReport_def named_def has_method_def prepareReportRequest_method Let_def
      split: if_splits option.splits)

lemma sc_intermediate_rep_inv:
  assumes "rep_inv tr f" "sc_intermediate env p si now len e f = Some (f', r)"
  shows "rep_inv (reported r @ tr) f'"
proof (cases "\<not> e \<and> len > 0")
  case True
  then obtain h h' where h: "f_handler f = Some h" "tryIntermediateReport env p si now h = Some (h', r)"
    "f' = f\<lparr>f_handler := Some h'\<rparr>"
    using assms(2) by (auto simp: sc_intermediate_def split: option.splits)
  with assms(1) tryIntermediateReport_inv [OF h(2)] show ?thesis
    by (cases r) (auto simp: rep_inv_def first_only_snoc)
qed (use assms in \<open>auto simp: sc_intermediate_def reported_def\<close>)

lemma sc_check_answer_rep_inv:
  assumes "rep_inv tr f" "sc_check_answer env si now st info f = Some f'"
  shows "rep_inv (Checked st info # tr) f'"
proof (rule rep_inv_cong [OF assms(1)])
  obtain h rc where h: "f_handler f = Some h" "h_require_ctx h = Some rc"
    using assms(2) by (auto simp: sc_check_answer_def split: option.splits)
  with assms(2) same_stream_operations(2) [of h rc si now "req_headers (f_stream f)" st info]
  show "case f_handler f of None \<Rightarrow> f_handler f' = None
         | Some h \<Rightarrow> \<exists>h'. f_handler f' = Some h' \<and> same_stream h h'"
    by (auto simp: sc_check_answer_def split: prod.splits)
qed simp

lemma sc_run_rep_inv:
  assumes "sc_run env p cl s tr f" "sent_reply s = None" "ScConfigParser_new config = Inr p"
  shows "rep_inv tr f"
  using assms
proof (induction rule: sc_run.induct)
  case start
  then show ?case by (simp add: rep_inv_def new_ScFilter_def first_only_def)
next
  case (headers_begin tr f uuid si now)
  let ?h = "new_Handler env p (f_stream f) uuid now"
  have "f_handler f = None"
    using sc_run_inv [OF headers_begin.hyps(1) headers_begin.prems(1)] headers_begin.hyps(2) by (simp add: sc_inv_def)
  with headers_begin have "reports tr = []" by (simp add: rep_inv_def)
  with named_new_Handler [OF headers_begin.prems(2) headers_begin.hyps(3), of env "f_stream f" now]
    same_stream_operations(1) [of ?h si "req_headers (f_stream f)" now]
  show ?case by (auto simp: rep_inv_def sc_headers_begin_def same_stream_def named_def first_only_def split: prod.splits)
next
  case (headers_end tr f)
  then show ?case by (auto simp: sc_headers_end_def rep_inv_def)
next
  case (check_answer tr f si now st info f')
  then show ?case by (intro sc_check_answer_rep_inv) auto
next
  case (quota_answer tr f st f')
  then have inv: "rep_inv tr f" by simp
  show ?case
    by (rule rep_inv_cong [OF inv])
      (use quota_answer(3) in \<open>auto simp: sc_quota_answer_def quota_answered_def same_stream_def split: option.splits\<close>)
next
  case (decode_data tr f si now len e st f' r)
  then show ?case by (auto simp: sc_decodeData_def intro!: sc_intermediate_rep_inv)
next
  case (encode_headers tr f si hs)
  then have inv: "rep_inv tr f" by simp
  show ?case
    by (rule rep_inv_cong [OF inv])
      (auto simp: sc_encodeHeaders_def same_stream_operations split: option.splits)
next
  case (encode_data tr f si now len e st f' r)
  then show ?case by (auto simp: sc_encodeData_def intro!: sc_intermediate_rep_inv)
next
  case (destroy tr f si now f')
  then show ?case by (auto simp: sc_onDestroy_def intro: sc_check_answer_rep_inv split: if_splits)
qed

section \<open>The final report\<close>

lemma final_report_method:
  "operation_id (final_report env p rc si rq rs rt now h) = h_uuid h"
  "operation_name (final_report env p rc si rq rs rt now h) = rq_operation_name (rc_config rc)"
  "is_final_report (final_report env p rc si rq rs rt now h)"
  "is_first_report (final_report env p rc si rq rs rt now h) = h_is_first_report h"
  by (auto simp: final_report_def prepareReportRequest_method Let_def split: option.splits)

lemma callReport_final:
  assumes "callReport env p si rq rs rt now h = (h', Some r)" "named h" "ScConfigParser_new config = Inr p"
  shows "has_method r \<and> is_final_report r \<and> is_first_report r = h_is_first_report h"
  using assms(1,2)
  by (auto simp: callReport_def has_method_def final_report_method named_def Let_def
      ScConfigParser_new_maps(5) [OF assms(3)] kUnrecognizedOperation_def split: if_splits option.splits)

lemma sc_log_final:
  assumes "rep_inv tr f" "sc_log env p si uuid rq rs rt now f = (f', Some r)"
    "ScConfigParser_new config = Inr p" "uuid \<noteq> []"
  shows "has_method r \<and> is_final_report r \<and> first_only (reports tr @ [r])"
proof -
  obtain h h' where h: "callReport env p si rq rs rt now h = (h', Some r)" "named h"
      "h_is_first_report h \<longleftrightarrow> reports tr = []"
    using assms(1,2) named_new_Handler [OF assms(3,4)]
    by (auto simp: sc_log_def rep_inv_def split: option.splits prod.splits)
  with callReport_final [OF h(1,2) assms(3)] assms(1) show ?thesis
    by (auto simp: first_only_snoc rep_inv_def)
qed

text \<open>
  C31: over a whole stream, however its callbacks, intermediate reports and answers are interleaved,
  the reports sent up to and including that of \<open>log\<close> count the request exactly once for the
  producer, and once for the consumer if the first report has an API key; only the report of
  \<open>log\<close> is marked as final.
\<close>

theorem stream_reports_once:
  fixes env :: "'d env"
  assumes "sc_run henv p cl s tr f" "sent_reply s = None" "ScConfigParser_new config = Inr p" "uuid \<noteq> []"
    and "sc_log henv p si uuid rq rs rt now f = (f', Some r)" "distributions_ok env"
  shows "metric_total ''serviceruntime.googleapis.com/api/producer/request_count''
      (stream_operations env (RequestBuilder_all logs n c) (reports tr @ [r])) = 1 \<and>
    metric_total ''serviceruntime.googleapis.com/api/consumer/request_count''
      (stream_operations env (RequestBuilder_all logs n c) (reports tr @ [r])) =
        (if api_key (hd (reports tr @ [r])) = [] then 0 else 1) \<and>
    filter is_final_report (reports tr @ [r]) = [r]"
proof -
  have inv: "rep_inv tr f" by (rule sc_run_rep_inv [OF assms(1-3)])
  note last = sc_log_final [OF inv assms(5,3,4)]
  obtain i rest where i: "reports tr @ [r] = i # rest" by (cases "reports tr @ [r]") auto
  have first: "is_first_report i" "\<And>j. j \<in> set rest \<Longrightarrow> \<not> is_first_report j"
    using last unfolding i first_only_def by (auto simp: list_all_iff)
  have "list_all has_method (reports tr @ [r])"
    using inv last by (auto simp: rep_inv_def list_all_iff)
  then have "\<And>j. j \<in> set (i # rest) \<Longrightarrow> has_method j" unfolding i by (auto simp: list_all_iff)
  note counts = stream_counts_once [OF assms(6) first this, where logs = logs and n = n and c = c]
  moreover have "filter is_final_report (reports tr @ [r]) = [r]"
    using inv last by (simp add: rep_inv_def list_all_iff filter_empty_conv)
  ultimately show ?thesis unfolding i by simp
qed

text \<open>A stream with an intermediate report, sent when its first data arrives ten seconds later.\<close>

definition example_data :: "FilterDataStatus \<times> ScFilter \<times> ReportRequestInfo option" where
  "example_data = the (sc_decodeData example_handler_env (example_parser False) example_stream_info 10000000000 1 False
     example_passed)"

definition example_reported :: ScFilter where "example_reported = fst (snd example_data)"

definition example_log :: "ScFilter \<times> ReportRequestInfo option" where
  "example_log = sc_log example_handler_env (example_parser False) example_stream_info ''id'' None None None 0
     example_reported"

lemma example_data_some:
  "sc_decodeData example_handler_env (example_parser False) example_stream_info 10000000000 1 False example_passed
     = Some (fst example_data, example_reported, snd (snd example_data))"
  "snd (snd example_data) \<noteq> None" "snd example_log \<noteq> None"
  by code_simp+

theorem stream_reports_once_witness:
  "metric_total ''serviceruntime.googleapis.com/api/producer/request_count''
      (stream_operations example_env (RequestBuilder_all {} ''s'' ''c'')
        (reports (reported (snd (snd example_data)) @ [Checked Status_OK new_CheckResponseInfo]) @
         [the (snd example_log)])) = 1"
proof (rule stream_reports_once [THEN conjunct1, OF _ example_stream_no_reply example_parser_new])
  show "sc_run example_handler_env (example_parser False) example_client example_sc_stream
      (reported (snd (snd example_data)) @ [Checked Status_OK new_CheckResponseInfo]) example_reported"
    by (rule sc_run.decode_data [OF example_passed_run example_data_some(1)])
  show "sc_log example_handler_env (example_parser False) example_stream_info ''id'' None None None 0 example_reported
      = (fst example_log, Some (the (snd example_log)))"
    using example_data_some(3) by (simp add: example_log_def)
  show "distributions_ok example_env" by (rule example_distributions)
qed simp

section \<open>Two observations\<close>

text \<open>
  An intermediate report is sent for an operation that is configured to skip Service Control, for
  which neither a check nor a final report is made.
\<close>

lemma skipped_operation_reports:
  "(case new_Handler example_handler_env (example_parser True) example_sc_stream ''id'' 0 of h \<Rightarrow>
      snd (callReport example_handler_env (example_parser True) example_stream_info None None None 0 h) = None \<and>
      map_option (\<lambda>x. snd x = None)
        (tryIntermediateReport example_handler_env (example_parser True) example_stream_info 10000000000 h) = Some False)"
  by code_simp

text \<open>
  Destroying a stream whose check is in progress cancels the check. A client that fails open turns
  that into success, so \<open>continueDecoding\<close> is called on a stream that is being destroyed.
\<close>

lemma destroy_continues:
  "map_option f_continued (sc_onDestroy example_handler_env
       (example_client\<lparr>cl_setting := (cl_setting example_client)\<lparr>hs_network_fail_open := True\<rparr>\<rparr>)
       example_stream_info 0 example_waiting) = Some 1"
  by code_simp

end
