(* ===== verification/RequestFlow.thy ===== *)
theory RequestFlow
  imports PathMatcherFilter BackendRouting BackendAuth ServiceControlFilter
begin

text \<open>
  A request on its way through all four filters, in the order the configuration has them: path
  matcher, Service Control, backend authentication, backend routing. The filters share the stream:
  the path matcher leaves the operation there, and each of the others reads it. What the Service
  Control filter does to the stream between its callbacks is the invariant here.
\<close>

section \<open>The stream under the Service Control filter\<close>

definition request_key :: "handler_env \<Rightarrow> ScConfigParser \<Rightarrow> stream \<Rightarrow> string" where
  "request_key env p s =
     snd (extractAPIKey env (req_headers s) (key_locations p (getStringFilterState s kOperation)) [])"

definition request_ctx :: "ScConfigParser \<Rightarrow> stream \<Rightarrow> RequirementContext option" where
  "request_ctx p s =
     (if getStringFilterState s kOperation = [] then None else FindRequirement p (getStringFilterState s kOperation))"

definition about_stream :: "handler_env \<Rightarrow> ScConfigParser \<Rightarrow> stream \<Rightarrow> Handler \<Rightarrow> bool" where
  "about_stream env p s h \<longleftrightarrow> h_require_ctx h = request_ctx p s \<and> h_api_key h = request_key env p s"

text \<open>The filter changes at most the header with the consumer's project.\<close>

definition stream_kept :: "stream \<Rightarrow> stream \<Rightarrow> bool" where
  "stream_kept s s' \<longleftrightarrow> filter_state s' = filter_state s \<and>
     (\<forall>n. n \<noteq> kConsumerProjectId \<longrightarrow> header_get n (req_headers s') = header_get n (req_headers s))"

definition flow_inv :: "handler_env \<Rightarrow> ScConfigParser \<Rightarrow> stream \<Rightarrow> ScFilter \<Rightarrow> bool" where
  "flow_inv env p s f \<longleftrightarrow> stream_kept s (f_stream f) \<and> (f_state f = Init \<longrightarrow> f_stream f = s) \<and>
     (case f_handler f of None \<Rightarrow> True | Some h \<Rightarrow> about_stream env p s h)"

lemma about_new_Handler: "about_stream env p s (new_Handler env p s uuid now)"
  by (simp add: about_stream_def new_Handler_def request_ctx_def request_key_def Let_def)

lemma about_stream_operations:
  assumes "about_stream env p s h"
  shows "about_stream env p s (fst (callCheck si hs now h))"
    and "about_stream env p s (fst (check_answered rc si now hs st info h))"
    and "about_stream env p s (fst (quota_answered st h))"
    and "about_stream env p s (processResponseHeaders env si hs h)"
    and "tryIntermediateReport env p si now h = Some (h', r) \<Longrightarrow> about_stream env p s h'"
  using assms
  by (auto simp: about_stream_def callCheck_def callQuota_def check_answered_def onCheckResponse_def
      quota_answered_def processResponseHeaders_def tryIntermediateReport_def Let_def
      split: option.splits if_splits)

lemma perform_flow_inv:
  assumes "stream_kept s (f_stream f)" "f_state f \<noteq> Init" "f_handler f = Some h" "about_stream env p s h"
  shows "flow_inv env p s (perform henv a f)"
proof (cases a)
  case (CheckDone st)
  with assms show ?thesis
    by (simp add: flow_inv_def perform_def sc_onCheckDone_def sc_rejectRequest_def sendLocalReply_def
        setResponseFlag_def stream_kept_def Let_def)
qed (use assms in \<open>simp_all add: flow_inv_def perform_def\<close>)

lemma check_answered_headers:
  "n \<noteq> kConsumerProjectId \<Longrightarrow>
   header_get n (fst (snd (check_answered rc si now hs st info h))) = header_get n hs"
  by (auto simp: check_answered_def onCheckResponse_def setReferenceKey_def Let_def split: prod.splits option.splits)

lemma sc_check_answer_flow_inv:
  assumes "flow_inv env p s f" "f_state f \<noteq> Init" "sc_check_answer env si now st info f = Some f'"
  shows "flow_inv env p s f'"
proof -
  obtain h rc where h: "f_handler f = Some h" "h_require_ctx h = Some rc"
    using assms(3) by (auto simp: sc_check_answer_def split: option.splits)
  obtain h' hs a where r: "check_answered rc si now (req_headers (f_stream f)) st info h = (h', hs, a)"
    by (metis surj_pair)
  have "about_stream env p s h" using assms(1) h(1) by (simp add: flow_inv_def)
  from about_stream_operations(2) [OF this, of rc si now "req_headers (f_stream f)" st info] r
  have a: "about_stream env p s h'" by simp
  have "stream_kept s ((f_stream f)\<lparr>req_headers := hs\<rparr>)"
    using check_answered_headers [of _ rc si now "req_headers (f_stream f)" st info h] r assms(1)
    by (simp add: stream_kept_def flow_inv_def)
  with a assms(2,3) h r show ?thesis by (auto simp: sc_check_answer_def intro!: perform_flow_inv)
qed

lemma sc_quota_answer_flow_inv:
  assumes "flow_inv env p s f" "f_state f \<noteq> Init" "sc_quota_answer env st f = Some f'"
  shows "flow_inv env p s f'"
proof -
  obtain h where h: "f_handler f = Some h"
    using assms(3) by (auto simp: sc_quota_answer_def split: option.splits)
  then have "f' = perform env (CheckDone st) (f\<lparr>f_handler := Some (h\<lparr>h_check_status := st\<rparr>)\<rparr>)"
    using assms(3) by (simp add: sc_quota_answer_def quota_answered_def)
  moreover have "stream_kept s (f_stream f)" "about_stream env p s (h\<lparr>h_check_status := st\<rparr>)"
    using assms(1) h by (simp_all add: flow_inv_def about_stream_def)
  ultimately show ?thesis using assms(2) by (auto intro!: perform_flow_inv)
qed

lemma sc_intermediate_flow_inv:
  assumes "flow_inv env p s f" "sc_intermediate env p si now len e f = Some (f', r)"
  shows "flow_inv env p s f'"
  using assms
  by (auto simp: sc_intermediate_def flow_inv_def about_stream_operations(5) split: if_splits option.splits)

lemma sc_run_flow_inv:
  assumes "sc_run env p cl s tr f" "sent_reply s = None"
  shows "flow_inv env p s f"
  using assms
proof (induction rule: sc_run.induct)
  case start
  then show ?case by (simp add: flow_inv_def new_ScFilter_def stream_kept_def)
next
  case (headers_begin tr f uuid si now)
  then have s: "f_stream f = s" by (simp add: flow_inv_def)
  show ?case
    using about_stream_operations(1) [OF about_new_Handler]
    by (auto simp: sc_headers_begin_def s stream_kept_def split: prod.splits intro!: perform_flow_inv) (metis fst_conv)
next
  case (headers_end tr f)
  then show ?case by (auto simp: sc_headers_end_def flow_inv_def)
next
  case (check_answer tr f si now st info f')
  then have "f_state f \<noteq> Init" using sc_run_inv [of env p cl s tr f] by (auto simp: sc_inv_def)
  with check_answer show ?case by (auto intro: sc_check_answer_flow_inv)
next
  case (quota_answer tr f st f')
  then have "f_state f \<noteq> Init" using sc_run_inv [of env p cl s tr f] by (auto simp: sc_inv_def)
  with quota_answer show ?case by (auto intro: sc_quota_answer_flow_inv)
next
  case (decode_data tr f si now len e st f' r)
  then show ?case by (auto simp: sc_decodeData_def intro: sc_intermediate_flow_inv)
next
  case (encode_headers tr f si hs)
  then show ?case by (auto simp: sc_encodeHeaders_def flow_inv_def about_stream_operations(4) split: option.splits)
next
  case (encode_data tr f si now len e st f' r)
  then show ?case by (auto simp: sc_encodeData_def intro: sc_intermediate_flow_inv)
next
  case (destroy tr f si now f')
  show ?case
  proof (cases "sc_cancels f")
    case True
    then have "f_state f \<noteq> Init"
      using sc_run_inv [OF destroy.hyps(1) destroy.prems] by (auto simp: sc_inv_def sc_cancels_def)
    with True destroy show ?thesis by (auto simp: sc_onDestroy_def intro: sc_check_answer_flow_inv)
  qed (use destroy in \<open>simp add: sc_onDestroy_def\<close>)
qed

section \<open>The backend filters\<close>

text \<open>What a request that reaches the backend looks like behind the last two filters.\<close>

abbreviation backend_filters ::
    "BackendAuthConfig \<Rightarrow> (string \<times> string) list \<Rightarrow> BackendAuthStats \<Rightarrow> BackendRoutingRule list
     \<Rightarrow> BackendRoutingStats \<Rightarrow> chain_filter" where
  "backend_filters ac deliveries astats rules rstats \<equiv>
     run_chain [on_stream (BackendAuth_decodeHeaders (parser_after ac deliveries)) astats,
                on_stream (BackendRouting_decodeHeaders (BackendRouting_FilterConfig rules Map.empty)) rstats]"

definition forwarded_path :: "BackendRoutingRule list \<Rightarrow> string \<Rightarrow> string \<Rightarrow> string \<Rightarrow> string" where
  "forwarded_path rules operation path params =
     (case routing_rule rules operation of None \<Rightarrow> path | Some rule \<Rightarrow> backend_path rule path params)"

definition forwarded_authorization ::
    "BackendAuthConfig \<Rightarrow> (string \<times> string) list \<Rightarrow> string \<Rightarrow> string option \<Rightarrow> string option" where
  "forwarded_authorization ac deliveries operation sent =
     (let audience = operation_audience ac operation
      in if audience = [] then sent else map_option (\<lambda>token. ''Bearer '' @ token) (latest_token deliveries audience))"

lemma header_get_snoc:
  "header_get n (filter (\<lambda>h. fst h \<noteq> m) hs @ [(m, v)]) = (if n = m then Some v else header_get n hs)"
proof -
  have "filter (\<lambda>h. fst h \<noteq> m) hs @ [(m, v)] = header_addCopy m v (header_remove m hs)"
    by (simp add: header_addCopy_def header_remove_def)
  then show ?thesis by (simp split: option.splits)
qed

lemma backend_auth_step:
  assumes "on_stream (BackendAuth_decodeHeaders (parser_after ac deliveries)) astats s = Some (Continue, s')"
  shows "filter_state s' = filter_state s"
    and "header_get n (req_headers s') =
      (if n = kAuthorization
       then forwarded_authorization ac deliveries (getStringFilterState s kOperation) (header_get n (req_headers s))
       else header_get n (req_headers s))"
    and "operation_audience ac (getStringFilterState s kOperation) \<noteq> [] \<Longrightarrow>
      latest_token deliveries (operation_audience ac (getStringFilterState s kOperation)) \<noteq> None"
  using assms
  by (auto simp: on_stream_def BackendAuth_decodeHeaders_eq forwarded_authorization_def header_get_snoc
      kAuthorization_def Let_def split: if_splits option.splits)

lemma backend_routing_step:
  assumes "on_stream (BackendRouting_decodeHeaders (BackendRouting_FilterConfig rules Map.empty)) rstats s = Some (Continue, s')"
    and "header_get kPath (req_headers s) = Some path"
  shows "header_get n (req_headers s') =
      (if n = kPath
       then Some (forwarded_path rules (getStringFilterState s kOperation) path (getStringFilterState s kQueryParams))
       else header_get n (req_headers s))"
  using assms BackendRouting_decodeHeaders_eq [of rules rstats s]
  by (auto simp: on_stream_def forwarded_path_def header_get_snoc split: option.splits)

lemma kNames [simp]: "kPath \<noteq> kAuthorization" "kAuthorization \<noteq> kPath" "kPath \<noteq> kConsumerProjectId" "kAuthorization \<noteq> kConsumerProjectId"
  by (simp_all add: kPath_def kAuthorization_def kConsumerProjectId_def)

lemma backend_filters_forward:
  assumes "backend_filters ac deliveries astats rules rstats s = Some (Continue, s')"
    and "header_get kPath (req_headers s) = Some path"
  shows "header_get kPath (req_headers s') =
      Some (forwarded_path rules (getStringFilterState s kOperation) path (getStringFilterState s kQueryParams))"
    and "header_get kAuthorization (req_headers s') =
      forwarded_authorization ac deliveries (getStringFilterState s kOperation) (header_get kAuthorization (req_headers s))"
    and "operation_audience ac (getStringFilterState s kOperation) \<noteq> [] \<Longrightarrow>
      latest_token deliveries (operation_audience ac (getStringFilterState s kOperation)) \<noteq> None"
proof -
  obtain s1 where 1: "on_stream (BackendAuth_decodeHeaders (parser_after ac deliveries)) astats s = Some (Continue, s1)"
    and 2: "on_stream (BackendRouting_decodeHeaders (BackendRouting_FilterConfig rules Map.empty)) rstats s1 =
      Some (Continue, s')"
    using assms(1) by (auto split: option.splits prod.splits if_splits)
  note a = backend_auth_step [OF 1]
  have "header_get kPath (req_headers s1) = Some path" using a(2) [of kPath] assms(2) by simp
  note r = backend_routing_step [OF 2 this]
  show "header_get kPath (req_headers s') =
      Some (forwarded_path rules (getStringFilterState s kOperation) path (getStringFilterState s kQueryParams))"
    using r [of kPath] getString_cong [OF a(1)] by simp
  show "header_get kAuthorization (req_headers s') =
      forwarded_authorization ac deliveries (getStringFilterState s kOperation) (header_get kAuthorization (req_headers s))"
    using r [of kAuthorization] a(2) [of kAuthorization] by simp
  show "operation_audience ac (getStringFilterState s kOperation) \<noteq> [] \<Longrightarrow>
      latest_token deliveries (operation_audience ac (getStringFilterState s kOperation)) \<noteq> None"
    by (rule a(3))
qed

end
