(* ===== verification/CheckFlow.thy ===== *)
theory CheckFlow
  imports RequestFlow
begin

text \<open>
  The check of a request, from the filter to the server and back: the handler asks
  (\<open>handler_impl.cc\<close>), the request builder fills the message (\<open>service_control_call_impl.cc\<close>), the
  transport sends it over HTTP with retries (\<open>client_cache.cc\<close>, \<open>http_call.cc\<close>), and the outcome of the
  call becomes the verdict.

  In the runs of the Service Control filter an answer of the client is any answer. Here it is the one
  that the call made for this request leads to, or a response that the client library has in
  its cache for an equal request. Every such run is a run of the filter (\<open>check_run_refines\<close>), so
  all that holds of those holds here; and the trace says more: a check that was answered was
  asked for this request's API key and operation.
\<close>

section \<open>The composed system\<close>

text \<open>
  What is outside the repository: splitting an address, the wire format, and which responses the
  client library may have in its cache for a request.
\<close>

record 'd wire =
  w_extractHostPath :: "string \<Rightarrow> string \<times> string"
  w_SerializeAsString :: "'d CheckRequest \<Rightarrow> string"
  w_ParseFromString :: "string \<Rightarrow> CheckResponse option"
  w_cached :: "'d CheckRequest \<Rightarrow> CheckResponse \<Rightarrow> bool"

definition scc_client :: "'d ServiceControlCall \<Rightarrow> ClientCache" where
  "scc_client scc = tl_client_cache (scc_tls scc)"

text \<open>Where the check of a request is: not asked for, in a call, or answered from the cache.\<close>

datatype check_progress = NotAsked | AtServer HttpCall | FromCache CheckResponse

inductive asks ::
    "'d wire \<Rightarrow> 'd env \<Rightarrow> 'd ServiceControlCall \<Rightarrow> check_action \<Rightarrow> CheckRequestInfo option \<Rightarrow> check_progress \<Rightarrow> bool"
  for w denv scc where
  nothing: "asks w denv scc (CheckDone st) None NotAsked"
| only_quota: "asks w denv scc (SendQuota q) None NotAsked"
| server: "asks w denv scc (SendCheck i) (Some i)
     (AtServer (check_transport (w_extractHostPath w) (w_SerializeAsString w) (scc_client scc) token
       (scc_callCheck denv scc i)))"
| cache: "w_cached w (scc_callCheck denv scc i) r \<Longrightarrow> asks w denv scc (SendCheck i) (Some i) (FromCache r)"

inductive_simps asks_simps:
  "asks w denv scc (CheckDone st) asked pr"
  "asks w denv scc (SendQuota q) asked pr"
  "asks w denv scc (SendCheck i) asked pr"

text \<open>The verdict that the progress has come to, if it has.\<close>

fun progress_verdict :: "'d wire \<Rightarrow> ClientCache \<Rightarrow> check_progress \<Rightarrow> (Status \<times> CheckResponseInfo) option" where
  "progress_verdict w cl NotAsked = None"
| "progress_verdict w cl (AtServer hc) =
     (case hc_done hc of [outcome] \<Rightarrow> Some (check_verdict (w_ParseFromString w) cl outcome) | _ \<Rightarrow> None)"
| "progress_verdict w cl (FromCache r) = Some (callCheck_done cl Status_OK r)"

text \<open>
  What \<open>ClientCache::callCheck\<close> does with the request is one of these ways to ask, for every client
  library that answers at once only from its cache.
\<close>

lemma callCheck_asks:
  assumes "ClientCache_callCheck Check (w_extractHostPath w) (w_SerializeAsString w) (scc_client scc) token
      (scc_callCheck denv scc i) client = (client', res)"
    and "\<And>client client' request status r. Check client request = (client', Some (status, r)) \<Longrightarrow>
      status = Status_OK \<and> w_cached w request r"
  obtains pr where "asks w denv scc (SendCheck i) (Some i) pr"
    "case res of Inl verdict \<Rightarrow> progress_verdict w (scc_client scc) pr = Some verdict | Inr hc \<Rightarrow> pr = AtServer hc"
proof (cases "snd (Check client (scc_callCheck denv scc i))")
  case None
  with assms(1) that [OF asks.server] show thesis
    by (auto simp: ClientCache_callCheck_def split: prod.splits option.splits)
next
  case (Some sr)
  obtain status r where sr: "sr = (status, r)" by fastforce
  have "Check client (scc_callCheck denv scc i) = (fst (Check client (scc_callCheck denv scc i)), Some (status, r))"
    using Some sr by (metis prod.collapse)
  note cached = this assms(2) [OF this]
  then have "res = Inl (callCheck_done (scc_client scc) Status_OK r)"
    using assms(1) by (simp add: ClientCache_callCheck_def split: prod.splits)
  with that [OF asks.cache [where r = r]] cached(2) show thesis by simp
qed

text \<open>The callbacks of the filter that have nothing to do with its check.\<close>

inductive sc_other :: "handler_env \<Rightarrow> ScConfigParser \<Rightarrow> ScFilter \<Rightarrow> sc_obs list \<Rightarrow> ScFilter \<Rightarrow> bool"
  for env p f where
  headers_end: "f_state f \<noteq> Init \<Longrightarrow> sc_other env p f [] (snd (sc_headers_end f))"
| quota: "f_awaiting f = QuotaAnswer \<Longrightarrow> sc_quota_answer env status f = Some f' \<Longrightarrow>
     sc_other env p f [QuotaChecked status] f'"
| decode_data: "sc_decodeData env p si now len end_stream f = Some (st, f', r) \<Longrightarrow> sc_other env p f (reported r) f'"
| encode_headers: "sc_other env p f [] (sc_encodeHeaders env si hs f)"
| encode_data: "sc_encodeData env p si now len end_stream f = Some (st, f', r) \<Longrightarrow> sc_other env p f (reported r) f'"

text \<open>
  \<open>check_run env denv w p scc s tr f asked pr\<close>: for the stream \<open>s\<close> the filter can be in state \<open>f\<close>
  after the trace \<open>tr\<close>, having asked for the check \<open>asked\<close>, which is at \<open>pr\<close>. A destroyed stream
  cancels the call, which is one of the events of the call.
\<close>

inductive check_run ::
    "handler_env \<Rightarrow> 'd env \<Rightarrow> 'd wire \<Rightarrow> ScConfigParser \<Rightarrow> 'd ServiceControlCall \<Rightarrow> stream
     \<Rightarrow> sc_obs list \<Rightarrow> ScFilter \<Rightarrow> CheckRequestInfo option \<Rightarrow> check_progress \<Rightarrow> bool"
  for env denv w p scc s where
  start: "check_run env denv w p scc s [] (new_ScFilter s) None NotAsked"
| headers: "check_run env denv w p scc s tr f asked pr \<Longrightarrow> f_state f = Init \<Longrightarrow> uuid \<noteq> [] \<Longrightarrow>
     callCheck si (req_headers (f_stream f)) now (new_Handler env p (f_stream f) uuid now) = (h, action) \<Longrightarrow>
     asks w denv scc action asked' pr' \<Longrightarrow>
     check_run env denv w p scc s tr (sc_headers_begin env p si uuid now f) asked' pr'"
| http: "check_run env denv w p scc s tr f asked (AtServer hc) \<Longrightarrow> http_step hc hc' \<Longrightarrow>
     check_run env denv w p scc s tr f asked (AtServer hc')"
| answer: "check_run env denv w p scc s tr f asked pr \<Longrightarrow> f_awaiting f = CheckAnswer \<Longrightarrow>
     progress_verdict w (scc_client scc) pr = Some (status, info) \<Longrightarrow>
     sc_check_answer env si now status info f = Some f' \<Longrightarrow>
     check_run env denv w p scc s (Checked status info # tr) f' asked pr"
| other: "check_run env denv w p scc s tr f asked pr \<Longrightarrow> sc_other env p f obs f' \<Longrightarrow>
     check_run env denv w p scc s (obs @ tr) f' asked pr"

section \<open>Refinement\<close>

lemma sc_other_run:
  "sc_other env p f obs f' \<Longrightarrow> sc_run env p cl s tr f \<Longrightarrow> sc_run env p cl s (obs @ tr) f'"
  by (induction rule: sc_other.induct) (auto intro: sc_run.intros)

lemma check_run_refines:
  "check_run env denv w p scc s tr f asked pr \<Longrightarrow> sc_run env p (scc_client scc) s tr f"
proof (induction rule: check_run.induct)
  case (other tr f asked pr obs f')
  then show ?case by (auto intro: sc_other_run)
qed (auto intro: sc_run.intros)

section \<open>Where an answer comes from\<close>

definition no_check :: "sc_obs list \<Rightarrow> bool" where
  "no_check tr \<longleftrightarrow> (\<forall>st info. Checked st info \<notin> set tr)"

lemma no_check_simps [simp]:
  "no_check []" "no_check (reported r)" "no_check [QuotaChecked st]" "\<not> no_check (Checked st info # tr)"
  "no_check (obs @ tr) \<longleftrightarrow> no_check obs \<and> no_check tr"
  by (auto simp: no_check_def reported_def split: option.splits)

lemma perform_state: "f_state f = Calling \<Longrightarrow> f_state (perform env a f) \<noteq> Init"
  by (cases a) (auto simp: perform_def sc_onCheckDone_def sc_rejectRequest_def Let_def)

lemma perform_awaiting: "f_awaiting (perform env (CheckDone st) f) = NoAnswer"
  by (auto simp: perform_def sc_onCheckDone_def sc_rejectRequest_def Let_def)

lemma sc_other_keeps:
  assumes "sc_other env p f obs f'" "sc_inv tr f"
  shows "no_check obs \<and> (f_state f' = Init \<longrightarrow> f_state f = Init) \<and>
    (f_awaiting f' = CheckAnswer \<longrightarrow> f_awaiting f = CheckAnswer)"
  using assms
proof (induction rule: sc_other.induct)
  case (quota status f')
  have "f_state f = Calling" using quota by (cases "f_state f") (auto simp: sc_inv_def idle_def)
  with quota show ?case
    by (auto simp: sc_quota_answer_def quota_answered_def perform_awaiting perform_state split: option.splits)
qed (auto simp: sc_headers_end_def sc_decodeData_def sc_encodeData_def sc_encodeHeaders_def sc_intermediate_def
    split: if_splits option.splits)

text \<open>A check that was asked is about the request: its key, its operation, and with an id of its own.\<close>

definition asked_for :: "handler_env \<Rightarrow> ScConfigParser \<Rightarrow> stream \<Rightarrow> CheckRequestInfo \<Rightarrow> bool" where
  "asked_for env p s i \<longleftrightarrow> api_key i = request_key env p s \<and> operation_id i \<noteq> [] \<and>
     (\<exists>rc. request_ctx p s = Some rc \<and> operation_name i = rq_operation_name (rc_config rc))"

lemma callCheck_asked_for:
  assumes "callCheck si hs now (new_Handler env p s uuid now) = (h, SendCheck i)" "uuid \<noteq> []"
  shows "asked_for env p s i"
  using assms
  by (auto simp: callCheck_def callQuota_def new_Handler_def asked_for_def request_ctx_def request_key_def
      fillOperationInfo_def Let_def split: option.splits if_splits)

fun progress_ok ::
    "'d wire \<Rightarrow> ClientCache \<Rightarrow> 'd CheckRequest \<Rightarrow> check_progress \<Rightarrow> bool" where
  "progress_ok w cl request NotAsked = False"
| "progress_ok w cl request (AtServer hc) =
     (\<exists>n. http_run (check_call (w_extractHostPath w) cl (w_SerializeAsString w request)) n hc)"
| "progress_ok w cl request (FromCache r) = w_cached w request r"

definition check_inv ::
    "handler_env \<Rightarrow> 'd env \<Rightarrow> 'd wire \<Rightarrow> ScConfigParser \<Rightarrow> 'd ServiceControlCall \<Rightarrow> stream
     \<Rightarrow> sc_obs list \<Rightarrow> ScFilter \<Rightarrow> CheckRequestInfo option \<Rightarrow> check_progress \<Rightarrow> bool" where
  "check_inv env denv w p scc s tr f asked pr \<longleftrightarrow>
     (f_state f = Init \<longrightarrow> asked = None) \<and>
     (asked = None \<longrightarrow> pr = NotAsked \<and> no_check tr \<and> f_awaiting f \<noteq> CheckAnswer) \<and>
     (\<forall>i. asked = Some i \<longrightarrow> asked_for env p s i \<and> progress_ok w (scc_client scc) (scc_callCheck denv scc i) pr) \<and>
     (\<forall>st info. Checked st info \<in> set tr \<longrightarrow> progress_verdict w (scc_client scc) pr = Some (st, info))"

lemma check_run_inv:
  assumes "check_run env denv w p scc s tr f asked pr" "sent_reply s = None"
  shows "check_inv env denv w p scc s tr f asked pr"
  using assms
proof (induction rule: check_run.induct)
  case start
  then show ?case by (simp add: check_inv_def new_ScFilter_def)
next
  case (headers tr f asked pr uuid si now h action asked' pr')
  have stream: "f_stream f = s"
    using sc_run_flow_inv [OF check_run_refines [OF headers(1)]] headers by (simp add: flow_inv_def)
  have f': "sc_headers_begin env p si uuid now f =
      perform env action (f\<lparr>f_handler := Some h, f_state := Calling, f_stopped := False\<rparr>)"
    using headers(4) by (simp add: sc_headers_begin_def)
  have "f_state (sc_headers_begin env p si uuid now f) \<noteq> Init" unfolding f' by (rule perform_state) simp
  moreover have "no_check tr" using headers by (simp add: check_inv_def)
  moreover have "asked_for env p s i" if "action = SendCheck i" for i
    using callCheck_asked_for [of si _ now env p s uuid h i] headers(3,4) that by (simp add: stream)
  ultimately show ?case
    using headers(5)
    by (cases action)
      (auto simp: asks_simps check_inv_def f' perform_def sc_onCheckDone_def sc_rejectRequest_def no_check_def
        check_transport_def Let_def, blast intro: http_run.start)
next
  case (http tr f asked hc hc')
  then have inv: "check_inv env denv w p scc s tr f asked (AtServer hc)" by simp
  then obtain i n where i: "asked = Some i"
    "http_run (check_call (w_extractHostPath w) (scc_client scc) (w_SerializeAsString w (scc_callCheck denv scc i))) n hc"
    by (cases asked) (auto simp: check_inv_def)
  from http_run_result [OF i(2)] http(2) finished_no_step have "hc_done hc = []"
    by (auto simp: check_call_def pending_call_def)
  then have "no_check tr" using inv by (auto simp: check_inv_def no_check_def)
  with inv i http_run.step [OF i(2) http(2)] show ?case by (auto simp: check_inv_def no_check_def)
next
  case (answer tr f asked pr status info si now f')
  have inv: "check_inv env denv w p scc s tr f asked pr" using answer by simp
  have sc: "sc_inv tr f" by (rule sc_run_inv [OF check_run_refines [OF answer(1)] answer.prems])
  have "f_state f = Calling" using sc answer(2) by (cases "f_state f") (auto simp: sc_inv_def idle_def)
  then have "f_state f' \<noteq> Init"
    using answer(4) by (auto simp: sc_check_answer_def perform_state split: option.splits prod.splits)
  then show ?case using inv answer(2,3) by (auto simp: check_inv_def)
next
  case (other tr f asked pr obs f')
  have sc: "sc_inv tr f" by (rule sc_run_inv [OF check_run_refines [OF other(1)] other.prems])
  from sc_other_keeps [OF other(2) sc] other show ?case by (auto simp: check_inv_def no_check_def)
qed

text \<open>What the message of such a check says.\<close>

lemma scc_callCheck_message:
  assumes "operation_id i \<noteq> []" "operation_name i \<noteq> []" "api_key i \<noteq> []"
  shows "op_consumer_id (cr_operation (scc_callCheck denv scc i)) = ''api_key:'' @ api_key i"
    "op_operation_name (cr_operation (scc_callCheck denv scc i)) = operation_name i"
    "cr_service_name (scc_callCheck denv scc i) = rb_service_name (scc_request_builder scc)"
  using assms
  by (simp_all add: scc_callCheck_def FillCheckRequest_def VerifyRequiredCheckFields_def SetOperationCommonFields_def
      kConsumerIdApiKey_def Let_def)

lemma request_ctx_operation:
  assumes "ScConfigParser_new sc = Inr p" "request_ctx p s = Some rc"
  shows "rq_operation_name (rc_config rc) = getStringFilterState s kOperation" "getStringFilterState s kOperation \<noteq> []"
  using assms(2)
  by (auto simp: request_ctx_def ScConfigParser_new_maps(1) [OF assms(1)] new_RequirementContext_def find_Some_iff
      split: if_splits)

text \<open>How the check of a request came to a success.\<close>

definition server_approved :: "'d wire \<Rightarrow> ClientCache \<Rightarrow> 'd CheckRequest \<Rightarrow> check_progress \<Rightarrow> bool" where
  "server_approved w cl request pr \<longleftrightarrow>
     (\<exists>n hc token response r.
        http_run (check_call (w_extractHostPath w) cl (w_SerializeAsString w request)) n hc \<and>
        pr = AtServer (HttpCall_onSuccess token response hc) \<and> rs_status response = Some 200 \<and>
        w_ParseFromString w (rs_body response) = Some r \<and>
        st_ok (fst (ConvertCheckResponse r (sv_service_name (cl_config cl)) new_CheckResponseInfo)))"

definition cache_approved :: "'d wire \<Rightarrow> ClientCache \<Rightarrow> 'd CheckRequest \<Rightarrow> bool" where
  "cache_approved w cl request \<longleftrightarrow>
     (\<exists>r. w_cached w request r \<and>
        st_ok (fst (ConvertCheckResponse r (sv_service_name (cl_config cl)) new_CheckResponseInfo)))"

definition failed_open :: "'d wire \<Rightarrow> ClientCache \<Rightarrow> check_progress \<Rightarrow> bool" where
  "failed_open w cl pr \<longleftrightarrow> hs_network_fail_open (cl_setting cl) \<and>
     (\<exists>hc status body. pr = AtServer hc \<and> hc_done hc = [(status, body)] \<and>
        (st_ok status \<longrightarrow> w_ParseFromString w body = None))"

lemma success_cases:
  assumes "progress_ok w cl request pr" "progress_verdict w cl pr = Some (st, info)" "st_ok st"
  shows "server_approved w cl request pr \<or> cache_approved w cl request \<or> failed_open w cl pr"
proof (cases pr)
  case (AtServer hc)
  then obtain n status body where hc: "hc_done hc = [(status, body)]"
    "http_run (check_call (w_extractHostPath w) cl (w_SerializeAsString w request)) n hc"
    "check_verdict (w_ParseFromString w) cl (status, body) = (st, info)"
    using assms(1,2) by (auto split: list.splits)
  show ?thesis
  proof (cases "st_ok status \<and> w_ParseFromString w body \<noteq> None")
    case True
    then obtain r where r: "w_ParseFromString w body = Some r" by blast
    have fresh: "fresh_call (check_call (w_extractHostPath w) cl (w_SerializeAsString w request))"
      by (simp add: check_call_def)
    from True have "st_ok status" by blast
    from http_run_done_ok [OF hc(2) fresh hc(1) this] obtain m hc1 token response where ok:
      "http_run (check_call (w_extractHostPath w) cl (w_SerializeAsString w request)) m hc1"
      "hc = HttpCall_onSuccess token response hc1" "rs_status response = Some 200" "rs_body response = body" .
    have "ConvertCheckResponse r (sv_service_name (cl_config cl)) new_CheckResponseInfo = (st, info)"
      using hc(3) True r by (simp add: check_verdict_eq)
    then have "server_approved w cl request pr"
      unfolding server_approved_def AtServer ok(2) using ok(1,3,4) r assms(3) by (metis fst_conv)
    then show ?thesis ..
  next
    case False
    with hc(1,3) AtServer assms(3) show ?thesis
      by (auto simp: failed_open_def check_verdict_eq split: if_splits option.splits)
  qed
next
  case (FromCache r)
  with assms show ?thesis by (auto simp: cache_approved_def callCheck_done_def)
qed (use assms in simp)

section \<open>Properties\<close>

text \<open>
  C3: who passes, from the request to the server. If a request passes the Service Control filter and
  its operation requires a check, then the request has an API key, and a check was made whose message
  names that key as the consumer, that operation, and the service of the call object. And either the server answered the call that
  carried this very message with 200 and a response that lets the caller pass; or the client library
  had such a response for an equal message in its cache; or the call failed and the configuration says
  to let requests pass then.
\<close>

theorem check_passed:
  assumes "check_run env denv w p scc s tr f asked pr" "ScConfigParser_new sc = Inr p"
    and "sent_reply s = None" "f_state f = Complete"
  shows "\<exists>rc. request_ctx p s = Some rc \<and>
    (isCheckRequired rc \<longrightarrow>
      (\<exists>i request. asked = Some i \<and> request = scc_callCheck denv scc i \<and> request_key env p s \<noteq> [] \<and>
        op_consumer_id (cr_operation request) = ''api_key:'' @ request_key env p s \<and>
        op_operation_name (cr_operation request) = getStringFilterState s kOperation \<and>
        cr_service_name request = rb_service_name (scc_request_builder scc) \<and>
        (server_approved w (scc_client scc) request pr \<or> cache_approved w (scc_client scc) request \<or>
         failed_open w (scc_client scc) pr)))"
proof -
  note run = check_run_refines [OF assms(1)]
  have inv: "check_inv env denv w p scc s tr f asked pr" by (rule check_run_inv [OF assms(1,3)])
  obtain h rc where h: "f_handler f = Some h" "h_require_ctx h = Some rc" "checked_ok tr h rc"
    using sc_run_inv [OF run assms(3)] assms(4) by (auto simp: sc_inv_def)
  have ctx: "request_ctx p s = Some rc" "h_api_key h = request_key env p s"
    using sc_run_flow_inv [OF run assms(3)] h(1,2) by (simp_all add: flow_inv_def about_stream_def)
  show ?thesis
  proof (intro exI [of _ rc] conjI impI ctx(1))
    assume "isCheckRequired rc"
    then obtain st info where st: "request_key env p s \<noteq> []" "Checked st info \<in> set tr" "st_ok st"
      using h(3) ctx(2) by (auto simp: checked_ok_def)
    then obtain i where i: "asked = Some i" "asked_for env p s i"
      "progress_ok w (scc_client scc) (scc_callCheck denv scc i) pr"
      "progress_verdict w (scc_client scc) pr = Some (st, info)"
      using inv by (cases asked) (auto simp: check_inv_def no_check_def)
    have op: "operation_name i = getStringFilterState s kOperation" "operation_name i \<noteq> []"
      "operation_id i \<noteq> []" "api_key i = request_key env p s"
      using i(2) ctx(1) request_ctx_operation [OF assms(2) ctx(1)] by (auto simp: asked_for_def)
    show "\<exists>i request. asked = Some i \<and> request = scc_callCheck denv scc i \<and> request_key env p s \<noteq> [] \<and>
        op_consumer_id (cr_operation request) = ''api_key:'' @ request_key env p s \<and>
        op_operation_name (cr_operation request) = getStringFilterState s kOperation \<and>
        cr_service_name request = rb_service_name (scc_request_builder scc) \<and>
        (server_approved w (scc_client scc) request pr \<or> cache_approved w (scc_client scc) request \<or>
         failed_open w (scc_client scc) pr)"
      using i(1) st(1) op scc_callCheck_message [of i denv scc] success_cases [OF i(3,4) st(3)] by auto
  qed
qed

section \<open>An example\<close>

text \<open>A request whose check is sent to the server, which answers 200 with a response without errors.\<close>

definition example_wire :: "unit wire" where
  "example_wire =
     \<lparr>w_extractHostPath = (\<lambda>u. (u, u)), w_SerializeAsString = (\<lambda>request. ''m''),
      w_ParseFromString = (\<lambda>body. Some new_CheckResponse), w_cached = (\<lambda>request response. False)\<rparr>"

definition example_builder_env :: "unit env" where
  "example_builder_env =
     \<lparr>env_version = ''1'', env_base64url = (\<lambda>x. x), env_code_number = (\<lambda>c. 0),
      env_InitExponential = (\<lambda>opts. (Status_OK, ())), env_AddSample = (\<lambda>x d. (Status_OK, ()))\<rparr>"

definition example_scc :: "unit ServiceControlCall" where
  "example_scc = the (new_ServiceControlCall (example_sc_config False) (cl_config example_client))"

definition example_sent :: HttpCall where
  "example_sent = HttpCall_call ''t'' (check_call (\<lambda>u. (u, u)) (scc_client example_scc) ''m'')"

definition example_answered :: HttpCall where
  "example_answered = HttpCall_onSuccess ''t'' \<lparr>rs_status = Some 200, rs_body = ''b''\<rparr> example_sent"

lemma example_asked:
  obtains h i where "callCheck example_stream_info (req_headers example_sc_stream) 0
      (new_Handler example_handler_env (example_parser False) example_sc_stream ''id'' 0) = (h, SendCheck i)"
proof -
  have "(case snd (callCheck example_stream_info (req_headers example_sc_stream) 0
      (new_Handler example_handler_env (example_parser False) example_sc_stream ''id'' 0)) of
      SendCheck i \<Rightarrow> True | _ \<Rightarrow> False)"
    by code_simp
  with that show thesis
    by (cases "callCheck example_stream_info (req_headers example_sc_stream) 0
      (new_Handler example_handler_env (example_parser False) example_sc_stream ''id'' 0)")
      (auto split: check_action.splits)
qed

lemma example_http_step: "http_step example_sent example_answered"
  unfolding example_answered_def by (rule http_step.intros) code_simp+

lemma example_verdict:
  "progress_verdict example_wire (scc_client example_scc) (AtServer example_answered) =
     Some (Status_OK, new_CheckResponseInfo)"
  by code_simp

lemma example_passed_check_run:
  "\<exists>i. check_run example_handler_env example_builder_env example_wire (example_parser False) example_scc
     example_sc_stream [Checked Status_OK new_CheckResponseInfo] example_passed (Some i) (AtServer example_answered)"
proof -
  let ?run = "check_run example_handler_env example_builder_env example_wire (example_parser False) example_scc
    example_sc_stream"
  let ?asking = "sc_headers_begin example_handler_env (example_parser False) example_stream_info ''id'' 0
    (new_ScFilter example_sc_stream)"
  obtain h i where hi: "callCheck example_stream_info (req_headers example_sc_stream) 0
      (new_Handler example_handler_env (example_parser False) example_sc_stream ''id'' 0) = (h, SendCheck i)"
    by (rule example_asked)
  have "asks example_wire example_builder_env example_scc (SendCheck i) (Some i) (AtServer example_sent)"
    using asks.server [of example_wire example_builder_env example_scc i "''t''"]
    by (simp add: example_sent_def check_transport_def example_wire_def)
  then have "?run [] ?asking (Some i) (AtServer example_sent)"
    using hi by (intro check_run.headers [OF check_run.start]) (simp_all add: new_ScFilter_def)
  then have "?run [] ?asking (Some i) (AtServer example_answered)"
    by (rule check_run.http [OF _ example_http_step])
  moreover have "sc_other example_handler_env (example_parser False) ?asking [] example_waiting"
    unfolding example_waiting_def by (rule sc_other.headers_end) code_simp
  ultimately have "?run ([] @ []) example_waiting (Some i) (AtServer example_answered)" by (rule check_run.other)
  then have "?run [] example_waiting (Some i) (AtServer example_answered)" by simp
  from check_run.answer [OF this example_waiting_state(2) example_verdict example_passed_answer]
  show ?thesis by blast
qed

theorem check_passed_witness:
  "\<exists>i rc. request_ctx (example_parser False) example_sc_stream = Some rc \<and> isCheckRequired rc \<and>
     op_consumer_id (cr_operation (scc_callCheck example_builder_env example_scc i)) =
       ''api_key:'' @ request_key example_handler_env (example_parser False) example_sc_stream"
proof -
  obtain i where run: "check_run example_handler_env example_builder_env example_wire (example_parser False)
      example_scc example_sc_stream [Checked Status_OK new_CheckResponseInfo] example_passed (Some i)
      (AtServer example_answered)"
    using example_passed_check_run by blast
  have "f_state example_passed = Complete" by code_simp
  note check_passed [OF run example_parser_new example_stream_no_reply this]
  moreover have "map_option isCheckRequired (request_ctx (example_parser False) example_sc_stream) = Some True"
    by code_simp
  ultimately show ?thesis by auto
qed

end
