(* ===== verification/FilterFactories.thy ===== *)
theory FilterFactories
  imports CheckFlow
begin

text \<open>
  How the filters come to be: from the configuration messages, through the factories that Envoy calls
  (\<open>filter_factory.cc\<close> and the filter configurations of the four filters, the factories of
  Service Control calls and handlers), to the filters that a factory adds to the chain of a stream.

  Envoy's \<open>FilterChainFactoryCallbacks\<close> is the list of the calls made on it; its registry of counters
  is the parameter \<open>counter\<close>, which makes a counter of a prefix and a name.
\<close>

section \<open>Statistics\<close>

definition PathMatcher_generateStats :: "(string \<Rightarrow> string \<Rightarrow> 'c) \<Rightarrow> string \<Rightarrow> 'c list" where
  "PathMatcher_generateStats counter stats_prefix =
     (let final_prefix = stats_prefix @ ''path_matcher.''
      in map (counter final_prefix) [''allowed'', ''denied''])"

definition BackendAuth_generateStats :: "(string \<Rightarrow> string \<Rightarrow> 'c) \<Rightarrow> string \<Rightarrow> 'c list" where
  "BackendAuth_generateStats counter stats_prefix =
     (let final_prefix = stats_prefix @ ''backend_auth.'' in map (counter final_prefix) [''token_added''])"

definition BackendRouting_generateStats :: "(string \<Rightarrow> string \<Rightarrow> 'c) \<Rightarrow> string \<Rightarrow> 'c list" where
  "BackendRouting_generateStats counter stats_prefix =
     (let final_prefix = stats_prefix @ ''backend_routing.''
      in map (counter final_prefix) [''append_path_to_address_request'', ''constant_address_request''])"

definition ServiceControl_generateStats :: "(string \<Rightarrow> string \<Rightarrow> 'c) \<Rightarrow> string \<Rightarrow> 'c list" where
  "ServiceControl_generateStats counter stats_prefix =
     (let final_prefix = stats_prefix @ ''service_control.''
      in map (counter final_prefix) [''allowed'', ''denied''])"

section \<open>The configuration of the Service Control filter\<close>

text \<open>
  The parser makes a context for each service, and with it the object for its calls. The contexts are
  in the parser; the calls are here, under the same names. \<open>Inl\<close> is an exception: of the call of a
  service, or of the parser.
\<close>

datatype sc_factory_error = Call_not_created ScService | Config_refused sc_config_error

record 'd ServiceControlFilterConfig =
  sfc_proto_config :: ScFilterConfig
  sfc_calls :: "(string \<times> 'd ServiceControlCall) list"
  sfc_config_parser :: ScConfigParser

definition ServiceControlCallFactory_create :: "ScFilterConfig \<Rightarrow> ScService \<Rightarrow> 'd ServiceControlCall option" where
  "ServiceControlCallFactory_create proto_config config = new_ServiceControlCall proto_config config"

fun create_calls ::
    "ScFilterConfig \<Rightarrow> ScService list \<Rightarrow> (string \<times> 'd ServiceControlCall) list
     \<Rightarrow> ScService + (string \<times> 'd ServiceControlCall) list" where
  "create_calls proto_config [] calls = Inr calls"
| "create_calls proto_config (service # services) calls =
     (case ServiceControlCallFactory_create proto_config service of
        None \<Rightarrow> Inl service
      | Some call \<Rightarrow> create_calls proto_config services (fst (map_insert (sv_service_name service) call calls)))"

definition ServiceControlFilterConfig_new ::
    "ScFilterConfig \<Rightarrow> sc_factory_error + 'd ServiceControlFilterConfig" where
  "ServiceControlFilterConfig_new proto_config =
     (case create_calls proto_config (sf_services proto_config) [] of
        Inl service \<Rightarrow> Inl (Call_not_created service)
      | Inr calls \<Rightarrow>
          (case ScConfigParser_new proto_config of
             Inl e \<Rightarrow> Inl (Config_refused e)
           | Inr parser \<Rightarrow>
               Inr \<lparr>sfc_proto_config = proto_config, sfc_calls = calls, sfc_config_parser = parser\<rparr>))"

definition ServiceContext_call :: "'d ServiceControlFilterConfig \<Rightarrow> ServiceContext \<Rightarrow> 'd ServiceControlCall option" where
  "ServiceContext_call fc ctx = map_of (sfc_calls fc) (sv_service_name (sc_config ctx))"

definition createHandler ::
    "handler_env \<Rightarrow> 'd ServiceControlFilterConfig \<Rightarrow> string \<Rightarrow> stream \<Rightarrow> int \<Rightarrow> Handler" where
  "createHandler env fc uuid s now = new_Handler env (sfc_config_parser fc) s uuid now"

section \<open>The factories\<close>

datatype 'd chain_member =
    PathMatcherMember PathMatcherFilterConfig
  | BackendAuthMember FilterConfigParser
  | BackendRoutingMember "string \<rightharpoonup> BackendRoutingRule"
  | ServiceControlMember "'d ServiceControlFilterConfig"

datatype 'd factory_callback =
    AddStreamDecoderFilter "'d chain_member"
  | AddStreamFilter "'d chain_member"
  | AddAccessLogHandler "'d chain_member"

datatype factory_error = Bad_rule PathMatcherRule | Bad_service_control sc_factory_error

text \<open>
  Each factory parses its configuration, once, and returns the function that adds the filter to the chain
  of a stream. \<open>None\<close> is undefined behaviour, of which the path matcher's configuration is shown free.
\<close>

type_synonym 'd filter_factory_result = "(factory_error + 'd factory_callback list) option"

definition PathMatcher_factory :: "PathMatcherConfig \<Rightarrow> 'd filter_factory_result" where
  "PathMatcher_factory proto_config =
     (case PathMatcher_FilterConfig proto_config of
        None \<Rightarrow> None
      | Some (Inl rule) \<Rightarrow> Some (Inl (Bad_rule rule))
      | Some (Inr filter_config) \<Rightarrow> Some (Inr [AddStreamDecoderFilter (PathMatcherMember filter_config)]))"

definition BackendAuth_factory :: "BackendAuthConfig \<Rightarrow> 'd filter_factory_result" where
  "BackendAuth_factory proto_config =
     Some (Inr [AddStreamDecoderFilter (BackendAuthMember (new_FilterConfigParserImpl proto_config))])"

definition BackendRouting_factory :: "BackendRoutingRule list \<Rightarrow> 'd filter_factory_result" where
  "BackendRouting_factory rules =
     Some (Inr [AddStreamDecoderFilter (BackendRoutingMember (BackendRouting_FilterConfig rules Map.empty))])"

definition ServiceControl_factory :: "ScFilterConfig \<Rightarrow> 'd filter_factory_result" where
  "ServiceControl_factory proto_config =
     (case ServiceControlFilterConfig_new proto_config of
        Inl e \<Rightarrow> Some (Inl (Bad_service_control e))
      | Inr filter_config \<Rightarrow>
          (let member = ServiceControlMember filter_config
           in Some (Inr [AddStreamFilter member, AddAccessLogHandler member])))"

section \<open>Accepted configurations\<close>

text \<open>
  When the calls of a service can be created: its service configuration, if it has one, unpacks, and a
  token from IAM has a remote access token.
\<close>

definition callable :: "ScFilterConfig \<Rightarrow> ScService \<Rightarrow> bool" where
  "callable config service \<longleftrightarrow> sv_service_config service \<noteq> Some None \<and>
     (case sf_access_token config of ScIamToken _ _ OtherAccessToken _ \<Rightarrow> False | _ \<Rightarrow> True)"

lemma create_callable:
  "(\<exists>call :: 'd ServiceControlCall. ServiceControlCallFactory_create config service = Some call) \<longleftrightarrow>
     callable config service"
  by (auto simp: ServiceControlCallFactory_create_def new_ServiceControlCall_def make_request_builder_def callable_def
      createIamTokenSub_def Let_def split: option.splits sc_access_token.splits access_token_source.splits prod.splits)

lemma create_service_name:
  "new_ServiceControlCall config service = Some call \<Longrightarrow>
     rb_service_name (scc_request_builder call) = sv_service_name service \<and>
     scc_client call = new_ClientCache service config"
  by (auto simp: new_ServiceControlCall_def make_request_builder_def RequestBuilder_some_def RequestBuilder_all_def
      createIamTokenSub_def createImdsTokenSub_def createTokenGen_def scc_client_def Let_def
      split: option.splits sc_access_token.splits access_token_source.splits prod.splits)

lemma create_calls_emplace:
  "create_calls config ss m =
     (case find (\<lambda>s. ServiceControlCallFactory_create config s = (None :: 'd ServiceControlCall option)) ss of
        Some s \<Rightarrow> Inl s
      | None \<Rightarrow> Inr (emplace_all (map (\<lambda>s. (sv_service_name s,
          the (ServiceControlCallFactory_create config s :: 'd ServiceControlCall option))) ss) m))"
  by (induction ss arbitrary: m) (auto split: option.splits)

lemma create_calls_callable:
  "(\<exists>calls :: (string \<times> 'd ServiceControlCall) list. create_calls config ss m = Inr calls) \<longleftrightarrow>
     list_all (callable config) ss"
proof -
  have "ServiceControlCallFactory_create config s = (None :: 'd ServiceControlCall option) \<longleftrightarrow> \<not> callable config s" for s
    using create_callable [where 'd = 'd, of config s] by (metis not_None_eq)
  then show ?thesis by (auto simp: create_calls_emplace list_all_iff find_None_iff find_Some_iff split: option.splits)
qed

lemma create_calls_find:
  assumes "create_calls config ss [] = Inr (calls :: (string \<times> 'd ServiceControlCall) list)"
    and "distinct (map sv_service_name ss)" "service \<in> set ss"
  shows "\<exists>call. new_ServiceControlCall config service = Some call \<and>
    map_of calls (sv_service_name service) = Some call"
proof -
  let ?make = "\<lambda>s. ServiceControlCallFactory_create config s :: 'd ServiceControlCall option"
  have none: "find (\<lambda>s. ?make s = None) ss = None" and calls: "calls = map (\<lambda>s. (sv_service_name s, the (?make s))) ss"
    using assms(1,2) by (auto simp: create_calls_emplace emplace_all_distinct comp_def split: option.splits)
  have "map_of calls (sv_service_name service) = Some (the (?make service))"
    using assms(2,3) unfolding calls by (intro map_of_is_SomeI) (auto simp: comp_def)
  moreover have "?make service \<noteq> None" using none assms(3) by (auto simp: find_None_iff)
  ultimately show ?thesis by (auto simp: ServiceControlCallFactory_create_def)
qed

text \<open>The counters of the four filters have different names.\<close>

lemma stats_distinct:
  "distinct (PathMatcher_generateStats (@) pre @ BackendAuth_generateStats (@) pre @
     BackendRouting_generateStats (@) pre @ ServiceControl_generateStats (@) pre)"
  by (simp add: PathMatcher_generateStats_def BackendAuth_generateStats_def BackendRouting_generateStats_def
      ServiceControl_generateStats_def Let_def)

text \<open>
  Envoy calls the factories in the order of its configuration; the first exception ends the start.
\<close>

fun run_factories :: "'d filter_factory_result list \<Rightarrow> 'd filter_factory_result" where
  "run_factories [] = Some (Inr [])"
| "run_factories (None # results) = None"
| "run_factories (Some (Inl e) # results) = Some (Inl e)"
| "run_factories (Some (Inr calls) # results) =
     (case run_factories results of
        None \<Rightarrow> None | Some (Inl e) \<Rightarrow> Some (Inl e) | Some (Inr calls') \<Rightarrow> Some (Inr (calls @ calls')))"

lemma ServiceControlFilterConfig_new_ok:
  "(\<exists>fc :: 'd ServiceControlFilterConfig. ServiceControlFilterConfig_new config = Inr fc) \<longleftrightarrow>
     sc_config_ok config \<and> list_all (callable config) (sf_services config)"
  using ScConfigParser_new_ok [of config] create_calls_callable [where 'd = 'd, of config "sf_services config" "[]"]
  by (auto simp: ServiceControlFilterConfig_new_def split: sum.splits)

text \<open>
  The chain of the four filters, whatever the configurations: it is built exactly when the rules of the
  path matcher are accepted and the Service Control configuration is; each filter is then added once, in
  order, and the filter that gets the access log is the Service Control filter of the stream.
\<close>

lemma chain_built:
  assumes "list_all rule_ok (config_rules pm)"
  shows "\<exists>res :: factory_error + 'd factory_callback list.
    run_factories [PathMatcher_factory pm, ServiceControl_factory sc, BackendAuth_factory ba, BackendRouting_factory br] =
      Some res \<and>
    (case res of
       Inl e \<Rightarrow> \<not> (\<exists>c. PathMatcher_FilterConfig pm = Some (Inr c)) \<or> \<not> sc_config_ok sc \<or>
         \<not> list_all (callable sc) (sf_services sc)
     | Inr calls \<Rightarrow> \<exists>c fc. PathMatcher_FilterConfig pm = Some (Inr c) \<and> ServiceControlFilterConfig_new sc = Inr fc \<and>
         calls = [AddStreamDecoderFilter (PathMatcherMember c), AddStreamFilter (ServiceControlMember fc),
           AddAccessLogHandler (ServiceControlMember fc),
           AddStreamDecoderFilter (BackendAuthMember (new_FilterConfigParserImpl ba)),
           AddStreamDecoderFilter (BackendRoutingMember (BackendRouting_FilterConfig br Map.empty))])"
proof -
  obtain res where res: "PathMatcher_FilterConfig pm = Some res" using FilterConfig_total [OF assms] by blast
  show ?thesis
    using res ServiceControlFilterConfig_new_ok [where 'd = 'd, of sc]
    by (cases res; cases "ServiceControlFilterConfig_new sc :: sc_factory_error + 'd ServiceControlFilterConfig")
      (simp_all add: PathMatcher_factory_def ServiceControl_factory_def BackendAuth_factory_def
        BackendRouting_factory_def Let_def)
qed

text \<open>
  The call object that a request of an operation uses, as the handler finds it: that of the service of
  the requirement, which its checks then name.
\<close>

lemma requirement_call:
  assumes "ServiceControlFilterConfig_new config = Inr (fc :: 'd ServiceControlFilterConfig)"
    and "FindRequirement (sfc_config_parser fc) op = Some rc"
  obtains service call where "service \<in> set (sf_services config)" "rc_service_ctx rc = new_ServiceContext service"
    "sv_service_name service = rq_service_name (rc_config rc)" "ServiceContext_call fc (rc_service_ctx rc) = Some call"
    "rb_service_name (scc_request_builder call) = rq_service_name (rc_config rc)"
    "scc_client call = new_ClientCache service config"
proof -
  from assms(1) have calls: "create_calls config (sf_services config) [] = Inr (sfc_calls fc)"
    and parser: "ScConfigParser_new config = Inr (sfc_config_parser fc)"
    by (auto simp: ServiceControlFilterConfig_new_def split: sum.splits)
  have "sc_config_ok config" using parser ScConfigParser_new_ok by blast
  then have distinct: "distinct (map sv_service_name (sf_services config))" by (simp add: sc_config_ok_def)
  obtain service where s: "service \<in> set (sf_services config)" "rc_service_ctx rc = new_ServiceContext service"
    "sv_service_name service = rq_service_name (rc_config rc)"
    using found_service [OF parser assms(2)] .
  from create_calls_find [OF calls distinct s(1)] obtain call where
    c: "new_ServiceControlCall config service = Some call"
    "map_of (sfc_calls fc) (sv_service_name service) = Some call" by blast
  have "ServiceContext_call fc (rc_service_ctx rc) = Some call"
    using c(2) by (simp add: s(2) ServiceContext_call_def new_ServiceContext_def Let_def)
  moreover have "rb_service_name (scc_request_builder call) = rq_service_name (rc_config rc)"
    "scc_client call = new_ClientCache service config"
    using create_service_name [OF c(1)] unfolding s(3) by blast+
  ultimately show thesis using that s by blast
qed

lemma check_names_service:
  assumes "ServiceControlFilterConfig_new config = Inr (fc :: 'd ServiceControlFilterConfig)"
    and "FindRequirement (sfc_config_parser fc) op = Some rc" "ServiceContext_call fc (rc_service_ctx rc) = Some call"
    and "operation_id i \<noteq> []" "operation_name i \<noteq> []" "api_key i \<noteq> []"
  shows "cr_service_name (scc_callCheck denv call i) = rq_service_name (rc_config rc)"
proof -
  obtain service call' where "ServiceContext_call fc (rc_service_ctx rc) = Some call'"
    "rb_service_name (scc_request_builder call') = rq_service_name (rc_config rc)"
    by (rule requirement_call [OF assms(1,2)])
  then show ?thesis using assms(3) scc_callCheck_message(3) [OF assms(4-6), of denv call] by simp
qed

section \<open>Properties\<close>

text \<open>
  C38: the Service Control configuration is refused exactly when it has no service, names a service or
  an operation twice, has an operation of an unknown service, or has a service whose calls cannot be
  created (its service configuration does not unpack, or a token from IAM has no remote access token).
  Otherwise the lookup of an operation finds its one requirement in the context of the service it
  names; that context has a call object, made for this service: its requests name the service of the
  requirement, and its client has the settings of the configuration.
\<close>

theorem ServiceControlFilterConfig_built:
  "case (ServiceControlFilterConfig_new config :: sc_factory_error + 'd ServiceControlFilterConfig) of
     Inl e \<Rightarrow> \<not> (sc_config_ok config \<and> list_all (callable config) (sf_services config))
   | Inr fc \<Rightarrow> sc_config_ok config \<and> list_all (callable config) (sf_services config) \<and>
       map_option rc_config (FindRequirement (sfc_config_parser fc) op) =
         find (\<lambda>r. rq_operation_name r = op) (sf_requirements config) \<and>
       (\<forall>rc. FindRequirement (sfc_config_parser fc) op = Some rc \<longrightarrow>
          (\<exists>service call. service \<in> set (sf_services config) \<and> rc_service_ctx rc = new_ServiceContext service \<and>
             sv_service_name service = rq_service_name (rc_config rc) \<and>
             ServiceContext_call fc (rc_service_ctx rc) = Some call \<and>
             rb_service_name (scc_request_builder call) = rq_service_name (rc_config rc) \<and>
             scc_client call = new_ClientCache service config))"
proof (cases "ServiceControlFilterConfig_new config :: sc_factory_error + 'd ServiceControlFilterConfig")
  case (Inl e)
  then show ?thesis using ServiceControlFilterConfig_new_ok [where 'd = 'd, of config] by auto
next
  case (Inr fc)
  then have ok: "sc_config_ok config" "list_all (callable config) (sf_services config)"
    using ServiceControlFilterConfig_new_ok [where 'd = 'd, of config] by auto
  from Inr have parser: "ScConfigParser_new config = Inr (sfc_config_parser fc)"
    by (auto simp: ServiceControlFilterConfig_new_def split: sum.splits)
  have call: "\<exists>service call. service \<in> set (sf_services config) \<and> rc_service_ctx rc = new_ServiceContext service \<and>
      sv_service_name service = rq_service_name (rc_config rc) \<and>
      ServiceContext_call fc (rc_service_ctx rc) = Some call \<and>
      rb_service_name (scc_request_builder call) = rq_service_name (rc_config rc) \<and>
      scc_client call = new_ClientCache service config"
    if "FindRequirement (sfc_config_parser fc) op = Some rc" for rc
    using requirement_call [OF Inr that] by metis
  have "map_option rc_config (FindRequirement (sfc_config_parser fc) op) =
      find (\<lambda>r. rq_operation_name r = op) (sf_requirements config)"
    by (simp add: ScConfigParser_new_maps(1) [OF parser] option.map_comp comp_def new_RequirementContext_def option.map_ident)
  then show ?thesis using Inr ok call by simp
qed

theorem ServiceControlFilterConfig_built_witness:
  "\<exists>fc rc call. ServiceControlFilterConfig_new (example_sc_config False) =
       (Inr fc :: sc_factory_error + unit ServiceControlFilterConfig) \<and>
     FindRequirement (sfc_config_parser fc) ''op'' = Some rc \<and>
     ServiceContext_call fc (rc_service_ctx rc) = Some call \<and> rb_service_name (scc_request_builder call) = ''s''"
proof -
  have "sc_config_ok (example_sc_config False)" using example_parser_new ScConfigParser_new_ok by blast
  moreover have "list_all (callable (example_sc_config False)) (sf_services (example_sc_config False))"
    by (simp add: example_sc_config_def example_client_def callable_def)
  ultimately obtain fc where fc: "ServiceControlFilterConfig_new (example_sc_config False) =
      (Inr fc :: sc_factory_error + unit ServiceControlFilterConfig)"
    using ServiceControlFilterConfig_new_ok [where 'd = unit, of "example_sc_config False"] by blast
  have r: "find (\<lambda>r. rq_operation_name r = ''op'') (sf_requirements (example_sc_config False)) =
      Some (new_Requirement\<lparr>rq_service_name := ''s'', rq_operation_name := ''op''\<rparr>)"
    by (simp add: example_sc_config_def new_Requirement_def)
  from ServiceControlFilterConfig_built [where 'd = unit, of "example_sc_config False" "''op''"] r
  show ?thesis by (auto simp: fc)
qed

end
