(* ===== verification/Spec2Isabelle.thy ===== *)
theory Spec2Isabelle
  imports ESP_Prelude HttpTemplate HttpTemplate_Grammar HttpTemplate_Correct PathMatcherNode PathMatcher
    RequestInfo RequestBuilder RequestBuilder_Props LogsMetricsLoader
    EnvoyUtils PathMatcherFilter BackendRouting TokenInfo TokenSubscriber TokenCell BackendAuth BackendAuthTokens
    JsonUtil AuthToken
    ServiceControlConfig HandlerUtils HttpCall ClientCache ServiceControlTokens ServiceControlHandler ServiceControlFilter
    ServiceControlReports RequestFlow CheckFlow FilterFactories
begin

text \<open>
  A verification library for the C++ data plane of ESPv2 (\<open>src/src\<close>): four Envoy HTTP filters
  that turn a request to an API into a call of its backend, and the libraries under them.

  \<^bold>\<open>The program and its parts.\<close> A request passes the filters in this order, sharing one stream
  (headers and filter state). The path matcher filter finds the operation of the request and
  leaves its name, and the path's parameters, in the filter state. The Service Control filter
  reads the operation, asks the Service Control service whether the caller may call it (check)
  and whether it has quota, holds the request until the answers are there, and reports the call
  when it is over. The backend authentication filter attaches an identity token for the backend's
  audience. The backend routing filter rewrites the path. Tokens come from subscribers that
  refresh them in the background; calls to Service Control go through a client that retries them.

  \<^bold>\<open>Where each part is modelled.\<close> Definitions have the names of the code, with a prefix where two
  classes share a name; a class is a record of its members, a method a function on the record, and
  an enum or a \<open>oneof\<close> a datatype.

  \<^item> \<open>ESP_Prelude\<close>: strings, searching, splitting and joining, integers of fixed width, maps.
  \<^item> \<open>HttpTemplate\<close>: the recursive descent parser of URL templates
    (\<open>api_proxy/path_matcher/http_template.cc\<close>), character by character with its cursor.
    \<open>HttpTemplate_Grammar\<close> has the documented grammar as a datatype with printer and meaning;
    \<open>HttpTemplate_Correct\<close> proves the parser equivalent to it, total, and inverse to the printer.
  \<^item> \<open>PathMatcherNode\<close>: the trie (\<open>path_matcher_node.cc\<close>). What a lookup may return is specified by
    \<open>best_match\<close> on the set of stored templates; lookups implement it and insertions keep the
    invariant of the trie.
  \<^item> \<open>PathMatcher\<close>: registration and lookup with variable bindings (\<open>path_matcher.h\<close>,
    \<open>path_matcher.cc\<close>, \<open>variable_binding_utils.cc\<close>). The trie is used through a locale; the theorems
    give the winning rule for any list of rules, and that bindings never read outside the path.
  \<^item> \<open>RequestInfo\<close>, \<open>RequestBuilder\<close>, \<open>RequestBuilder_Props\<close>: the messages to Service Control and how
    they are filled and read (\<open>api_proxy/service_control/request_info.h\<close>, \<open>request_builder.cc\<close>), with
    both tables of metrics and labels in full. \<open>LogsMetricsLoader\<close>: which of them a service
    configuration selects (\<open>logs_metrics_loader.cc\<close>).
  \<^item> \<open>EnvoyUtils\<close>: headers, filter state, local replies (\<open>envoy/utils\<close>), the contract of a decoder
    filter as the locale \<open>decoder_filter\<close>, and chains of filters. \<open>PathMatcherFilter\<close>, \<open>BackendRouting\<close> and
    \<open>BackendAuth\<close> are the filters of \<open>envoy/http/path_matcher\<close>, \<open>backend_routing\<close> and \<open>backend_auth\<close>,
    each an interpretation of that locale, with their configuration parsers.
  \<^item> \<open>JsonUtil\<close>, \<open>AuthToken\<close>: tokens of a service account (\<open>api_proxy/auth\<close>). gRPC's JSON nodes are
    linked by pointers, in a heap; reading is related to trees, and building to the claims of a token.
  \<^item> \<open>TokenInfo\<close>, \<open>TokenSubscriber\<close>: token requests and responses, and the refresh state machine with
    its timer (\<open>envoy/token\<close>, \<open>envoy/utils/json_struct.cc\<close>). \<open>TokenCell\<close> has the contract between a
    subscriber and the client that keeps its tokens, as the locale \<open>token_cell\<close>;
    \<open>BackendAuthTokens\<close> and \<open>ServiceControlTokens\<close> interpret it for the subscribers of the backend
    authentication filter and of the Service Control calls, and run them together: an access token
    subscriber that feeds the IAM subscribers, the metadata server, service account generators.
  \<^item> \<open>ServiceControlConfig\<close>, \<open>HandlerUtils\<close>, \<open>HttpCall\<close>, \<open>ClientCache\<close>, \<open>ServiceControlHandler\<close>,
    \<open>ServiceControlFilter\<close>: the files of the same names in \<open>envoy/http/service_control\<close> (\<open>ClientCache\<close>
    has \<open>service_control_call_impl.cc\<close> too). \<open>ServiceControlReports\<close> and \<open>RequestFlow\<close> follow the
    reports of a stream and the stream itself through them; \<open>CheckFlow\<close> follows a check from the filter through
    the request builder and the HTTP call to the server and back, as a system whose runs refine those of
    the filter alone.
  \<^item> \<open>FilterFactories\<close>: the factories that make the filters, their counters, the handlers and the calls of each
    service from the configuration messages (\<open>filter_factory.cc\<close>, \<open>filter_config.h\<close>, \<open>filter_stats.h\<close>).

  \<^bold>\<open>What is shown.\<close> For the pure parts: equivalence with a grammar, the winning match, round trips of
  printing, splitting and unescaping, the verdict on every kind of response, which metrics and
  labels a report has and of which type its values are. For the state machines, as invariants of every order of events that Envoy
  and the client can produce: a token subscriber always has a request in flight or its timer
  armed and recovers from every state; once the subscribers are ready no request lacks its token, and
  a token is only used for the audience or API it was issued for; a call completes exactly once after at most one attempt
  more than its retries, and its factory's destructor completes what is left; the Service Control
  filter gives at most one verdict, lets nobody pass without the check and quota that the
  operation requires, and counts a stream once. A check that let a request pass was made for its key and
  operation, and the server, the client's cache or the setting to fail open answers for it
  (\<open>check_passed\<close>); the factories refuse exactly the configurations that are not well-formed and give
  each operation the calls of its service. The theorem \<open>request_flow\<close> below joins the four
  filters; its deliveries of tokens can be those of the running subscribers (\<open>tokens_run_refines\<close>).

  \<^bold>\<open>Conventions.\<close> A dereferenced null pointer, a read out of range or a failed assertion is the
  result \<open>None\<close>; an exception is \<open>Inl\<close>, or a second \<open>None\<close> where it carries nothing that is used.
  Integers are \<open>int\<close> with the conversion written out (\<open>int32\<close>, \<open>size_t\<close>, \<open>signed_take_bit\<close>) where the
  width matters, and words for the counters of retries. Times are nanoseconds. The template parser
  has fuel \<open>length + 8\<close>, since every call but a bounded number consumes a character; it is proved
  never to run out for inputs shorter than 2^31. Templates of at least 2^31 characters and paths of
  at least 2^62 are excluded, where \<open>int\<close> and \<open>size_t\<close> overflow. Each worker thread has its own
  copies of tokens and filters; the model is one such thread, with deliveries of tokens as events.

  \<^bold>\<open>Parameters.\<close> Code outside the repository is an argument: in \<open>env\<close> the product version, base64,
  status code numbers and the distribution helper of the client library; in \<open>token_env\<close> the JSON
  parser, time stamps and URIs; in \<open>auth_env\<close> gRPC's JSON and base64 functions and OpenSSL's HMAC; in \<open>handler_env\<close> Envoy's query, cookie, header size and status
  functions; \<open>StreamInfo\<close> has what a filter reads of a stream. Envoy's header map, filter state and
  local reply are modelled as far as the filters use them: entries in order, the first of a name
  found, names in lower case. The client library of Service Control may answer a call at once or
  later, once per call, with any status and response.

  \<^bold>\<open>Not modelled.\<close> The aggregation and caching inside the client library (its calls are parameters),
  tracing and logging, the static objects that register the factories with Envoy, destructors that only
  free memory, and the control plane in Go that generates the configuration.
  What is left of the C++ files is declarations and comments.
\<close>

section \<open>The way of a request\<close>

text \<open>
  C1: what reaches the backend. Take a request that the path matcher lets pass, that the Service
  Control filter lets pass in some run of its callbacks, and that the two backend filters let
  pass. Then the request's method and path have a best matching rule; the operation of that rule
  has a Service Control requirement, and it is this requirement that was enforced: if it asks for a
  check, the request has an API key and the check was answered with success, and if it has costs,
  the quota was allocated with success; the path is the one that the operation's routing rule
  makes of the original path and the path's bindings; and if the operation has an audience, the
  request carries the latest token for it in place of the client's \<open>authorization\<close> header.
\<close>

theorem request_flow:
  assumes "list_all rule_ok (config_rules proto)" "PathMatcher_FilterConfig proto = Some (Inr config)"
    and "header_get kMethod (req_headers s) = Some om" "header_get kPath (req_headers s) = Some path"
    and "length path < 2 ^ 62" "filter_state s = []" "sent_reply s = None"
    and "PathMatcher_decodeHeaders config pstats s = Some (Continue, pstats', s1)"
    and "ScConfigParser_new sc = Inr p" "sc_run env p cl s1 tr f" "f_state f = Complete"
    and "backend_filters ac deliveries astats rules rstats (f_stream f) = Some (Continue, s2)"
  defines "ps \<equiv> ExtractRequestParts path (pm_custom_verbs (fc_path_matcher config))"
  shows "\<exists>md rq bs.
    best_match (\<lambda>ks m. map_of (registrations (config_rules proto)) (ks, m)) ps
      (getRequestHTTPMethodWithOverride om (req_headers s)) (Some md) \<and>
    find (\<lambda>r. rq_operation_name r = md_method md) (sf_requirements sc) = Some rq \<and>
    (\<not> rq_skip_service_control rq \<and> \<not> akr_allow_without_api_key (rq_api_key rq) \<longrightarrow>
       request_key env p s1 \<noteq> [] \<and> (\<exists>st info. Checked st info \<in> set tr \<and> st_ok st)) \<and>
    (\<not> rq_skip_service_control rq \<and> rq_metric_costs rq \<noteq> [] \<longrightarrow> (\<exists>st. QuotaChecked st \<in> set tr \<and> st_ok st)) \<and>
    ExtractBindingsFromPath (md_variables md) ps [] True = Some bs \<and>
    header_get kPath (req_headers s2) = Some (forwarded_path rules (md_method md) path
      (if \<exists>r\<in>set (pc_rules proto). pr_extract_path_parameters r \<and> pr_operation r = md_method md
       then VariableBindingsToQueryParameters bs (FilterConfig_segments (pc_segment_names proto) []) else [])) \<and>
    header_get kAuthorization (req_headers s2) =
      forwarded_authorization ac deliveries (md_method md) (header_get kAuthorization (req_headers s)) \<and>
    (operation_audience ac (md_method md) \<noteq> [] \<longrightarrow>
       latest_token deliveries (operation_audience ac (md_method md)) \<noteq> None)"
proof (rule PathMatcher_outcome_cases [OF assms(1-6), of pstats], goal_cases denied allowed)
  case denied
  with assms(8) show ?case by simp
next
  case (allowed md s' bs)
  with assms(8) have [simp]: "s' = s1" by simp
  have no_reply: "sent_reply s1 = None" using allowed assms(7) by simp
  note op = allowed(5) [simplified]
  have inv: "flow_inv env p s1 f" by (rule sc_run_flow_inv [OF assms(10) no_reply])
  have kept: "getStringFilterState (f_stream f) n = getStringFilterState s1 n" for n
    using inv by (intro getString_cong) (simp add: flow_inv_def stream_kept_def)
  have hdr: "header_get n (req_headers (f_stream f)) = header_get n (req_headers s)" if "n \<noteq> kConsumerProjectId" for n
    using inv allowed(3) that by (simp add: flow_inv_def stream_kept_def)
  have "header_get kPath (req_headers (f_stream f)) = Some path" using hdr [of kPath] assms(4) by simp
  note fwd = backend_filters_forward [OF assms(12) this, unfolded kept op hdr [OF kNames(4)]]
  obtain h rc where h: "f_handler f = Some h" "h_require_ctx h = Some rc" "checked_ok tr h rc" "quota_ok tr rc"
    using sc_run_inv [OF assms(10) no_reply] assms(11) by (auto simp: sc_inv_def)
  then have "request_ctx p s1 = Some rc" "h_api_key h = request_key env p s1"
    using inv by (simp_all add: flow_inv_def about_stream_def)
  then obtain rq where "find (\<lambda>r. rq_operation_name r = md_method md) (sf_requirements sc) = Some rq" "rc_config rc = rq"
    using op by (auto simp: request_ctx_def ScConfigParser_new_maps(1) [OF assms(9)] new_RequirementContext_def
        split: if_splits)
  with h(3,4) \<open>h_api_key h = _\<close> allowed fwd show ?case
    unfolding ps_def
    by (intro exI [of _ md] exI [of _ rq] exI [of _ bs])
      (auto simp: checked_ok_def quota_ok_def isCheckRequired_def isQuotaRequired_def)
qed

text \<open>
  A request for a shelf: matched, checked, given a token, and sent to a constant address with the
  shelf as a query parameter.
\<close>

definition flow_config :: PathMatcherFilterConfig where
  "flow_config = projr (the (PathMatcher_FilterConfig shelf_proto))"

definition flow_matched :: "FilterHeadersStatus \<times> PathMatcherStats \<times> stream" where
  "flow_matched = the (PathMatcher_decodeHeaders flow_config \<lparr>ps_allowed = 0, ps_denied = 0\<rparr> shelf_request)"

definition flow_sc_config :: ScFilterConfig where
  "flow_sc_config = (example_sc_config False)\<lparr>sf_requirements :=
     [new_Requirement\<lparr>rq_service_name := ''s'', rq_operation_name := ''GetShelf''\<rparr>]\<rparr>"

definition flow_parser :: ScConfigParser where "flow_parser = projr (ScConfigParser_new flow_sc_config)"

definition flow_waiting :: ScFilter where
  "flow_waiting = sc_headers_begin example_handler_env flow_parser example_stream_info ''id'' 0
     (new_ScFilter (snd (snd flow_matched)))"

definition flow_passed :: ScFilter where
  "flow_passed = the (sc_check_answer example_handler_env example_stream_info 0 Status_OK new_CheckResponseInfo flow_waiting)"

definition flow_auth :: BackendAuthConfig where
  "flow_auth = \<lparr>bc_rules = [\<lparr>ba_operation = ''GetShelf'', ba_jwt_audience = ''aud''\<rparr>],
     bc_id_token_info = ImdsToken ''uri'' ''c''\<rparr>"

definition flow_rules :: "BackendRoutingRule list" where
  "flow_rules = [\<lparr>br_operation = ''GetShelf'', br_is_const_address = True, br_path_prefix = ''/get''\<rparr>]"

definition flow_sent :: "(FilterHeadersStatus \<times> stream) option" where
  "flow_sent = backend_filters flow_auth [(''aud'', ''tok'')] \<lparr>as_token_added = 0\<rparr>
     flow_rules \<lparr>bs_append_path_to_address_request = 0, bs_constant_address_request = 0\<rparr> (f_stream flow_passed)"

lemma flow_steps:
  "PathMatcher_FilterConfig shelf_proto = Some (Inr flow_config)"
  "fst flow_matched = Continue" "sent_reply (snd (snd flow_matched)) = None"
  "ScConfigParser_new flow_sc_config = Inr flow_parser"
  "f_awaiting flow_waiting = CheckAnswer"
  "map_option fst flow_sent = Some Continue" "f_state flow_passed = Complete"
  by code_simp+

lemma flow_run:
  "sc_run example_handler_env flow_parser example_client (snd (snd flow_matched))
     [Checked Status_OK new_CheckResponseInfo] flow_passed"
proof -
  have w: "sc_run example_handler_env flow_parser example_client (snd (snd flow_matched)) [] flow_waiting"
    unfolding flow_waiting_def by (rule sc_run.headers_begin [OF sc_run.start]) (simp_all add: new_ScFilter_def)
  obtain f' where "sc_check_answer example_handler_env example_stream_info 0 Status_OK new_CheckResponseInfo
      flow_waiting = Some f'"
    using check_answer_decides [OF sc_run_inv [OF w flow_steps(3)] flow_steps(5), of example_handler_env
      example_stream_info 0 Status_OK new_CheckResponseInfo] by blast
  then have "sc_check_answer example_handler_env example_stream_info 0 Status_OK new_CheckResponseInfo
      flow_waiting = Some flow_passed" by (simp add: flow_passed_def)
  then show ?thesis by (rule sc_run.check_answer [OF w flow_steps(5)])
qed

lemma flow_matched_eq:
  "PathMatcher_decodeHeaders flow_config \<lparr>ps_allowed = 0, ps_denied = 0\<rparr> shelf_request =
     Some (Continue, fst (snd flow_matched), snd (snd flow_matched))"
proof -
  have "PathMatcher_decodeHeaders flow_config \<lparr>ps_allowed = 0, ps_denied = 0\<rparr> shelf_request \<noteq> None" by code_simp
  then have "PathMatcher_decodeHeaders flow_config \<lparr>ps_allowed = 0, ps_denied = 0\<rparr> shelf_request = Some flow_matched"
    by (auto simp: flow_matched_def)
  with flow_steps(2) show ?thesis by (metis prod.collapse)
qed

lemma shelf_request_headers:
  "header_get kMethod (req_headers shelf_request) = Some ''GET''"
  "header_get kPath (req_headers shelf_request) = Some ''/shelves/7?a=b''"
  "length ''/shelves/7?a=b'' < (2 ^ 62 :: nat)" "filter_state shelf_request = []" "sent_reply shelf_request = None"
  by (simp_all add: shelf_request_def header_get_def kMethod_def kPath_def)

theorem request_flow_witness:
  "header_get kPath (req_headers (snd (the flow_sent))) = Some ''/get?a=b&shelfId=7'' \<and>
   (\<exists>(md :: string MethodData) rq. find (\<lambda>r. rq_operation_name r = md_method md) (sf_requirements flow_sc_config) = Some rq \<and>
     header_get kAuthorization (req_headers (snd (the flow_sent))) =
       forwarded_authorization flow_auth [(''aud'', ''tok'')] (md_method md)
         (header_get kAuthorization (req_headers shelf_request)))"
proof -
  obtain s2 where "flow_sent = Some (Continue, s2)" using flow_steps(6) by auto
  then have "flow_sent = Some (Continue, snd (the flow_sent))" by (metis option.sel snd_conv)
  from request_flow [OF shelf_rule_ok flow_steps(1) shelf_request_headers flow_matched_eq flow_steps(4) flow_run
      flow_steps(7) this [unfolded flow_sent_def], folded flow_sent_def]
  have "\<exists>(md :: string MethodData) rq. find (\<lambda>r. rq_operation_name r = md_method md) (sf_requirements flow_sc_config) = Some rq \<and>
     header_get kAuthorization (req_headers (snd (the flow_sent))) =
       forwarded_authorization flow_auth [(''aud'', ''tok'')] (md_method md)
         (header_get kAuthorization (req_headers shelf_request))"
    by blast
  moreover have "header_get kPath (req_headers (snd (the flow_sent))) = Some ''/get?a=b&shelfId=7''" by code_simp
  ultimately show ?thesis by blast
qed

end
